(* ===== verification/Prelude.thy ===== *)
theory Prelude
  imports Main "HOL-Library.Word" "HOL-Library.List_Lexorder" "HOL-Library.Char_ord"
    "HOL-Library.Product_Lexorder" "HOL-Library.Code_Target_Nat"
begin

text \<open>
  Shared vocabulary of the development: outcomes of fallible Rust code (a value, an error
  or a panic), unsigned machine integers with the overflow checks of the release profile
  (\<open>overflow-checks = true\<close>), sums of amounts, and the reachable states of a transition
  system.
\<close>

named_theorems outcome_simps "equations that invert successful fallible computations"
named_theorems outcome_elims "eliminations that walk through a successful computation"
named_theorems checked "what a successful checked operation says of the unsigned values"

section \<open>Machine integers\<close>

type_synonym u32 = "32 word"
type_synonym u64 = "64 word"
type_synonym uint128 = "128 word"
type_synonym uint256 = "256 word"

section \<open>Outcomes\<close>

text \<open>
  A Rust computation returns a value, returns an error (\<open>Err\<close>), or panics. A panic aborts
  the transaction, exactly as an error returned from an entry point does, but unlike an
  error it cannot be inspected by the caller (\<open>if let Ok(..)\<close>, \<open>.ok()\<close>).
  \<open>NoReturn\<close> stands for a loop that never ends (the chain aborts it when gas runs out), and
  \<open>NotImplemented\<close> for \<open>todo!()\<close>.
\<close>

datatype panic = ArithmeticOverflow | DivisionByZero | UnwrapFailed | IndexOutOfBounds | NoReturn
  | NotImplemented

datatype 'e failure = Err 'e | Panic panic

type_synonym ('e, 'a) outcome = "'e failure + 'a"

text \<open>\<open>and_then m k\<close> is Rust's \<open>let x = m?; k\<close>.\<close>

definition and_then :: "('e, 'a) outcome \<Rightarrow> ('a \<Rightarrow> ('e, 'b) outcome) \<Rightarrow> ('e, 'b) outcome" where
  "and_then m k = (case m of Inl f \<Rightarrow> Inl f | Inr a \<Rightarrow> k a)"

text \<open>\<open>opt.ok_or(e)\<close>, \<open>res.unwrap()\<close> and \<open>if !b { return Err(e) }\<close>.\<close>

definition ok_or :: "'a option \<Rightarrow> 'e \<Rightarrow> ('e, 'a) outcome" where
  "ok_or opt e = (case opt of None \<Rightarrow> Inl (Err e) | Some a \<Rightarrow> Inr a)"

definition unwrap :: "('e, 'a) outcome \<Rightarrow> ('e2, 'a) outcome" where
  "unwrap m = (case m of Inl (Err _) \<Rightarrow> Inl (Panic UnwrapFailed) | Inl (Panic p) \<Rightarrow> Inl (Panic p)
     | Inr a \<Rightarrow> Inr a)"

definition ensure :: "bool \<Rightarrow> 'e \<Rightarrow> ('e, unit) outcome" where
  "ensure b e = (if b then Inr () else Inl (Err e))"

text \<open>Lifting library calls that report an error (\<open>from_err\<close>) or panic (\<open>or_panic\<close>).\<close>

definition from_err :: "('e1 \<Rightarrow> 'e2) \<Rightarrow> 'e1 + 'a \<Rightarrow> ('e2, 'a) outcome" where
  "from_err h m = (case m of Inl e \<Rightarrow> Inl (Err (h e)) | Inr a \<Rightarrow> Inr a)"

definition or_panic :: "panic + 'a \<Rightarrow> ('e, 'a) outcome" where
  "or_panic m = (case m of Inl p \<Rightarrow> Inl (Panic p) | Inr a \<Rightarrow> Inr a)"

text \<open>A \<open>for\<close> loop that threads a state and leaves at the first failure.\<close>

fun for_each :: "('a \<Rightarrow> 's \<Rightarrow> ('e, 's) outcome) \<Rightarrow> 'a list \<Rightarrow> 's \<Rightarrow> ('e, 's) outcome" where
  "for_each body [] s = Inr s"
| "for_each body (a # as) s = and_then (body a s) (for_each body as)"

text \<open>Indexing a vector, \<open>v[i]\<close> and \<open>v[i] = a\<close>.\<close>

definition vec_get :: "'a list \<Rightarrow> nat \<Rightarrow> ('e, 'a) outcome" where
  "vec_get as i = (if i < length as then Inr (as ! i) else Inl (Panic IndexOutOfBounds))"

definition vec_set :: "'a list \<Rightarrow> nat \<Rightarrow> 'a \<Rightarrow> ('e, 'a list) outcome" where
  "vec_set as i a = (if i < length as then Inr (as[i := a]) else Inl (Panic IndexOutOfBounds))"

lemma and_then_simps [simp]:
  "and_then (Inr a) k = k a"
  "and_then (Inl f) k = Inl f"
  by (simp_all add: and_then_def)

text \<open>
  Evaluation on concrete inputs goes from left to right: with these congruences the simplifier
  computes the first step before it looks into the continuation.
\<close>

lemma and_then_eval: "m = m' \<Longrightarrow> and_then m k = and_then m' k"
  by simp

lemmas eval_cong = and_then_eval let_weak_cong

lemma and_then_Inr [outcome_simps]:
  "and_then m k = Inr b \<longleftrightarrow> (\<exists>a. m = Inr a \<and> k a = Inr b)"
  by (cases m) auto

text \<open>The same, one step at a time, for long sequences of steps.\<close>

lemma and_then_InrE [outcome_elims]:
  assumes "and_then m k = Inr b" obtains a where "m = Inr a" and "k a = Inr b"
  using assms by (auto simp: and_then_Inr)

lemma case_prod_InrE [outcome_elims]:
  assumes "(case p of (a, b) \<Rightarrow> k a b) = Inr c"
  obtains a b where "p = (a, b)" and "k a b = Inr c"
  using assms by (cases p) auto

lemma if_Inl_InrE [outcome_elims]:
  assumes "(if b then Inl f else k) = Inr c" obtains "\<not> b" and "k = Inr c"
  using assms by (auto split: if_splits)

lemma Let_InrE [outcome_elims]:
  assumes "(let x = a in k x) = Inr c" obtains "k a = Inr c"
  using assms by simp

lemma and_then_Inl:
  "and_then m k = Inl f \<longleftrightarrow> m = Inl f \<or> (\<exists>a. m = Inr a \<and> k a = Inl f)"
  by (cases m) auto

lemma ok_or_Inr [outcome_simps]: "ok_or opt e = Inr a \<longleftrightarrow> opt = Some a"
  by (cases opt) (auto simp: ok_or_def)

lemma ok_or_simps [simp]:
  "ok_or None e = Inl (Err e)"
  "ok_or (Some a) e = Inr a"
  by (simp_all add: ok_or_def)

lemma unwrap_Inr [outcome_simps]: "unwrap m = Inr a \<longleftrightarrow> m = Inr a"
  by (auto simp: unwrap_def split: sum.splits failure.splits)

lemma unwrap_simps [simp]:
  "unwrap (Inr a) = Inr a"
  "unwrap (Inl (Err e)) = Inl (Panic UnwrapFailed)"
  "unwrap (Inl (Panic p)) = Inl (Panic p)"
  by (simp_all add: unwrap_def)

lemma ensure_Inr [outcome_simps]: "ensure b e = Inr u \<longleftrightarrow> b"
  by (auto simp: ensure_def)

lemma from_err_Inr [outcome_simps]: "from_err h m = Inr a \<longleftrightarrow> m = Inr a"
  by (cases m) (auto simp: from_err_def)

lemma or_panic_Inr [outcome_simps]: "or_panic m = Inr a \<longleftrightarrow> m = Inr a"
  by (cases m) (auto simp: or_panic_def)

lemma or_panic_Inl [simp]: "or_panic m \<noteq> Inl (Err e)"
  by (cases m) (auto simp: or_panic_def)

lemma for_each_invariant:
  assumes "for_each body as s = Inr t" and "P s"
    and "\<And>a u v. a \<in> set as \<Longrightarrow> P u \<Longrightarrow> body a u = Inr v \<Longrightarrow> P v"
  shows "P t"
  using assms
proof (induction as arbitrary: s)
  case Nil
  then show ?case by simp
next
  case (Cons a as)
  from Cons.prems(1) obtain u where "body a s = Inr u" and "for_each body as u = Inr t"
    by (auto simp: outcome_simps)
  with Cons show ?case by (metis list.set_intros)
qed

section \<open>Checked arithmetic\<close>

text \<open>
  The operators \<open>+\<close>, \<open>-\<close>, \<open>*\<close>, \<open>/\<close> and \<open>%\<close> on \<open>u64\<close>, \<open>u128\<close>, \<open>Uint128\<close> and
  \<open>Uint256\<close>: they panic instead of wrapping, one definition for every width.
  \<open>checked_sub\<close> and \<open>checked_add\<close> are the methods that report an error.
\<close>

definition uadd :: "'n::len word \<Rightarrow> 'n word \<Rightarrow> ('e, 'n word) outcome" where
  "uadd a b = (if unat a + unat b < 2 ^ LENGTH('n) then Inr (a + b)
     else Inl (Panic ArithmeticOverflow))"

definition usub :: "'n::len word \<Rightarrow> 'n word \<Rightarrow> ('e, 'n word) outcome" where
  "usub a b = (if b \<le> a then Inr (a - b) else Inl (Panic ArithmeticOverflow))"

definition umul :: "'n::len word \<Rightarrow> 'n word \<Rightarrow> ('e, 'n word) outcome" where
  "umul a b = (if unat a * unat b < 2 ^ LENGTH('n) then Inr (a * b)
     else Inl (Panic ArithmeticOverflow))"

definition udiv :: "'n::len word \<Rightarrow> 'n word \<Rightarrow> ('e, 'n word) outcome" where
  "udiv a b = (if b = 0 then Inl (Panic DivisionByZero) else Inr (a div b))"

definition umod :: "'n::len word \<Rightarrow> 'n word \<Rightarrow> ('e, 'n word) outcome" where
  "umod a b = (if b = 0 then Inl (Panic DivisionByZero) else Inr (a mod b))"

definition checked_sub :: "'e \<Rightarrow> 'n::len word \<Rightarrow> 'n word \<Rightarrow> ('e, 'n word) outcome" where
  "checked_sub e a b = (if b \<le> a then Inr (a - b) else Inl (Err e))"

definition checked_add :: "'e \<Rightarrow> 'n::len word \<Rightarrow> 'n word \<Rightarrow> ('e, 'n word) outcome" where
  "checked_add e a b = (if unat a + unat b < 2 ^ LENGTH('n) then Inr (a + b) else Inl (Err e))"

lemma unat_less: "unat (w :: 'n::len word) < 2 ^ LENGTH('n)"
  by (rule unsigned_less)

lemma unat_less128: "unat (w :: uint128) < 2 ^ 128"
  using unat_less [of w] by simp

lemma unat_ucast_mod:
  "unat (ucast (w :: 'n::len word) :: 'm::len word) = unat w mod 2 ^ LENGTH('m)"
  by (simp add: unsigned_ucast_eq take_bit_eq_mod)

lemma unat_add_exact:
  "unat (a :: 'n::len word) + unat b < 2 ^ LENGTH('n) \<Longrightarrow> unat (a + b) = unat a + unat b"
  by (simp add: unat_word_ariths)

lemma unat_mult_exact:
  "unat (a :: 'n::len word) * unat b < 2 ^ LENGTH('n) \<Longrightarrow> unat (a * b) = unat a * unat b"
  by (simp add: unat_word_ariths)

lemma unat_sub_exact: "(b :: 'n::len word) \<le> a \<Longrightarrow> unat (a - b) = unat a - unat b"
  by (simp add: unat_sub)

lemma uadd_Inr [checked]:
  "uadd a (b :: 'n::len word) = Inr c \<longleftrightarrow> unat c = unat a + unat b"
proof
  assume "uadd a b = Inr c"
  then show "unat c = unat a + unat b"
    by (auto simp: uadd_def unat_add_exact split: if_splits)
next
  assume h: "unat c = unat a + unat b"
  then have lt: "unat a + unat b < 2 ^ LENGTH('n)"
    by (metis unsigned_less)
  with h have "a + b = c"
    by (simp add: unat_add_exact word_unat_eq_iff)
  with lt show "uadd a b = Inr c"
    by (simp add: uadd_def)
qed

lemma usub_Inr [checked]:
  "usub a (b :: 'n::len word) = Inr c \<longleftrightarrow> unat a = unat b + unat c"
proof
  assume "usub a b = Inr c"
  then show "unat a = unat b + unat c"
    by (auto simp: usub_def unat_sub_exact word_le_nat_alt split: if_splits)
next
  assume h: "unat a = unat b + unat c"
  then have "b \<le> a" by (simp add: word_le_nat_alt)
  moreover from this h have "a - b = c"
    by (simp add: word_unat_eq_iff unat_sub_exact)
  ultimately show "usub a b = Inr c"
    by (simp add: usub_def)
qed

lemma umul_Inr [checked]:
  "umul a (b :: 'n::len word) = Inr c \<longleftrightarrow> unat c = unat a * unat b"
proof
  assume "umul a b = Inr c"
  then show "unat c = unat a * unat b"
    by (auto simp: umul_def unat_mult_exact split: if_splits)
next
  assume h: "unat c = unat a * unat b"
  then have lt: "unat a * unat b < 2 ^ LENGTH('n)"
    by (metis unsigned_less)
  with h have "a * b = c"
    by (simp add: unat_mult_exact word_unat_eq_iff)
  with lt show "umul a b = Inr c"
    by (simp add: umul_def)
qed

lemma udiv_Inr [checked]: "udiv a b = Inr c \<longleftrightarrow> b \<noteq> 0 \<and> unat c = unat a div unat b"
  by (auto simp: udiv_def unat_div word_unat_eq_iff)

lemma umod_Inr [checked]: "umod a b = Inr c \<longleftrightarrow> b \<noteq> 0 \<and> unat c = unat a mod unat b"
  by (auto simp: umod_def unat_mod word_unat_eq_iff)

lemma checked_sub_Inr [checked]:
  "checked_sub e a b = Inr c \<longleftrightarrow> unat a = unat b + unat c"
  using usub_Inr [of a b c] by (auto simp: checked_sub_def usub_def split: if_splits)

lemma checked_add_Inr [checked]:
  "checked_add e a b = Inr c \<longleftrightarrow> unat c = unat a + unat b"
  using uadd_Inr [of a b c] by (auto simp: checked_add_def uadd_def split: if_splits)

text \<open>When the exact result fits, the checked operation succeeds.\<close>

lemma uadd_fits:
  "unat a + unat (b :: 'n::len word) < 2 ^ LENGTH('n) \<Longrightarrow> uadd a b = Inr (a + b)"
  by (simp add: uadd_def)

lemma usub_fits: "b \<le> a \<Longrightarrow> usub a b = Inr (a - b)"
  by (simp add: usub_def)

lemma checked_sub_fits: "b \<le> a \<Longrightarrow> checked_sub e a b = Inr (a - b)"
  by (simp add: checked_sub_def)

lemma checked_add_fits:
  "unat a + unat (b :: 'n::len word) < 2 ^ LENGTH('n) \<Longrightarrow> checked_add e a b = Inr (a + b)"
  by (simp add: checked_add_def)

section \<open>Sums of amounts\<close>

text \<open>\<open>iter().sum()\<close> of unsigned integers: a fold with the panicking \<open>+\<close>.\<close>

definition usum :: "'n::len word list \<Rightarrow> ('e, 'n word) outcome" where
  "usum as = for_each (\<lambda>a acc. uadd acc a) as 0"

abbreviation total_of :: "'n::len word list \<Rightarrow> nat" where
  "total_of as \<equiv> sum_list (map unat as)"

lemma for_each_uadd:
  "for_each (\<lambda>a acc. uadd acc a) (as :: 'n::len word list) s = Inr t
     \<longleftrightarrow> unat t = unat s + total_of as"
proof (induction as arbitrary: s)
  case Nil
  then show ?case by (auto simp: word_unat_eq_iff)
next
  case (Cons a as)
  have "(\<exists>u :: 'n word. unat u = unat s + unat a \<and> unat t = unat u + total_of as) \<longleftrightarrow>
      unat t = unat s + total_of (a # as)"
  proof
    assume h: "unat t = unat s + total_of (a # as)"
    then have "unat s + unat a < 2 ^ LENGTH('n)"
      by (metis add.assoc le_add1 le_less_trans list.simps(9) sum_list.Cons unsigned_less)
    then have "unat (s + a) = unat s + unat a"
      by (rule unat_add_exact)
    with h have "unat (s + a) = unat s + unat a \<and> unat t = unat (s + a) + total_of as"
      by simp
    then show "\<exists>u :: 'n word. unat u = unat s + unat a \<and> unat t = unat u + total_of as"
      by blast
  qed auto
  then show ?case
    by (simp add: outcome_simps checked Cons.IH)
qed

lemma usum_Inr [checked]: "usum as = Inr s \<longleftrightarrow> unat s = total_of as"
  by (simp add: usum_def for_each_uadd)

lemma usum_fits:
  assumes "total_of (as :: 'n::len word list) < 2 ^ LENGTH('n)"
  shows "usum as = Inr (of_nat (total_of as))"
  using assms by (simp add: usum_Inr unat_of_nat)

lemma for_each_uadd_overflow:
  "2 ^ LENGTH('n) \<le> unat s + total_of as \<Longrightarrow>
   for_each (\<lambda>a acc. uadd acc a) (as :: 'n::len word list) s = Inl (Panic ArithmeticOverflow)"
proof (induction as arbitrary: s)
  case Nil
  then show ?case using unat_less [of s] by simp
next
  case (Cons a as)
  then show ?case
    by (cases "unat s + unat a < 2 ^ LENGTH('n)") (auto simp: uadd_def unat_add_exact)
qed

lemma usum_overflow:
  "2 ^ LENGTH('n) \<le> total_of as \<Longrightarrow>
   usum (as :: 'n::len word list) = Inl (Panic ArithmeticOverflow)"
  by (simp add: usum_def for_each_uadd_overflow)

lemma sum_list_filter_nonzero:
  "sum_list (map f (filter (\<lambda>a. f a \<noteq> (0::nat)) as)) = sum_list (map f as)"
  by (induction as) auto

section \<open>Evaluation on concrete inputs\<close>

lemma replicate_2: "replicate 2 a = [a, a]"
  by (simp add: numeral_2_eq_2)

lemmas eval_simps = uadd_def usub_def umul_def udiv_def umod_def checked_sub_def checked_add_def
  usum_def vec_get_def vec_set_def ensure_def from_err_def or_panic_def Let_def
  numeral_2_eq_2 [symmetric] replicate_2

section \<open>Decimal rendering of integers (\<open>to_string\<close>)\<close>

fun nat_to_string :: "nat \<Rightarrow> string" where
  "nat_to_string n =
     (if n < 10 then [char_of (48 + n)]
      else nat_to_string (n div 10) @ [char_of (48 + n mod 10)])"

declare nat_to_string.simps [simp del]

definition to_string :: "'n::len word \<Rightarrow> string" where
  "to_string w = nat_to_string (unat w)"

text \<open>Reading the digits back recovers the number, so distinct amounts render differently.\<close>

definition nat_of_string :: "string \<Rightarrow> nat" where
  "nat_of_string ds = fold (\<lambda>d n. 10 * n + (of_char d - 48)) ds 0"

lemma nat_of_string_snoc: "nat_of_string (ds @ [d]) = 10 * nat_of_string ds + (of_char d - 48)"
  by (simp add: nat_of_string_def)

lemma digit_roundtrip: "(n :: nat) < 10 \<Longrightarrow> of_char (char_of (48 + n) :: char) = 48 + n"
  by simp

lemma nat_of_string_to_string: "nat_of_string (nat_to_string n) = n"
proof (induction n rule: nat_to_string.induct)
  case (1 n)
  show ?case
  proof (cases "n < 10")
    case True
    then show ?thesis
      by (subst nat_to_string.simps) (simp add: nat_of_string_def digit_roundtrip)
  next
    case False
    have "of_char (char_of (48 + n mod 10) :: char) = 48 + n mod 10"
      by (rule digit_roundtrip) simp
    with False 1 show ?thesis
      by (subst nat_to_string.simps) (simp add: nat_of_string_snoc)
  qed
qed

lemma nat_of_string_word [simp]: "nat_of_string (to_string w) = unat w"
  by (simp add: to_string_def nat_of_string_to_string)

lemma to_string_inject [simp]: "to_string v = to_string w \<longleftrightarrow> v = w"
  by (metis nat_of_string_word word_unat_eq_iff)

section \<open>Reachable states of a transition system\<close>

inductive reachable :: "('s \<Rightarrow> bool) \<Rightarrow> ('s \<Rightarrow> 's \<Rightarrow> bool) \<Rightarrow> 's \<Rightarrow> bool"
  for initial :: "'s \<Rightarrow> bool" and step :: "'s \<Rightarrow> 's \<Rightarrow> bool" where
  reachable_init: "initial s \<Longrightarrow> reachable initial step s"
| reachable_step: "reachable initial step s \<Longrightarrow> step s t \<Longrightarrow> reachable initial step t"

text \<open>
  The interface of an inductive invariant. A component that shows that its initial states
  satisfy \<open>inv\<close> and that its steps keep it obtains the invariant on every reachable state.
\<close>

locale invariant_of =
  fixes initial :: "'s \<Rightarrow> bool" and step :: "'s \<Rightarrow> 's \<Rightarrow> bool" and inv :: "'s \<Rightarrow> bool"
  assumes inv_initial: "initial s \<Longrightarrow> inv s"
    and inv_step: "inv s \<Longrightarrow> step s t \<Longrightarrow> inv t"
begin

lemma inv_reachable: "reachable initial step s \<Longrightarrow> inv s"
  by (induction rule: reachable.induct) (auto intro: inv_initial inv_step)

end

end
