(* ===== verification/Storage.thy ===== *)
theory Storage
  imports Prelude
begin

text \<open>
  Contract storage. An \<open>Item<T>\<close> is an optional value (absent until the first \<open>save\<close>); a
  \<open>Map<K, V>\<close> is an association list kept in ascending key order, which is the order in
  which \<open>range(.., Order::Ascending)\<close> walks it. The locale \<open>kv_store\<close> is the contract the
  contracts of the program rely on; the association list is its provider.
\<close>

section \<open>Items\<close>

text \<open>The errors of the standard library that the program can see; the text is not modelled
  beyond the name of the missing item.\<close>

datatype std_error = NotFound string | OtherStdError string

definition load_item :: "string \<Rightarrow> 'a option \<Rightarrow> std_error + 'a" where
  "load_item name it = (case it of None \<Rightarrow> Inl (NotFound name) | Some a \<Rightarrow> Inr a)"

lemma load_item_Inr [simp]: "load_item name it = Inr a \<longleftrightarrow> it = Some a"
  by (cases it) (auto simp: load_item_def)

lemma load_item_simps [simp]:
  "load_item name (Some a) = Inr a"
  "load_item name None = Inl (NotFound name)"
  by (simp_all add: load_item_def)

section \<open>The interface of a key-value map\<close>

locale kv_store =
  fixes lookup :: "'m \<Rightarrow> 'k::linorder \<Rightarrow> 'v option"
    and save :: "'k \<Rightarrow> 'v \<Rightarrow> 'm \<Rightarrow> 'm"
    and remove :: "'k \<Rightarrow> 'm \<Rightarrow> 'm"
    and entries :: "'m \<Rightarrow> ('k \<times> 'v) list"
    and wf :: "'m \<Rightarrow> bool"
  assumes lookup_save: "lookup (save k v m) = (lookup m)(k \<mapsto> v)"
    and lookup_remove: "lookup (remove k m) = (lookup m)(k := None)"
    and wf_save: "wf m \<Longrightarrow> wf (save k v m)"
    and wf_remove: "wf m \<Longrightarrow> wf (remove k m)"
    and entries_lookup: "wf m \<Longrightarrow> (k, v) \<in> set (entries m) \<longleftrightarrow> lookup m k = Some v"
    and entries_sorted: "wf m \<Longrightarrow> sorted_wrt (<) (map fst (entries m))"
begin

text \<open>The sum of a weight over all entries, the quantity the solvency arguments track.\<close>

definition weight :: "('k \<Rightarrow> 'v \<Rightarrow> nat) \<Rightarrow> 'm \<Rightarrow> nat" where
  "weight f m = (\<Sum>(k, v) \<leftarrow> entries m. f k v)"

definition at :: "('k \<Rightarrow> 'v \<Rightarrow> nat) \<Rightarrow> 'm \<Rightarrow> 'k \<Rightarrow> nat" where
  "at f m k = (case lookup m k of None \<Rightarrow> 0 | Some v \<Rightarrow> f k v)"

lemma dom_entries: "wf m \<Longrightarrow> dom (lookup m) = fst ` set (entries m)"
  by (force simp: entries_lookup [symmetric] dom_def)

lemma distinct_entries: "wf m \<Longrightarrow> distinct (map fst (entries m))"
  using entries_sorted strict_sorted_imp_sorted strict_sorted_iff by blast

lemma finite_dom: "wf m \<Longrightarrow> finite (dom (lookup m))"
  by (simp add: dom_entries)

lemma weight_at: "wf m \<Longrightarrow> weight f m = (\<Sum>k \<in> dom (lookup m). at f m k)"
proof -
  assume wf: "wf m"
  have "weight f m = (\<Sum>kv \<leftarrow> entries m. at f m (fst kv))"
    unfolding weight_def
  proof (rule arg_cong [where f = sum_list], rule map_cong [OF refl])
    fix kv assume "kv \<in> set (entries m)"
    with wf have "lookup m (fst kv) = Some (snd kv)"
      by (simp add: entries_lookup [symmetric])
    then show "(case kv of (k, v) \<Rightarrow> f k v) = at f m (fst kv)"
      by (simp add: at_def split: prod.splits)
  qed
  also have "\<dots> = (\<Sum>k \<leftarrow> map fst (entries m). at f m k)"
    by (simp add: comp_def)
  also have "\<dots> = (\<Sum>k \<in> set (map fst (entries m)). at f m k)"
    by (rule sum_list_distinct_conv_sum_set [OF distinct_entries [OF wf]])
  finally show ?thesis by (simp add: dom_entries [OF wf])
qed

lemma weight_split: "wf m \<Longrightarrow> weight f m = at f m k + (\<Sum>j \<in> dom (lookup m) - {k}. at f m j)"
proof -
  assume wf: "wf m"
  show ?thesis
  proof (cases "k \<in> dom (lookup m)")
    case True
    then show ?thesis
      using sum.remove [OF finite_dom [OF wf] True, of "at f m"] by (simp add: weight_at [OF wf])
  next
    case False
    then show ?thesis
      by (simp add: weight_at [OF wf] at_def [of f m k] domIff)
  qed
qed

lemma at_le_weight: "wf m \<Longrightarrow> at f m k \<le> weight f m"
  by (simp add: weight_split [of m f k])

theorem weight_save: "wf m \<Longrightarrow> weight f (save k v m) + at f m k = weight f m + f k v"
proof -
  assume wf: "wf m"
  have others: "(\<Sum>j \<in> dom (lookup (save k v m)) - {k}. at f (save k v m) j)
      = (\<Sum>j \<in> dom (lookup m) - {k}. at f m j)"
    by (rule sum.cong) (auto simp: lookup_save at_def)
  show ?thesis
    using weight_split [OF wf_save [OF wf], of f k v k] weight_split [OF wf, of f k] others
    by (simp add: at_def [of f "save k v m" k] lookup_save)
qed

theorem weight_remove: "wf m \<Longrightarrow> weight f (remove k m) + at f m k = weight f m"
proof -
  assume wf: "wf m"
  have others: "(\<Sum>j \<in> dom (lookup (remove k m)) - {k}. at f (remove k m) j)
      = (\<Sum>j \<in> dom (lookup m) - {k}. at f m j)"
    by (rule sum.cong) (auto simp: lookup_remove at_def)
  show ?thesis
    using weight_split [OF wf_remove [OF wf], of f k k] weight_split [OF wf, of f k] others
    by (simp add: at_def [of f "remove k m" k] lookup_remove)
qed

lemma weight_cong:
  "(\<And>k v. (k, v) \<in> set (entries m) \<Longrightarrow> f k v = g k v) \<Longrightarrow> weight f m = weight g m"
  unfolding weight_def by (rule arg_cong [where f = sum_list], rule map_cong) auto

lemma weight_mono:
  "(\<And>k v. (k, v) \<in> set (entries m) \<Longrightarrow> f k v \<le> g k v) \<Longrightarrow> weight f m \<le> weight g m"
  unfolding weight_def by (rule sum_list_mono) auto

end

section \<open>Maps as sorted association lists\<close>

type_synonym ('k, 'v) smap = "('k \<times> 'v) list"

definition may_load :: "('k, 'v) smap \<Rightarrow> 'k \<Rightarrow> 'v option" where
  "may_load m k = map_of m k"

fun save :: "'k::linorder \<Rightarrow> 'v \<Rightarrow> ('k, 'v) smap \<Rightarrow> ('k, 'v) smap" where
  "save k v [] = [(k, v)]"
| "save k v ((k', v') # m) =
     (if k < k' then (k, v) # (k', v') # m
      else if k = k' then (k, v) # m
      else (k', v') # save k v m)"

definition remove :: "'k \<Rightarrow> ('k, 'v) smap \<Rightarrow> ('k, 'v) smap" where
  "remove k m = filter (\<lambda>(k', _). k' \<noteq> k) m"

text \<open>\<open>range(storage, min, None, Order::Ascending)\<close> with an optional inclusive lower bound.\<close>

definition range_from :: "'k::linorder option \<Rightarrow> ('k, 'v) smap \<Rightarrow> ('k \<times> 'v) list" where
  "range_from lo m = (case lo of None \<Rightarrow> m | Some k0 \<Rightarrow> filter (\<lambda>(k, _). k0 \<le> k) m)"

definition sorted_keys :: "('k::linorder, 'v) smap \<Rightarrow> bool" where
  "sorted_keys m \<longleftrightarrow> sorted_wrt (<) (map fst m)"

lemma may_load_save [simp]: "may_load (save k v m) = (may_load m)(k \<mapsto> v)"
  unfolding may_load_def by (induction m) (auto simp: fun_eq_iff)

lemma may_load_remove [simp]: "may_load (remove k m) = (may_load m)(k := None)"
  unfolding may_load_def remove_def by (induction m) (auto simp: fun_eq_iff)

lemma may_load_Nil [simp]: "may_load [] k = None"
  by (simp add: may_load_def)

lemma set_keys_save: "fst ` set (save k v m) = insert k (fst ` set m)"
  by (induction k v m rule: save.induct) (simp_all add: insert_commute)

lemma sorted_keys_Nil [simp]: "sorted_keys []"
  by (simp add: sorted_keys_def)

lemma sorted_keys_save: "sorted_keys m \<Longrightarrow> sorted_keys (save k v m)"
proof (induction m)
  case Nil
  then show ?case by (simp add: sorted_keys_def)
next
  case (Cons kv m)
  obtain k' v' where kv: "kv = (k', v')" by force
  show ?case
  proof (cases "k < k' \<or> k = k'")
    case True
    with Cons.prems kv show ?thesis by (fastforce simp: sorted_keys_def)
  next
    case False
    then have "k' < k" by auto
    moreover have "sorted_keys (save k v m)"
      using Cons kv by (simp add: sorted_keys_def)
    moreover have "\<forall>j \<in> fst ` set (save k v m). k' < j"
      using \<open>k' < k\<close> Cons.prems kv by (auto simp: set_keys_save sorted_keys_def)
    ultimately show ?thesis using kv False by (auto simp: sorted_keys_def)
  qed
qed

lemma sorted_keys_filter: "sorted_keys m \<Longrightarrow> sorted_keys (filter P m)"
  unfolding sorted_keys_def by (induction m) auto

lemma sorted_keys_remove: "sorted_keys m \<Longrightarrow> sorted_keys (remove k m)"
  unfolding remove_def by (rule sorted_keys_filter)

lemma sorted_keys_distinct: "sorted_keys m \<Longrightarrow> distinct (map fst m)"
  unfolding sorted_keys_def using strict_sorted_iff by blast

lemma sorted_keys_mem: "sorted_keys m \<Longrightarrow> (k, v) \<in> set m \<longleftrightarrow> may_load m k = Some v"
  unfolding may_load_def by (metis map_of_SomeD map_of_is_SomeI sorted_keys_distinct)

interpretation smap: kv_store may_load save remove id sorted_keys
  by unfold_locales
    (auto simp: sorted_keys_save sorted_keys_remove sorted_keys_mem, simp add: sorted_keys_def)

text \<open>\<open>prefix(a).range(.., min, ..)\<close> of a map with composite keys: the entries whose first
  component is \<open>a\<close>, in ascending order of the second.\<close>

definition prefix_range ::
    "'a \<Rightarrow> 'b::linorder option \<Rightarrow> ('a \<times> 'b, 'v) smap \<Rightarrow> ('b \<times> 'v) list" where
  "prefix_range a lo m =
     range_from lo (map (\<lambda>((_, b), v). (b, v)) (filter (\<lambda>((a', _), _). a' = a) m))"

lemma prefix_range_mem:
  "sorted_keys m \<Longrightarrow> (b, v) \<in> set (prefix_range a None m) \<longleftrightarrow> may_load m (a, b) = Some v"
  by (force simp: prefix_range_def range_from_def sorted_keys_mem [symmetric])

lemma sorted_prefix_range:
  assumes "sorted_keys m"
  shows "sorted_wrt (<) (map fst (prefix_range (a :: 'a::linorder) None m))"
  using assms unfolding sorted_keys_def
  by (induction m) (auto simp: prefix_range_def range_from_def less_prod_def split: if_splits)

lemma distinct_prefix_range:
  "sorted_keys m \<Longrightarrow> distinct (map fst (prefix_range (a :: 'a::linorder) None m))"
  using sorted_prefix_range strict_sorted_iff by blast

end
