(* ===== verification/Common_Types.thy ===== *)
theory Common_Types
  imports Storage
begin

text \<open>
  The crate \<open>lst_common\<close>: errors (\<open>errors.rs\<close>), the data and messages of the staking hub
  (\<open>hub.rs\<close>), of the validators registry (\<open>validator.rs\<close>) and of the reward dispatcher
  (\<open>rewards_msg.rs\<close>), the wrapped Babylon messages (\<open>babylon_msg.rs\<close>), address helpers
  (\<open>lib.rs\<close>, \<open>address.rs\<close>), and the record \<open>deps\<close> of everything the contracts call outside
  this repository.
\<close>

section \<open>Errors (errors.rs)\<close>

datatype validator_error =
    LastValidatorRemovalNotAllowed
  | EmptyValidatorSet
  | DistributionFailed
  | ExceedUndelegation
  | RedelegationCooldownNotMet
  | ValidatorNotFound
  | InvalidKey
  | PendingRedelegationNotFound

datatype hub_error =
    InvalidHookMsg
  | Paused
  | InvalidAmount
  | RewardDispatcherNotSet
  | ValidatorRegistryNotSet
  | LstTokenNotSet
  | OnlyOneCoinAllowed
  | UnstakeHistoryNotFound
  | NoWithdrawableAssets
  | InvalidEpochLength
  | InvalidUnstakingPeriod
  | InvalidPeriods
  | HubInsufficientFunds
  | InsufficientAllowance
  | LstTokenAlreadySet

text \<open>The text of \<open>ContractError::Overflow\<close> is the rendering of the library's overflow error;
  the model keeps the operation that overflowed.\<close>

datatype overflow_operation = OverflowAdd | OverflowSub

datatype contract_error =
    Std std_error
  | Unauthorized
  | FailedToInitContract
  | InvalidAddress
  | InsufficientFunds
  | InvalidRewardRate
  | Overflow overflow_operation
  | HubPaused
  | Validator validator_error
  | Hub hub_error
  | InvalidFeeRate
  | MigrationNotAllowed string string
  | InvalidContractType

type_synonym 'a lst_result = "(contract_error, 'a) outcome"

definition hub_err :: "hub_error \<Rightarrow> 'a lst_result" where
  "hub_err e = Inl (Err (Hub e))"

definition validator_err :: "validator_error \<Rightarrow> 'a lst_result" where
  "validator_err e = Inl (Err (Validator e))"

definition unauthorized :: "'a lst_result" where
  "unauthorized = Inl (Err Unauthorized)"

lemma raised_not_Inr [simp]:
  "hub_err e \<noteq> Inr a" "validator_err e' \<noteq> Inr a" "unauthorized \<noteq> Inr a"
  by (simp_all add: hub_err_def validator_err_def unauthorized_def)

lemma if_raised_InrE [outcome_elims]:
  assumes "(if b then hub_err e else k) = Inr c" obtains "\<not> b" and "k = Inr c"
  using assms by (auto split: if_splits)

lemma if_validator_err_InrE [outcome_elims]:
  assumes "(if b then validator_err e else k) = Inr c" obtains "\<not> b" and "k = Inr c"
  using assms by (auto split: if_splits)

lemma if_unauthorized_InrE [outcome_elims]:
  assumes "(if b then unauthorized else k) = Inr c" obtains "\<not> b" and "k = Inr c"
  using assms by (auto split: if_splits)

text \<open>\<open>ITEM.load(storage)?\<close> and \<open>checked_sub(..).map_err(|e| Overflow(e.to_string()))?\<close>.\<close>

definition load :: "string \<Rightarrow> 'a option \<Rightarrow> 'a lst_result" where
  "load name it = from_err Std (load_item name it)"

definition checked_sub_or_overflow :: "uint128 \<Rightarrow> uint128 \<Rightarrow> uint128 lst_result" where
  "checked_sub_or_overflow a b = checked_sub (Overflow OverflowSub) a b"

lemma load_Inr [outcome_simps]: "load name it = Inr a \<longleftrightarrow> it = Some a"
  by (simp add: load_def outcome_simps)

lemma load_Some [simp]: "load name (Some a) = Inr a"
  by (simp add: load_def from_err_def)

lemma checked_sub_or_overflow_Inr [checked]:
  "checked_sub_or_overflow a b = Inr c \<longleftrightarrow> unat a = unat b + unat c"
  by (simp add: checked_sub_or_overflow_def checked)

section \<open>Amounts, coins and decimals\<close>

type_synonym addr = string

record coin =
  coin_denom :: string
  coin_amount :: uint128

text \<open>\<open>Decimal\<close> is a \<open>Uint128\<close> counting \<open>10^-18\<close>, \<open>Decimal256\<close> a \<open>Uint256\<close> doing the same.\<close>

datatype decimal = Decimal (atomics: uint128)

datatype decimal256 = Decimal256 (atomics256: uint256)

instantiation decimal :: linorder
begin

definition less_eq_decimal :: "decimal \<Rightarrow> decimal \<Rightarrow> bool" where
  "less_eq_decimal a b \<longleftrightarrow> atomics a \<le> atomics b"

definition less_decimal :: "decimal \<Rightarrow> decimal \<Rightarrow> bool" where
  "less_decimal a b \<longleftrightarrow> atomics a < atomics b"

instance
  by intro_classes (auto simp: less_eq_decimal_def less_decimal_def decimal.expand)

end

definition decimal_zero :: decimal where
  "decimal_zero = Decimal 0"

definition decimal_one :: decimal where
  "decimal_one = Decimal 1000000000000000000"

section \<open>The hub's data (hub.rs)\<close>

record hub_instantiate_msg =
  im_epoch_length :: u64
  im_staking_coin_denom :: string
  im_unstaking_period :: u64
  im_staking_epoch_start_block_height :: u64
  im_staking_epoch_length_blocks :: u64

record hub_config =
  hc_owner :: addr
  reward_dispatcher_contract :: "addr option"
  validators_registry_contract :: "addr option"
  lst_token :: "addr option"

record hub_config_response =
  cr_owner :: string
  cr_reward_dispatcher_contract :: "string option"
  cr_validators_registry_contract :: "string option"
  cr_lst_token :: "string option"

record current_batch =
  cb_id :: u64
  requested_lst_token_amount :: uint128

record hub_state =
  lst_exchange_rate :: decimal
  total_staked_amount :: uint128
  last_index_modification :: u64
  unclaimed_unstaked_balance :: uint128
  last_unbonded_time :: u64
  last_processed_batch :: u64

record parameters =
  epoch_length :: u64
  staking_coin_denom :: string
  unstaking_period :: u64
  paused :: bool

text \<open>The value of \<open>paused\<close> when the stored JSON lacks the field.\<close>

definition default_hub_status :: bool where
  "default_hub_status = True"

record unstake_history =
  uh_batch_id :: u64
  uh_time :: u64
  lst_token_amount :: uint128
  lst_applied_exchange_rate :: decimal
  lst_withdraw_rate :: decimal
  released :: bool

record pending_delegation =
  staking_epoch_length_blocks :: u64
  staking_epoch_start_block_height :: u64
  pending_staking_amount :: uint128
  pending_unstaking_amount :: uint128

record user_unstake_request =
  ur_batch_id :: u64
  ur_lst_amount :: uint128
  ur_withdraw_exchange_rate :: decimal
  ur_applied_exchange_rate :: decimal
  ur_time :: u64
  ur_released :: bool

record unstake_requests_response =
  urr_address :: string
  urr_requests :: "user_unstake_request list"

section \<open>Messages\<close>

datatype cw20_receive_msg = Cw20ReceiveMsg (receive_sender: string) (receive_amount: uint128)
  (receive_msg: string)

datatype cw20_hook_msg = HookUnstake

datatype hub_execute_msg =
    Receive cw20_receive_msg
  | Stake
  | Unstake uint128
  | WithdrawUnstaked
  | WithdrawUnstakedForBatches "u64 list"
  | UpdateConfig "string option" "string option" "string option" "string option"
  | UpdateParams "bool option" "u64 option" "u64 option"
  | CheckSlashing
  | RedelegateProxy string "(string \<times> coin) list"
  | StakeRewards
  | UpdateGlobalIndex
  | ProcessUndelegations
  | ProcessWithdrawRequests

datatype hub_query_msg =
    QConfig
  | QState
  | QCurrentBatch
  | QParameters
  | QExchangeRate
  | QWithdrawableUnstaked string
  | QUnstakeRequests string
  | QUnstakeRequestsLimit string "u64 option" "u32 option"
  | QAllHistory "u64 option" "u32 option"
  | QPendingDelegation

text \<open>validator.rs\<close>

datatype validator = ValidatorEntry (validator_address: string)

record validator_response =
  total_delegated :: uint128
  vr_address :: string

record validator_instantiate_msg =
  vim_validators :: "validator list"
  vim_hub_contract :: string

record registry_config =
  vc_owner :: addr
  vc_hub_contract :: addr

datatype validator_execute_msg =
    AddValidator validator
  | RemoveValidator string
  | RegistryUpdateConfig "string option" "string option"
  | ProcessRedelegations

datatype validator_query_msg = ValidatorsDelegation | RegistryConfig | ExcludeList

record pending_redelegation =
  pr_src_validator :: string
  pr_redelegations :: "(string \<times> coin) list"
  pr_timestamp :: u64

text \<open>rewards\_msg.rs\<close>

record rewards_instantiate_msg =
  rim_hub_contract :: string
  rim_reward_denom :: string
  rim_fee_addr :: string
  rim_fee_rate :: decimal

record rewards_config =
  rc_owner :: addr
  rc_hub_contract :: addr
  rc_reward_denom :: string
  rc_fee_addr :: addr
  rc_fee_rate :: decimal

datatype rewards_execute_msg =
    RewardsUpdateConfig "string option" "string option" "string option" "decimal option"
  | DispatchRewards

datatype rewards_query_msg = RewardsConfig

text \<open>
  The messages of the cw20 token, with the fields the token contract destructures.
  \<open>expires\<close>, marketing data and logos are opaque text.
\<close>

datatype cw20_execute_msg =
    Transfer string uint128
  | Burn uint128
  | Send string uint128 string
  | IncreaseAllowance string uint128 "string option"
  | DecreaseAllowance string uint128 "string option"
  | TransferFrom string string uint128
  | SendFrom string string uint128 string
  | BurnFrom string uint128
  | Mint string uint128
  | UpdateMinter "string option"
  | UpdateMarketing "string option" "string option" "string option"
  | UploadLogo string

section \<open>Wrapped Babylon messages (babylon\_msg.rs)\<close>

datatype proto_coin = ProtoCoin (proto_denom: string) (proto_amount: string)

datatype msg_delegate = MsgDelegate (delegator_address: string) (validator_to: string)
  (delegate_amount: "proto_coin option")

datatype msg_undelegate = MsgUndelegate (undelegator_address: string) (validator_from: string)
  (undelegate_amount: "proto_coin option")

datatype msg_begin_redelegate = MsgBeginRedelegate (redelegator_address: string)
  (validator_src_address: string) (validator_dst_address: string)
  (redelegate_amount: "proto_coin option")

datatype cosmos_any =
    MsgWrappedDelegate "msg_delegate option"
  | MsgWrappedBeginRedelegate "msg_begin_redelegate option"
  | MsgWrappedUndelegate "msg_undelegate option"

fun type_url :: "cosmos_any \<Rightarrow> string" where
  "type_url (MsgWrappedDelegate _) = ''/babylon.epoching.v1.MsgWrappedDelegate''"
| "type_url (MsgWrappedBeginRedelegate _) = ''/babylon.epoching.v1.MsgWrappedBeginRedelegate''"
| "type_url (MsgWrappedUndelegate _) = ''/babylon.epoching.v1.MsgWrappedUndelegate''"

text \<open>Messages a contract returns. A payload (JSON or protobuf) is kept as the value that the
  code serialises.\<close>

datatype wasm_payload =
    HubPayload hub_execute_msg
  | Cw20Payload cw20_execute_msg
  | RewardsPayload rewards_execute_msg

datatype cosmos_msg =
    AnyMsg string cosmos_any
  | WasmExecute addr wasm_payload "coin list"
  | BankSend addr "coin list"
  | WithdrawDelegatorReward string
  | SetWithdrawAddress addr

definition to_any :: "cosmos_any \<Rightarrow> cosmos_msg" where
  "to_any m = AnyMsg (type_url m) m"

type_synonym attribute = "string \<times> string"

record event =
  ev_type :: string
  ev_attributes :: "attribute list"

record response =
  messages :: "cosmos_msg list"
  events :: "event list"
  attributes :: "attribute list"

definition response_new :: response where
  "response_new = \<lparr>messages = [], events = [], attributes = []\<rparr>"

definition bool_to_string :: "bool \<Rightarrow> string" where
  "bool_to_string b = (if b then ''true'' else ''false'')"

section \<open>The call's environment and the outside world\<close>

record env =
  block_height :: u64
  block_time :: u64    \<comment> \<open>\<open>env.block.time.seconds()\<close>\<close>
  contract_address :: addr

record message_info =
  info_sender :: addr
  info_funds :: "coin list"

record delegation =
  del_validator :: string
  del_amount :: coin

text \<open>
  Everything the contracts call that is not code of this repository: address validation,
  the arithmetic and rendering of decimals, JSON parsing of the cw20 hook, bech32, the
  version records of cw2, and the queries a contract can make. It is an argument of every
  definition that uses it. A query that can fail reports a standard error.
\<close>

record deps =
  addr_validate :: "string \<Rightarrow> std_error + addr"
  decimal_from_ratio :: "uint128 \<Rightarrow> uint128 \<Rightarrow> panic + decimal"
  decimal_mul :: "decimal \<Rightarrow> decimal \<Rightarrow> panic + decimal"
  decimal_to_uint_ceil :: "decimal \<Rightarrow> panic + uint128"
  decimal_to_string :: "decimal \<Rightarrow> string"
  coin_to_string :: "coin \<Rightarrow> string"
  parse_cw20_hook :: "string \<Rightarrow> std_error + cw20_hook_msg"
  bech32_decode :: "string \<Rightarrow> (string \<times> string) option"
  hrp_parse :: "string \<Rightarrow> string option"
  bech32_encode :: "string \<Rightarrow> string \<Rightarrow> string option"
  set_contract_version :: "string \<Rightarrow> string \<Rightarrow> (string \<times> string) option
    \<Rightarrow> std_error + (string \<times> string) option"
  ensure_from_older_version :: "string \<Rightarrow> string \<Rightarrow> (string \<times> string) option
    \<Rightarrow> std_error + (string \<times> string) option"
  query_balance :: "addr \<Rightarrow> string \<Rightarrow> std_error + coin"
  query_all_delegations :: "addr \<Rightarrow> std_error + delegation list"
  query_validator :: "string \<Rightarrow> std_error + string option"
  query_token_supply :: "addr \<Rightarrow> std_error + uint128"
  query_cw20_balance :: "addr \<Rightarrow> string \<Rightarrow> std_error + uint128"
  query_cw20_allowance :: "addr \<Rightarrow> string \<Rightarrow> string \<Rightarrow> std_error + uint128"
  query_validators_delegation :: "addr \<Rightarrow> std_error + validator_response list"
  query_hub_parameters :: "addr \<Rightarrow> std_error + parameters"

text \<open>\<open>querier.query..(..)?\<close>\<close>

definition query_std :: "std_error + 'a \<Rightarrow> 'a lst_result" where
  "query_std q = from_err Std q"

lemma query_std_Inr [outcome_simps]: "query_std q = Inr a \<longleftrightarrow> q = Inr a"
  by (simp add: query_std_def outcome_simps)

section \<open>Helpers (lib.rs, address.rs, hub.rs)\<close>

definition to_checked_address :: "deps \<Rightarrow> string \<Rightarrow> addr lst_result" where
  "to_checked_address d a = from_err (\<lambda>_. InvalidAddress) (addr_validate d a)"

text \<open>\<open>opt.expect(..)\<close>\<close>

definition expect :: "'a option \<Rightarrow> ('e, 'a) outcome" where
  "expect opt = (case opt of None \<Rightarrow> Inl (Panic UnwrapFailed) | Some a \<Rightarrow> Inr a)"

lemma expect_Inr [outcome_simps]: "expect opt = Inr a \<longleftrightarrow> opt = Some a"
  by (cases opt) (auto simp: expect_def)

definition VALIDATOR_ADDR_PREFIX :: string where
  "VALIDATOR_ADDR_PREFIX = ''bbnvaloper''"

definition convert_addr_by_prefix :: "deps \<Rightarrow> string \<Rightarrow> string \<Rightarrow> ('e, string) outcome" where
  "convert_addr_by_prefix d a prefix =
     and_then (expect (bech32_decode d a)) (\<lambda>(_, payload).
     and_then (expect (hrp_parse d prefix)) (\<lambda>hrp.
     expect (bech32_encode d hrp payload)))"

definition is_paused :: "deps \<Rightarrow> addr \<Rightarrow> bool lst_result" where
  "is_paused d hub_addr =
     and_then (query_std (query_hub_parameters d hub_addr)) (\<lambda>params. Inr (paused params))"

section \<open>What the contracts rely on outside this repository\<close>

text \<open>
  \<open>Decimal::from_ratio(n, d)\<close> is the ratio rounded down to 18 decimals and panics on a zero
  denominator and when the result does not fit; \<open>a * b\<close> on decimals is the product rounded
  down, \<open>to_uint_ceil\<close> the least integer not below the decimal. The laws are documented
  behaviour of the library and are hypotheses of the properties that need them.
\<close>

definition decimal_ratio_law :: "deps \<Rightarrow> bool" where
  "decimal_ratio_law d \<longleftrightarrow> (\<forall>n m. decimal_from_ratio d n m =
     (if m = 0 then Inl DivisionByZero
      else if unat n * 10 ^ 18 div unat m < 2 ^ 128
        then Inr (Decimal (of_nat (unat n * 10 ^ 18 div unat m)))
        else Inl ArithmeticOverflow))"

definition decimal_mul_law :: "deps \<Rightarrow> bool" where
  "decimal_mul_law d \<longleftrightarrow> (\<forall>a b. decimal_mul d a b =
     (if unat (atomics a) * unat (atomics b) div 10 ^ 18 < 2 ^ 128
        then Inr (Decimal (of_nat (unat (atomics a) * unat (atomics b) div 10 ^ 18)))
        else Inl ArithmeticOverflow))"

definition decimal_ceil_law :: "deps \<Rightarrow> bool" where
  "decimal_ceil_law d \<longleftrightarrow> (\<forall>a. decimal_to_uint_ceil d a =
     Inr (of_nat ((unat (atomics a) + (10 ^ 18 - 1)) div 10 ^ 18)))"

lemma decimal_ratioD:
  assumes "decimal_ratio_law d" "decimal_from_ratio d n m = Inr r"
  shows "m \<noteq> 0" "unat (atomics r) = unat n * 10 ^ 18 div unat m"
  using assms unfolding decimal_ratio_law_def by (auto simp: unat_of_nat split: if_splits)

lemma decimal_mulD:
  assumes "decimal_mul_law d" "decimal_mul d a b = Inr r"
  shows "unat (atomics r) = unat (atomics a) * unat (atomics b) div 10 ^ 18"
  using assms unfolding decimal_mul_law_def by (auto simp: unat_of_nat split: if_splits)

end
