(* ===== verification/Hub_Math.thy ===== *)
theory Hub_Math
  imports Common_Types
begin

text \<open>
  \<open>contracts/lst_staking_hub/src/math.rs\<close> and \<open>packages/lst_common/src/signed_integer.rs\<close>:
  multiplication and division of a token amount by a decimal rate, computed in 256 bits and
  narrowed back to 128 bits, and signed differences.
\<close>

section \<open>The code\<close>

definition DECIMAL_FRACTIONAL :: uint256 where
  "DECIMAL_FRACTIONAL = 1000000000000000000"

text \<open>\<open>Uint256::from(a)\<close> and \<open>a.try_into().unwrap()\<close> back to \<open>Uint128\<close>.\<close>

definition widen :: "uint128 \<Rightarrow> uint256" where
  "widen a = ucast a"

definition narrow :: "uint256 \<Rightarrow> ('e, uint128) outcome" where
  "narrow a = (if unat a < 2 ^ 128 then Inr (ucast a) else Inl (Panic UnwrapFailed))"

definition decimal_division :: "uint128 \<Rightarrow> decimal \<Rightarrow> ('e, uint128) outcome" where
  "decimal_division numerator denominator =
     and_then (umul (widen numerator) DECIMAL_FRACTIONAL) (\<lambda>scaled_numerator.
     and_then (udiv scaled_numerator (widen (atomics denominator))) (\<lambda>q.
     narrow q))"

definition decimal_multiplication :: "uint128 \<Rightarrow> decimal \<Rightarrow> ('e, uint128) outcome" where
  "decimal_multiplication a b =
     (let a_u256 = widen a; b_u256 = widen (atomics b) in
      and_then (umul a_u256 b_u256) (\<lambda>p.
      and_then (udiv p DECIMAL_FRACTIONAL) (\<lambda>q.
      narrow q)))"

definition decimal_multiplication_256 :: "uint256 \<Rightarrow> decimal256 \<Rightarrow> ('e, uint256) outcome" where
  "decimal_multiplication_256 a b =
     (let b_u256 = atomics256 b in
      and_then (umul a b_u256) (\<lambda>p. udiv p DECIMAL_FRACTIONAL))"

text \<open>\<open>SignedInt(magnitude, is_negative)\<close>; the arguments are already converted to \<open>Uint256\<close>.\<close>

datatype signed_int = SignedInt (magnitude: uint128) (negative: bool)

definition from_subtraction :: "uint256 \<Rightarrow> uint256 \<Rightarrow> ('e, signed_int) outcome" where
  "from_subtraction minuend subtrahend =
     (case checked_sub () minuend subtrahend of
        Inr result \<Rightarrow> and_then (narrow result) (\<lambda>m. Inr (SignedInt m False))
      | Inl _ \<Rightarrow>
          and_then (unwrap (checked_sub () subtrahend minuend)) (\<lambda>result.
          and_then (narrow result) (\<lambda>m. Inr (SignedInt m True))))"

section \<open>What they compute\<close>

lemma unat_widen [simp]: "unat (widen a) = unat a"
proof -
  have "unat a < 2 ^ 256"
    using unat_less128 [of a] by simp
  then show ?thesis by (simp add: widen_def unat_ucast_mod)
qed

lemma widen_eq_0 [simp]: "widen a = 0 \<longleftrightarrow> a = 0"
  by (simp flip: unat_eq_zero)

lemma unat_FRACTIONAL [simp]: "unat DECIMAL_FRACTIONAL = 10 ^ 18"
  by (simp add: DECIMAL_FRACTIONAL_def)

lemma FRACTIONAL_nonzero [simp]: "DECIMAL_FRACTIONAL \<noteq> 0"
  by (simp add: DECIMAL_FRACTIONAL_def)

lemma narrow_Inr [checked]: "narrow a = Inr b \<longleftrightarrow> unat b = unat a"
proof
  assume "narrow a = Inr b"
  then show "unat b = unat a"
    by (auto simp: narrow_def unat_ucast_mod split: if_splits)
next
  assume h: "unat b = unat a"
  with unat_less128 [of b] have lt: "unat a < 2 ^ 128" by simp
  with h have "ucast a = b"
    by (simp add: word_unat_eq_iff unat_ucast_mod)
  with lt show "narrow a = Inr b"
    by (simp add: narrow_def)
qed

lemma product_fits: "unat (a :: uint128) * unat (b :: uint128) < 2 ^ 256"
  using mult_strict_mono [OF unat_less128 [of a] unat_less128 [of b]] by simp

lemma scaled_fits: "unat (a :: uint128) * 10 ^ 18 < 2 ^ 256"
  using mult_strict_right_mono [OF unat_less128 [of a], of "10 ^ 18"] by simp

lemma umul_widen [simp]: "umul (widen a) (widen b) = Inr (widen a * widen b)"
  using product_fits [of a b] by (simp add: umul_def)

lemma umul_scale [simp]: "umul (widen a) DECIMAL_FRACTIONAL = Inr (widen a * DECIMAL_FRACTIONAL)"
  using scaled_fits [of a] by (simp add: umul_def)

lemma unat_product: "unat (widen a * widen b) = unat a * unat b"
  using unat_mult_exact [of "widen a" "widen b"] product_fits [of a b] by simp

lemma unat_scaled: "unat (widen a * DECIMAL_FRACTIONAL) = unat a * 10 ^ 18"
  using unat_mult_exact [of "widen a" DECIMAL_FRACTIONAL] scaled_fits [of a] by simp

lemma decimal_multiplication_Inr [checked]:
  "decimal_multiplication a b = Inr c \<longleftrightarrow> unat c = unat a * unat (atomics b) div 10 ^ 18"
  by (simp add: decimal_multiplication_def outcome_simps checked udiv_def unat_div unat_product)

lemma decimal_division_Inr [checked]:
  "decimal_division n d = Inr c
     \<longleftrightarrow> atomics d \<noteq> 0 \<and> unat c = unat n * 10 ^ 18 div unat (atomics d)"
  by (auto simp: decimal_division_def outcome_simps checked udiv_def unat_div unat_scaled
      split: if_splits)

lemma decimal_multiplication_fits:
  "unat a * unat (atomics b) div 10 ^ 18 < 2 ^ 128 \<Longrightarrow>
   \<exists>c. decimal_multiplication a b = Inr c \<and> unat c = unat a * unat (atomics b) div 10 ^ 18"
  by (rule exI [of _ "of_nat (unat a * unat (atomics b) div 10 ^ 18)"])
    (simp add: decimal_multiplication_Inr unat_of_nat)

lemma decimal_multiplication_mono:
  assumes "decimal_multiplication a r = Inr c" and "decimal_multiplication b r = Inr d"
    and "unat a \<le> unat b"
  shows "unat c \<le> unat d"
  using assms by (simp add: checked div_le_mono)

text \<open>Rounding each part down never gives more than rounding the whole down.\<close>

lemma sum_div_le: "(\<Sum>x \<leftarrow> xs. f x div (n::nat)) \<le> (\<Sum>x \<leftarrow> xs. f x) div n"
proof (induction xs)
  case Nil
  then show ?case by simp
next
  case (Cons x xs)
  have "f x div n + (\<Sum>x \<leftarrow> xs. f x) div n \<le> (f x + (\<Sum>x \<leftarrow> xs. f x)) div n"
    using div_add1_eq [of "f x" "\<Sum>x \<leftarrow> xs. f x" n] by linarith
  with Cons show ?case by simp
qed

section \<open>Properties\<close>

text \<open>
  C36: The rate arithmetic is exact integer arithmetic rounded down, with no hidden overflow in
  the intermediate 256-bit product: multiplication by a decimal returns the floor of the exact
  product when that fits in 128 bits and panics otherwise, and division does the same except
  that a zero rate is a division by zero.
\<close>

theorem decimal_arithmetic_exact:
  "decimal_multiplication a b =
     (if unat a * unat (atomics b) div 10 ^ 18 < 2 ^ 128
      then Inr (of_nat (unat a * unat (atomics b) div 10 ^ 18)) else Inl (Panic UnwrapFailed))
   \<and> decimal_division a b =
     (if atomics b = 0 then Inl (Panic DivisionByZero)
      else if unat a * 10 ^ 18 div unat (atomics b) < 2 ^ 128
      then Inr (of_nat (unat a * 10 ^ 18 div unat (atomics b))) else Inl (Panic UnwrapFailed))"
proof -
  have mul: "unat ((widen a * widen (atomics b)) div DECIMAL_FRACTIONAL)
      = unat a * unat (atomics b) div 10 ^ 18"
    by (simp add: unat_div unat_product)
  have dvd: "unat ((widen a * DECIMAL_FRACTIONAL) div widen (atomics b))
      = unat a * 10 ^ 18 div unat (atomics b)"
    by (simp add: unat_div unat_scaled)
  have narrow: "narrow x = (if unat x < 2 ^ 128 then Inr (of_nat (unat x)) else Inl (Panic UnwrapFailed))"
    for x
    by (simp add: narrow_def)
  have "decimal_multiplication a b =
      narrow ((widen a * widen (atomics b)) div DECIMAL_FRACTIONAL)"
    by (simp add: decimal_multiplication_def udiv_def)
  moreover have "decimal_division a b = (if atomics b = 0 then Inl (Panic DivisionByZero)
      else narrow ((widen a * DECIMAL_FRACTIONAL) div widen (atomics b)))"
    by (simp add: decimal_division_def udiv_def)
  ultimately show ?thesis
    unfolding narrow mul dvd by blast
qed

text \<open>
  C37: Staking an amount and unstaking the tokens received for it at the same rate never returns
  more than was staked, and loses less than one token's worth (rounded up) plus one coin.
\<close>

theorem stake_unstake_roundtrip:
  assumes "decimal_division amount rate = Inr minted"
    and "decimal_multiplication minted rate = Inr returned"
  shows "unat returned \<le> unat amount
    \<and> unat amount \<le> unat returned + unat (atomics rate) div 10 ^ 18 + 1"
proof -
  define r where "r = unat (atomics rate)"
  define q where "q = unat amount * 10 ^ 18 div r"
  have r: "0 < r"
    using assms(1) by (simp add: checked r_def unat_gt_0)
  have result: "unat returned = q * r div 10 ^ 18"
    using assms by (simp add: checked q_def r_def)
  have low: "q * r \<le> unat amount * 10 ^ 18"
    unfolding q_def by (rule div_times_less_eq_dividend)
  have high: "unat amount * 10 ^ 18 \<le> q * r + r"
    unfolding q_def using dividend_less_div_times [OF r, of "unat amount * 10 ^ 18"] by simp
  have "q * r div 10 ^ 18 \<le> unat amount"
    using div_le_mono [OF low, of "10 ^ 18"] by simp
  moreover have "unat amount \<le> (q * r + r) div 10 ^ 18"
    using div_le_mono [OF high, of "10 ^ 18"] by simp
  moreover have "(q * r + r) div 10 ^ 18 \<le> q * r div 10 ^ 18 + r div 10 ^ 18 + 1"
  proof -
    have "q * r mod 10 ^ 18 < 10 ^ 18" "r mod 10 ^ 18 < 10 ^ 18"
      by simp_all
    then have "q * r mod 10 ^ 18 + r mod 10 ^ 18 < 2 * 10 ^ 18"
      by linarith
    then have "(q * r mod 10 ^ 18 + r mod 10 ^ 18) div 10 ^ 18 < 2"
      by (rule less_mult_imp_div_less)
    then show ?thesis
      unfolding div_add1_eq [of "q * r" r] by simp
  qed
  ultimately show ?thesis
    by (simp add: result r_def)
qed

lemma stake_unstake_roundtrip_witness:
  "unat (999 :: uint128) \<le> unat (1000 :: uint128)
   \<and> unat (1000 :: uint128) \<le> unat (999 :: uint128) + 1 + 1"
  using stake_unstake_roundtrip [of 1000 "Decimal 1500000000000000000" 666 999]
  by (simp add: checked)

text \<open>
  \<open>SignedInt::from_subtraction\<close> represents the exact difference as a magnitude and a sign
  (zero is not negative), and panics exactly when the magnitude does not fit in 128 bits.
\<close>

theorem from_subtraction_exact:
  "case from_subtraction m s of
     Inr d \<Rightarrow> (if negative d then unat s = unat m + unat (magnitude d) \<and> magnitude d \<noteq> 0
               else unat m = unat s + unat (magnitude d))
   | Inl f \<Rightarrow> f = Panic UnwrapFailed
       \<and> (2 ^ 128 \<le> unat m - unat s \<or> 2 ^ 128 \<le> unat s - unat m)"
proof (cases "s \<le> m")
  case True
  then have "unat (m - s) = unat m - unat s" "unat s \<le> unat m"
    by (simp_all add: unat_sub_exact word_le_nat_alt)
  then show ?thesis
    using True by (auto simp: from_subtraction_def checked_sub_def narrow_def unat_ucast_mod)
next
  case False
  then have lt: "unat m < unat s" and le: "m \<le> s"
    by (simp_all add: word_le_nat_alt)
  then have diff: "unat (s - m) = unat s - unat m"
    by (simp add: unat_sub_exact)
  show ?thesis
  proof (cases "unat s - unat m < 2 ^ 128")
    case True
    then have "unat (ucast (s - m) :: uint128) = unat s - unat m"
      by (simp add: diff unat_ucast_mod)
    moreover from this lt have "(ucast (s - m) :: uint128) \<noteq> 0"
      by (metis diff_is_0_eq not_le unat_0)
    ultimately show ?thesis
      using True False le lt diff
      by (simp add: from_subtraction_def checked_sub_def narrow_def)
  next
    case big: False
    then show ?thesis
      using False le diff by (simp add: from_subtraction_def checked_sub_def narrow_def)
  qed
qed

end
