(* ===== verification/Hub_State.thy ===== *)
theory Hub_State
  imports Hub_Math
begin

text \<open>
  \<open>contracts/lst_staking_hub/src/constants.rs\<close> and \<open>state.rs\<close>: the storage of the staking hub
  and the functions over it, the update of the exchange rate (\<open>hub.rs\<close>), and the record of
  what was staked and unstaked in the running staking epoch of the chain. That record is
  shown to refine a plain ledger of all updates.
\<close>

section \<open>Constants (constants.rs)\<close>

definition CONFIG_KEY :: string where "CONFIG_KEY = ''config''"
definition PARAMETERS_KEY :: string where "PARAMETERS_KEY = ''parameters''"
definition CURRENT_BATCH_KEY :: string where "CURRENT_BATCH_KEY = ''current_batch''"
definition STATE_KEY :: string where "STATE_KEY = ''state''"
definition PENDING_DELEGATION_KEY :: string where "PENDING_DELEGATION_KEY = ''pending_delegation''"

definition MAX_EPOCH_LENGTH :: u64 where "MAX_EPOCH_LENGTH = 7 * 24 * 60 * 60"
definition MAX_UNSTAKING_PERIOD :: u64 where "MAX_UNSTAKING_PERIOD = 4 * 7 * 24 * 60 * 60"
definition AVERAGE_BLOCK_TIME :: u64 where "AVERAGE_BLOCK_TIME = 20"

definition LST_EXCHANGE_RATE_UPDATED :: string where
  "LST_EXCHANGE_RATE_UPDATED = ''LstExchangeRateUpdated''"
definition TOTAL_STAKED_AMOUNT_UPDATED :: string where
  "TOTAL_STAKED_AMOUNT_UPDATED = ''TotalStakedAmountUpdated''"
definition OLD_RATE :: string where "OLD_RATE = ''old_rate''"
definition NEW_RATE :: string where "NEW_RATE = ''new_rate''"
definition OLD_AMOUNT :: string where "OLD_AMOUNT = ''old_amount''"
definition NEW_AMOUNT :: string where "NEW_AMOUNT = ''new_amount''"

section \<open>Storage (state.rs)\<close>

text \<open>The contract's storage: each item absent until saved, the two maps as sorted
  association lists, and the record kept by cw2.\<close>

record hub_storage =
  s_config :: "hub_config option"
  s_parameters :: "parameters option"
  s_current_batch :: "current_batch option"
  s_state :: "hub_state option"
  s_unstake_wait_list :: "(addr \<times> u64, uint128) smap"
  s_unstake_history :: "(u64, unstake_history) smap"
  s_pending_delegation :: "pending_delegation option"
  s_contract_info :: "(string \<times> string) option"

definition empty_hub_storage :: hub_storage where
  "empty_hub_storage = \<lparr>s_config = None, s_parameters = None, s_current_batch = None,
     s_state = None, s_unstake_wait_list = [], s_unstake_history = [],
     s_pending_delegation = None, s_contract_info = None\<rparr>"

datatype stake_type = LSTMint | StakeRewardsType

datatype unstake_type = BurnFlow | BurnFromFlow

definition load_config :: "hub_storage \<Rightarrow> hub_config lst_result" where
  "load_config s = load CONFIG_KEY (s_config s)"

definition load_parameters :: "hub_storage \<Rightarrow> parameters lst_result" where
  "load_parameters s = load PARAMETERS_KEY (s_parameters s)"

definition load_current_batch :: "hub_storage \<Rightarrow> current_batch lst_result" where
  "load_current_batch s = load CURRENT_BATCH_KEY (s_current_batch s)"

definition load_state :: "hub_storage \<Rightarrow> hub_state lst_result" where
  "load_state s = load STATE_KEY (s_state s)"

definition load_pending_delegation :: "hub_storage \<Rightarrow> pending_delegation lst_result" where
  "load_pending_delegation s = load PENDING_DELEGATION_KEY (s_pending_delegation s)"

lemma load_items_Inr [outcome_simps]:
  "load_config s = Inr c \<longleftrightarrow> s_config s = Some c"
  "load_parameters s = Inr p \<longleftrightarrow> s_parameters s = Some p"
  "load_current_batch s = Inr b \<longleftrightarrow> s_current_batch s = Some b"
  "load_state s = Inr st \<longleftrightarrow> s_state s = Some st"
  "load_pending_delegation s = Inr pd \<longleftrightarrow> s_pending_delegation s = Some pd"
  by (simp_all add: load_config_def load_parameters_def load_current_batch_def load_state_def
      load_pending_delegation_def outcome_simps)

lemmas load_defs = load_config_def load_parameters_def load_current_batch_def load_state_def
  load_pending_delegation_def

definition read_unstake_history :: "hub_storage \<Rightarrow> u64 \<Rightarrow> unstake_history lst_result" where
  "read_unstake_history s epoch_id =
     ok_or (may_load (s_unstake_history s) epoch_id) (Hub UnstakeHistoryNotFound)"

text \<open>The loop of \<open>process_finished_amount\<close>; \<open>if let Ok(..)\<close> ignores the error but not a panic.\<close>

definition finish_entry ::
    "hub_storage \<Rightarrow> u64 \<times> uint128 \<Rightarrow> uint128 \<times> u64 list \<Rightarrow> (uint128 \<times> u64 list) lst_result" where
  "finish_entry s = (\<lambda>(batch_id, lst_amount) (withdrawable_amount, deprecated_batches).
     case read_unstake_history s batch_id of
       Inl (Panic p) \<Rightarrow> Inl (Panic p)
     | Inl (Err _) \<Rightarrow> Inr (withdrawable_amount, deprecated_batches)
     | Inr history \<Rightarrow>
         if released history then
           and_then (decimal_multiplication lst_amount (lst_applied_exchange_rate history))
             (\<lambda>amount.
           and_then (uadd withdrawable_amount amount) (\<lambda>total.
           Inr (total, deprecated_batches @ [batch_id])))
         else Inr (withdrawable_amount, deprecated_batches))"

definition process_finished_amount ::
    "hub_storage \<Rightarrow> (u64 \<times> uint128) list \<Rightarrow> (uint128 \<times> u64 list) lst_result" where
  "process_finished_amount s wait_list = for_each (finish_entry s) wait_list (0, [])"

definition get_finished_amount :: "hub_storage \<Rightarrow> addr \<Rightarrow> (uint128 \<times> u64 list) lst_result" where
  "get_finished_amount s sender_addr =
     (let wait_list = prefix_range sender_addr None (s_unstake_wait_list s) in
      process_finished_amount s wait_list)"

definition get_finished_amount_for_batches ::
    "hub_storage \<Rightarrow> addr \<Rightarrow> u64 list \<Rightarrow> (uint128 \<times> u64 list) lst_result" where
  "get_finished_amount_for_batches s sender_addr batch_ids =
     (let wait_list = List.map_filter (\<lambda>batch_id.
            map_option (\<lambda>lst_amount. (batch_id, lst_amount))
              (may_load (s_unstake_wait_list s) (sender_addr, batch_id))) batch_ids in
      process_finished_amount s wait_list)"

definition remove_unstake_wait_list ::
    "u64 list \<Rightarrow> addr \<Rightarrow> hub_storage \<Rightarrow> hub_storage lst_result" where
  "remove_unstake_wait_list batch_ids sender_addr =
     for_each (\<lambda>batch_id s. Inr (s\<lparr>s_unstake_wait_list :=
       remove (sender_addr, batch_id) (s_unstake_wait_list s)\<rparr>)) batch_ids"

definition update_state ::
    "deps \<Rightarrow> hub_state \<Rightarrow> hub_state \<Rightarrow> hub_storage \<Rightarrow> (event list \<times> hub_storage) lst_result" where
  "update_state d old_state new_state s =
     (let events =
        [\<lparr>ev_type = LST_EXCHANGE_RATE_UPDATED, ev_attributes =
            [(OLD_RATE, decimal_to_string d (lst_exchange_rate old_state)),
             (NEW_RATE, decimal_to_string d (lst_exchange_rate new_state))]\<rparr>,
         \<lparr>ev_type = TOTAL_STAKED_AMOUNT_UPDATED, ev_attributes =
            [(OLD_AMOUNT, to_string (total_staked_amount old_state)),
             (NEW_AMOUNT, to_string (total_staked_amount new_state))]\<rparr>] in
      Inr (events, s\<lparr>s_state := Some new_state\<rparr>))"

definition get_pending_delegation_amount ::
    "env \<Rightarrow> hub_storage \<Rightarrow> (uint128 \<times> uint128) lst_result" where
  "get_pending_delegation_amount e s =
     and_then (load_pending_delegation s) (\<lambda>pd.
     let current_block_height = block_height e in
     and_then (usub current_block_height (staking_epoch_start_block_height pd)) (\<lambda>passed_blocks.
     if passed_blocks < staking_epoch_length_blocks pd
     then Inr (pending_staking_amount pd, pending_unstaking_amount pd)
     else Inr (0, 0)))"

definition unwrap_or_zero :: "uint128 option \<Rightarrow> uint128" where
  "unwrap_or_zero a = (case a of None \<Rightarrow> 0 | Some v \<Rightarrow> v)"

definition update_pending_delegation_amount ::
    "env \<Rightarrow> uint128 option \<Rightarrow> uint128 option \<Rightarrow> hub_storage \<Rightarrow> hub_storage lst_result" where
  "update_pending_delegation_amount e staking_amount unstaking_amount s =
     and_then (load_pending_delegation s) (\<lambda>pd.
     let current_block_height = block_height e in
     and_then (usub current_block_height (staking_epoch_start_block_height pd)) (\<lambda>passed_blocks.
     and_then
       (if passed_blocks < staking_epoch_length_blocks pd then
          and_then (uadd (pending_staking_amount pd) (unwrap_or_zero staking_amount)) (\<lambda>st.
          and_then (uadd (pending_unstaking_amount pd) (unwrap_or_zero unstaking_amount)) (\<lambda>un.
          Inr (pd\<lparr>pending_staking_amount := st, pending_unstaking_amount := un\<rparr>)))
        else
          and_then (usub current_block_height (staking_epoch_start_block_height pd)) (\<lambda>passed.
          and_then (udiv passed (staking_epoch_length_blocks pd)) (\<lambda>epochs_passed.
          and_then (umul epochs_passed (staking_epoch_length_blocks pd)) (\<lambda>offset.
          and_then (uadd (staking_epoch_start_block_height pd) offset) (\<lambda>start.
          Inr (pd\<lparr>pending_staking_amount := unwrap_or_zero staking_amount,
                   pending_unstaking_amount := unwrap_or_zero unstaking_amount,
                   staking_epoch_start_block_height := start\<rparr>))))))
     (\<lambda>pd'. Inr (s\<lparr>s_pending_delegation := Some pd'\<rparr>))))"

section \<open>The exchange rate (hub.rs)\<close>

definition update_lst_exchange_rate ::
    "deps \<Rightarrow> hub_state \<Rightarrow> uint128 \<Rightarrow> uint128 \<Rightarrow> hub_state lst_result" where
  "update_lst_exchange_rate d st total_issued_lst_token requested_amount =
     and_then (uadd total_issued_lst_token requested_amount) (\<lambda>total_token_supply.
     if total_staked_amount st = 0 \<or> total_token_supply = 0
     then Inr (st\<lparr>lst_exchange_rate := decimal_one\<rparr>)
     else
       and_then (or_panic (decimal_from_ratio d (total_staked_amount st) total_token_supply))
         (\<lambda>rate. Inr (st\<lparr>lst_exchange_rate := rate\<rparr>)))"

lemma update_lst_exchange_rate_InrD:
  assumes "update_lst_exchange_rate d st issued requested = Inr st'"
  shows "\<exists>rate. st' = st\<lparr>lst_exchange_rate := rate\<rparr>"
  using assms by (auto simp: update_lst_exchange_rate_def outcome_simps split: if_splits)

text \<open>With the documented rounding of \<open>from_ratio\<close> the stored rate is the quotient of the
  staked amount by the tot, rounded down to 18 decimals.\<close>

lemma update_lst_exchange_rate_value:
  assumes "decimal_ratio_law d" and "update_lst_exchange_rate d st issued requested = Inr st'"
  shows "unat (atomics (lst_exchange_rate st')) =
    (if unat (total_staked_amount st) = 0 \<or> unat issued + unat requested = 0 then 10 ^ 18
     else unat (total_staked_amount st) * 10 ^ 18 div (unat issued + unat requested))"
proof -
  obtain tot where tot: "unat tot = unat issued + unat requested"
    and st': "(if total_staked_amount st = 0 \<or> tot = 0
      then Inr (st\<lparr>lst_exchange_rate := decimal_one\<rparr>)
      else and_then (or_panic (decimal_from_ratio d (total_staked_amount st) tot))
        (\<lambda>rate. Inr (st\<lparr>lst_exchange_rate := rate\<rparr>))) = (Inr st' :: hub_state lst_result)"
    using assms(2) by (auto simp: update_lst_exchange_rate_def outcome_simps checked)
  show ?thesis
  proof (cases "total_staked_amount st = 0 \<or> tot = 0")
    case True
    with st' have "lst_exchange_rate st' = decimal_one"
      by auto
    with True show ?thesis
      by (auto simp: decimal_one_def tot [symmetric])
  next
    case False
    with st' obtain rate where "decimal_from_ratio d (total_staked_amount st) tot = Inr rate"
      and "lst_exchange_rate st' = rate"
      by (auto simp: outcome_simps)
    with False decimal_ratioD(2) [OF assms(1)] show ?thesis
      by (simp add: tot [symmetric] unat_gt_0)
  qed
qed

section \<open>What the functions do\<close>

lemma read_unstake_history_Inr [outcome_simps]:
  "read_unstake_history s b = Inr h \<longleftrightarrow> may_load (s_unstake_history s) b = Some h"
  by (simp add: read_unstake_history_def outcome_simps)

lemma update_state_Inr [outcome_simps]:
  "update_state d old new s = Inr (ev, s') \<longleftrightarrow>
     s' = s\<lparr>s_state := Some new\<rparr> \<and> ev = fst (projr (update_state d old new s))"
  by (auto simp: update_state_def)

lemma remove_unstake_wait_list_Inr:
  "\<exists>m. remove_unstake_wait_list bs a s = Inr (s\<lparr>s_unstake_wait_list := m\<rparr>)
     \<and> may_load m = (\<lambda>(a', b). if a' = a \<and> b \<in> set bs then None
                      else may_load (s_unstake_wait_list s) (a', b))
     \<and> (sorted_keys (s_unstake_wait_list s) \<longrightarrow> sorted_keys m)"
proof (induction bs arbitrary: s)
  case Nil
  then show ?case
    by (intro exI [of _ "s_unstake_wait_list s"]) (auto simp: remove_unstake_wait_list_def)
next
  case (Cons b bs)
  let ?s = "s\<lparr>s_unstake_wait_list := remove (a, b) (s_unstake_wait_list s)\<rparr>"
  have first: "remove_unstake_wait_list (b # bs) a s = remove_unstake_wait_list bs a ?s"
    by (simp add: remove_unstake_wait_list_def)
  show ?case
    using Cons.IH [of ?s] unfolding first
    by (elim exE conjE, intro exI conjI)
      (auto simp: fun_eq_iff sorted_keys_remove)
qed

section \<open>The pending amounts of the running staking epoch\<close>

text \<open>
  The specification is a ledger: the list of all updates, each with its block height and
  amounts. The number of a height's staking epoch counts from the start height of the
  contract.
\<close>

record ledger_entry =
  le_height :: u64
  le_staking :: "uint128 option"
  le_unstaking :: "uint128 option"

type_synonym ledger = "ledger_entry list"

definition epoch_of :: "pending_delegation \<Rightarrow> u64 \<Rightarrow> nat" where
  "epoch_of pd h =
     (unat h - unat (staking_epoch_start_block_height pd)) div unat (staking_epoch_length_blocks pd)"

definition staked_in_epoch :: "pending_delegation \<Rightarrow> ledger \<Rightarrow> nat \<Rightarrow> nat" where
  "staked_in_epoch pd led k =
     (\<Sum>x \<leftarrow> led. if epoch_of pd (le_height x) = k then unat (unwrap_or_zero (le_staking x)) else 0)"

definition unstaked_in_epoch :: "pending_delegation \<Rightarrow> ledger \<Rightarrow> nat \<Rightarrow> nat" where
  "unstaked_in_epoch pd led k =
     (\<Sum>x \<leftarrow> led. if epoch_of pd (le_height x) = k then unat (unwrap_or_zero (le_unstaking x)) else 0)"

text \<open>Heights of successive blocks do not decrease, and the first is not before the start.\<close>

definition heights_ok :: "pending_delegation \<Rightarrow> ledger \<Rightarrow> bool" where
  "heights_ok pd led \<longleftrightarrow> sorted (map (unat \<circ> le_height) led)
     \<and> (\<forall>x \<in> set led. unat (staking_epoch_start_block_height pd) \<le> unat (le_height x))"

text \<open>The code's side: every entry is a call of \<open>update_pending_delegation_amount\<close>.\<close>

definition record_ledger :: "env \<Rightarrow> ledger \<Rightarrow> hub_storage \<Rightarrow> hub_storage lst_result" where
  "record_ledger e = for_each (\<lambda>x.
     update_pending_delegation_amount (e\<lparr>block_height := le_height x\<rparr>) (le_staking x) (le_unstaking x))"

lemma epoch_arith:
  fixes h s l :: nat
  assumes "s \<le> h" "0 < l"
  shows "s + (h - s) div l * l \<le> h" "h < s + (h - s) div l * l + l"
  using assms dividend_less_div_times [of l "h - s"] div_times_less_eq_dividend [of "h - s" l]
  by linarith+

text \<open>Effect of one update on the stored record, over the natural numbers.\<close>

lemma update_pending_InrD:
  assumes "update_pending_delegation_amount e st un s = Inr s'"
    and "s_pending_delegation s = Some pd"
  obtains pd' where "s' = s\<lparr>s_pending_delegation := Some pd'\<rparr>"
    and "unat (staking_epoch_start_block_height pd) \<le> unat (block_height e)"
    and "staking_epoch_length_blocks pd' = staking_epoch_length_blocks pd"
    and "unat (block_height e) - unat (staking_epoch_start_block_height pd)
          < unat (staking_epoch_length_blocks pd) \<Longrightarrow>
        staking_epoch_start_block_height pd' = staking_epoch_start_block_height pd
        \<and> unat (pending_staking_amount pd') = unat (pending_staking_amount pd) + unat (unwrap_or_zero st)
        \<and> unat (pending_unstaking_amount pd')
            = unat (pending_unstaking_amount pd) + unat (unwrap_or_zero un)"
    and "unat (staking_epoch_length_blocks pd)
          \<le> unat (block_height e) - unat (staking_epoch_start_block_height pd) \<Longrightarrow>
        unat (staking_epoch_start_block_height pd')
          = unat (staking_epoch_start_block_height pd)
            + (unat (block_height e) - unat (staking_epoch_start_block_height pd))
                div unat (staking_epoch_length_blocks pd) * unat (staking_epoch_length_blocks pd)
        \<and> pending_staking_amount pd' = unwrap_or_zero st
        \<and> pending_unstaking_amount pd' = unwrap_or_zero un
        \<and> staking_epoch_length_blocks pd \<noteq> 0"
proof -
  obtain passed pd' where s': "s' = s\<lparr>s_pending_delegation := Some pd'\<rparr>"
    and passed: "unat (block_height e) = unat (staking_epoch_start_block_height pd) + unat passed"
    and body: "(if passed < staking_epoch_length_blocks pd then
          and_then (uadd (pending_staking_amount pd) (unwrap_or_zero st)) (\<lambda>st.
          and_then (uadd (pending_unstaking_amount pd) (unwrap_or_zero un)) (\<lambda>un.
          Inr (pd\<lparr>pending_staking_amount := st, pending_unstaking_amount := un\<rparr>)))
        else
          and_then (usub (block_height e) (staking_epoch_start_block_height pd)) (\<lambda>passed.
          and_then (udiv passed (staking_epoch_length_blocks pd)) (\<lambda>epochs_passed.
          and_then (umul epochs_passed (staking_epoch_length_blocks pd)) (\<lambda>offset.
          and_then (uadd (staking_epoch_start_block_height pd) offset) (\<lambda>start.
          Inr (pd\<lparr>pending_staking_amount := unwrap_or_zero st,
                   pending_unstaking_amount := unwrap_or_zero un,
                   staking_epoch_start_block_height := start\<rparr>)))))) = (Inr pd' :: pending_delegation lst_result)"
    using assms by (auto simp: update_pending_delegation_amount_def outcome_simps checked Let_def)
  show ?thesis
  proof (rule that [OF s'])
    show "unat (staking_epoch_start_block_height pd) \<le> unat (block_height e)"
      using passed by simp
    show "staking_epoch_length_blocks pd' = staking_epoch_length_blocks pd"
      using body by (auto simp: outcome_simps split: if_splits)
  qed (use body passed in \<open>auto simp: outcome_simps checked word_less_nat_alt split: if_splits\<close>)
qed

text \<open>Conversely, the update of a block inside the chain's history succeeds when the sums fit.\<close>

lemma update_pending_total:
  assumes pd: "s_pending_delegation s = Some pd"
    and h: "staking_epoch_start_block_height pd \<le> block_height e"
    and l: "staking_epoch_length_blocks pd \<noteq> 0"
    and fits: "unat (pending_staking_amount pd) + unat (unwrap_or_zero st) < 2 ^ 128"
      "unat (pending_unstaking_amount pd) + unat (unwrap_or_zero un) < 2 ^ 128"
  shows "\<exists>s'. update_pending_delegation_amount e st un s = Inr s'"
proof -
  let ?h = "block_height e" and ?s = "staking_epoch_start_block_height pd"
    and ?l = "staking_epoch_length_blocks pd"
  have diff: "unat (?h - ?s) = unat ?h - unat ?s"
    using h by (rule unat_sub_exact)
  have "0 < unat ?l" using l by (simp add: unat_gt_0)
  then have bounds: "unat ?s + (unat ?h - unat ?s) div unat ?l * unat ?l \<le> unat ?h"
    using epoch_arith(1) [of "unat ?s" "unat ?h" "unat ?l"] h by (simp add: word_le_nat_alt)
  have mul: "unat ((?h - ?s) div ?l) * unat ?l < 2 ^ LENGTH(64)"
    using bounds unat_less [of ?h] by (simp add: unat_div diff)
  have offset: "unat ((?h - ?s) div ?l * ?l) = (unat ?h - unat ?s) div unat ?l * unat ?l"
    using unat_mult_exact [OF mul] by (simp add: unat_div diff)
  have add: "unat ?s + unat ((?h - ?s) div ?l * ?l) < 2 ^ LENGTH(64)"
    using bounds unat_less [of ?h] unfolding offset by simp
  show ?thesis
    using pd h l fits add mul
    by (simp add: update_pending_delegation_amount_def load_pending_delegation_def usub_fits
        udiv_def umul_def uadd_def Let_def)
qed

lemma epoch_of_cong:
  "staking_epoch_start_block_height pd = staking_epoch_start_block_height pd' \<Longrightarrow>
   staking_epoch_length_blocks pd = staking_epoch_length_blocks pd' \<Longrightarrow> epoch_of pd = epoch_of pd'"
  by (simp add: epoch_of_def fun_eq_iff)

text \<open>What a stored record must say when the last update was at height \<open>h\<close>.\<close>

definition ledger_rel :: "pending_delegation \<Rightarrow> ledger \<Rightarrow> u64 \<Rightarrow> pending_delegation \<Rightarrow> bool" where
  "ledger_rel pd0 led h pd \<longleftrightarrow>
     staking_epoch_length_blocks pd = staking_epoch_length_blocks pd0
     \<and> unat (staking_epoch_start_block_height pd) = unat (staking_epoch_start_block_height pd0)
         + epoch_of pd0 h * unat (staking_epoch_length_blocks pd0)
     \<and> unat (pending_staking_amount pd) = staked_in_epoch pd0 led (epoch_of pd0 h)
     \<and> unat (pending_unstaking_amount pd) = unstaked_in_epoch pd0 led (epoch_of pd0 h)"

lemma epoch_step:
  fixes s0 l h :: nat
  assumes l: "0 < l" and s: "s = s0 + k * l" and k: "k * l \<le> h - s0" and s0: "s0 \<le> h"
  shows "(h - s0) div l = k + (h - s) div l"
proof -
  have "h - s0 = k * l + (h - s)"
    using s k s0 by simp
  then show ?thesis
    using l by simp
qed

lemma staked_in_epoch_none:
  "(\<And>x. x \<in> set led \<Longrightarrow> epoch_of pd (le_height x) \<noteq> k) \<Longrightarrow>
   staked_in_epoch pd led k = 0 \<and> unstaked_in_epoch pd led k = 0"
  unfolding staked_in_epoch_def unstaked_in_epoch_def by (induction led) auto

lemma in_epoch_snoc:
  "staked_in_epoch pd (led @ [x]) k = staked_in_epoch pd led k
     + (if epoch_of pd (le_height x) = k then unat (unwrap_or_zero (le_staking x)) else 0)"
  "unstaked_in_epoch pd (led @ [x]) k = unstaked_in_epoch pd led k
     + (if epoch_of pd (le_height x) = k then unat (unwrap_or_zero (le_unstaking x)) else 0)"
  by (simp_all add: staked_in_epoch_def unstaked_in_epoch_def)

lemma epoch_of_mono: "unat h \<le> unat h' \<Longrightarrow> epoch_of pd h \<le> epoch_of pd h'"
  by (simp add: epoch_of_def div_le_mono diff_le_mono)

lemma ledger_step:
  assumes rel: "ledger_rel pd0 led h pd"
    and upd: "update_pending_delegation_amount (e\<lparr>block_height := le_height x\<rparr>)
        (le_staking x) (le_unstaking x) s = Inr s'"
    and pd: "s_pending_delegation s = Some pd"
    and l: "staking_epoch_length_blocks pd0 \<noteq> 0"
    and order: "unat h \<le> unat (le_height x)"
      "unat (staking_epoch_start_block_height pd0) \<le> unat h"
    and led: "\<And>y. y \<in> set led \<Longrightarrow> unat (le_height y) \<le> unat h"
  shows "\<exists>pd'. s_pending_delegation s' = Some pd'
    \<and> ledger_rel pd0 (led @ [x]) (le_height x) pd'"
proof -
  let ?s0 = "unat (staking_epoch_start_block_height pd0)"
    and ?l = "unat (staking_epoch_length_blocks pd0)"
    and ?H = "unat (le_height x)" and ?k = "epoch_of pd0 h"
  have lpos: "0 < ?l" using l by (simp add: unat_gt_0)
  have s: "unat (staking_epoch_start_block_height pd) = ?s0 + ?k * ?l"
    and len: "staking_epoch_length_blocks pd = staking_epoch_length_blocks pd0"
    using rel by (simp_all add: ledger_rel_def)
  have "?k * ?l \<le> unat h - ?s0"
    unfolding epoch_of_def by (rule div_times_less_eq_dividend)
  then have k: "?k * ?l \<le> ?H - ?s0"
    using order by linarith
  define n where "n = (?H - unat (staking_epoch_start_block_height pd)) div ?l"
  have epoch: "epoch_of pd0 (le_height x) = ?k + n"
    unfolding n_def epoch_of_def using epoch_step [OF lpos s k] order
    by (simp add: epoch_of_def)
  have led_epoch: "epoch_of pd0 (le_height y) \<le> ?k" if "y \<in> set led" for y
    using led [OF that] by (rule epoch_of_mono)
  from upd pd show ?thesis
  proof (rule update_pending_InrD)
    fix pd'
    assume s': "s' = s\<lparr>s_pending_delegation := Some pd'\<rparr>"
      and len': "staking_epoch_length_blocks pd' = staking_epoch_length_blocks pd"
      and inside: "unat (block_height (e\<lparr>block_height := le_height x\<rparr>))
            - unat (staking_epoch_start_block_height pd) < unat (staking_epoch_length_blocks pd) \<Longrightarrow>
          staking_epoch_start_block_height pd' = staking_epoch_start_block_height pd
          \<and> unat (pending_staking_amount pd') = unat (pending_staking_amount pd)
              + unat (unwrap_or_zero (le_staking x))
          \<and> unat (pending_unstaking_amount pd') = unat (pending_unstaking_amount pd)
              + unat (unwrap_or_zero (le_unstaking x))"
      and passed: "unat (staking_epoch_length_blocks pd)
            \<le> unat (block_height (e\<lparr>block_height := le_height x\<rparr>))
              - unat (staking_epoch_start_block_height pd) \<Longrightarrow>
          unat (staking_epoch_start_block_height pd') = unat (staking_epoch_start_block_height pd)
            + (unat (block_height (e\<lparr>block_height := le_height x\<rparr>))
                - unat (staking_epoch_start_block_height pd))
              div unat (staking_epoch_length_blocks pd) * unat (staking_epoch_length_blocks pd)
          \<and> pending_staking_amount pd' = unwrap_or_zero (le_staking x)
          \<and> pending_unstaking_amount pd' = unwrap_or_zero (le_unstaking x)
          \<and> staking_epoch_length_blocks pd \<noteq> 0"
    have "ledger_rel pd0 (led @ [x]) (le_height x) pd'"
    proof (cases "?H - unat (staking_epoch_start_block_height pd) < ?l")
      case True
      then have "n = 0" by (simp add: n_def)
      with epoch have "epoch_of pd0 (le_height x) = ?k" by simp
      with inside True rel len len' show ?thesis
        by (simp add: ledger_rel_def in_epoch_snoc)
    next
      case False
      then have "0 < n" using lpos by (simp add: n_def div_greater_zero_iff)
      then have none: "staked_in_epoch pd0 led (?k + n) = 0 \<and> unstaked_in_epoch pd0 led (?k + n) = 0"
        using led_epoch by (intro staked_in_epoch_none) fastforce
      have "unat (staking_epoch_length_blocks pd)
          \<le> unat (block_height (e\<lparr>block_height := le_height x\<rparr>))
            - unat (staking_epoch_start_block_height pd)"
        using False len by simp
      note new = passed [OF this]
      have "unat (staking_epoch_start_block_height pd') = ?s0 + ?k * ?l + n * ?l"
        using new unfolding n_def s len by simp
      then have start: "unat (staking_epoch_start_block_height pd') = ?s0 + (?k + n) * ?l"
        by (simp only: add_mult_distrib add.assoc)
      have "staked_in_epoch pd0 (led @ [x]) (?k + n) = unat (unwrap_or_zero (le_staking x))"
        "unstaked_in_epoch pd0 (led @ [x]) (?k + n) = unat (unwrap_or_zero (le_unstaking x))"
        using none epoch by (simp_all add: in_epoch_snoc)
      with start new len len' show ?thesis
        unfolding ledger_rel_def epoch by simp
    qed
    with s' show ?thesis by auto
  qed
qed

lemma record_ledger_snoc:
  "record_ledger e (led @ [x]) s = and_then (record_ledger e led s)
     (update_pending_delegation_amount (e\<lparr>block_height := le_height x\<rparr>)
        (le_staking x) (le_unstaking x))"
proof (induction led arbitrary: s)
  case Nil
  then show ?case
    by (cases "update_pending_delegation_amount (e\<lparr>block_height := le_height x\<rparr>)
        (le_staking x) (le_unstaking x) s") (simp_all add: record_ledger_def)
next
  case (Cons y led)
  then show ?case
    by (cases "update_pending_delegation_amount (e\<lparr>block_height := le_height y\<rparr>)
        (le_staking y) (le_unstaking y) s") (simp_all add: record_ledger_def)
qed

lemma heights_ok_last:
  "heights_ok pd led \<Longrightarrow> x \<in> set led \<Longrightarrow> unat (le_height x) \<le> unat (le_height (last led))"
  by (cases led rule: rev_cases) (auto simp: heights_ok_def sorted_append)

lemma record_ledger_rel:
  assumes "record_ledger e led s = Inr s'" and "s_pending_delegation s = Some pd0"
    and "pending_staking_amount pd0 = 0" "pending_unstaking_amount pd0 = 0"
    and "staking_epoch_length_blocks pd0 \<noteq> 0" and "heights_ok pd0 led"
  shows "\<exists>pd. s_pending_delegation s' = Some pd \<and> ledger_rel pd0 led
    (if led = [] then staking_epoch_start_block_height pd0 else le_height (last led)) pd"
  using assms
proof (induction led arbitrary: s' rule: rev_induct)
  case Nil
  then show ?case
    by (simp add: record_ledger_def ledger_rel_def epoch_of_def staked_in_epoch_def
        unstaked_in_epoch_def)
next
  case (snoc x led)
  let ?h = "if led = [] then staking_epoch_start_block_height pd0 else le_height (last led)"
  obtain t where t: "record_ledger e led s = Inr t"
    and upd: "update_pending_delegation_amount (e\<lparr>block_height := le_height x\<rparr>)
        (le_staking x) (le_unstaking x) t = Inr s'"
    using snoc.prems(1) by (auto simp: record_ledger_snoc outcome_simps)
  have ok: "heights_ok pd0 led"
    using snoc.prems(6) by (simp add: heights_ok_def sorted_append)
  from snoc.IH [OF t] snoc.prems(2-5) ok obtain pd where pd: "s_pending_delegation t = Some pd"
    and rel: "ledger_rel pd0 led ?h pd"
    by blast
  have order: "unat ?h \<le> unat (le_height x)" "unat (staking_epoch_start_block_height pd0) \<le> unat ?h"
    using snoc.prems(6) by (auto simp: heights_ok_def sorted_append)
  have led: "unat (le_height y) \<le> unat ?h" if "y \<in> set led" for y
    using heights_ok_last [OF ok that] that by auto
  from ledger_step [OF rel upd pd snoc.prems(5) order led] show ?case
    by simp
qed

section \<open>Properties\<close>

text \<open>
  C25: The pending amounts refine the ledger. Whatever sequence of stakes and unstakes was
  recorded since the contract was created, at non-decreasing heights, the amounts that
  \<open>get_pending_delegation_amount\<close> reports at a later height are the sums of exactly the
  recorded amounts whose heights lie in the same staking epoch as that height.
\<close>

theorem pending_amounts_refine_ledger:
  assumes "record_ledger e led s = Inr s'" and "s_pending_delegation s = Some pd0"
    and "pending_staking_amount pd0 = 0" "pending_unstaking_amount pd0 = 0"
    and "staking_epoch_length_blocks pd0 \<noteq> 0" and "heights_ok pd0 led"
    and "\<forall>x \<in> set led. unat (le_height x) \<le> unat (block_height e')"
    and "get_pending_delegation_amount e' s' = Inr (st, un)"
  shows "unat st = staked_in_epoch pd0 led (epoch_of pd0 (block_height e'))
    \<and> unat un = unstaked_in_epoch pd0 led (epoch_of pd0 (block_height e'))"
proof -
  let ?h = "if led = [] then staking_epoch_start_block_height pd0 else le_height (last led)"
    and ?s0 = "unat (staking_epoch_start_block_height pd0)"
    and ?l = "unat (staking_epoch_length_blocks pd0)" and ?H = "unat (block_height e')"
  from record_ledger_rel [OF assms(1-6)] obtain pd where pd: "s_pending_delegation s' = Some pd"
    and rel: "ledger_rel pd0 led ?h pd" by blast
  let ?k = "epoch_of pd0 ?h"
  have s: "unat (staking_epoch_start_block_height pd) = ?s0 + ?k * ?l"
    and len: "staking_epoch_length_blocks pd = staking_epoch_length_blocks pd0"
    using rel by (simp_all add: ledger_rel_def)
  from assms(8) pd obtain passed :: u64
    where passed: "?H = unat (staking_epoch_start_block_height pd) + unat passed"
      and res: "(st, un) = (if unat passed < ?l
        then (pending_staking_amount pd, pending_unstaking_amount pd) else (0, 0))"
    by (auto simp: get_pending_delegation_amount_def outcome_simps checked Let_def len
        word_less_nat_alt split: if_splits)
  have lpos: "0 < ?l" using assms(5) by (simp add: unat_gt_0)
  have epoch: "epoch_of pd0 (block_height e') = ?k + unat passed div ?l"
    unfolding epoch_of_def [of pd0 "block_height e'"]
    using epoch_step [OF lpos s, of ?H] passed s by simp
  have earlier: "epoch_of pd0 (le_height x) \<le> ?k" if "x \<in> set led" for x
    using heights_ok_last [OF assms(6) that] that by (auto intro: epoch_of_mono)
  show ?thesis
  proof (cases "unat passed < ?l")
    case True
    with res rel show ?thesis by (simp add: epoch ledger_rel_def)
  next
    case False
    then have "0 < unat passed div ?l" using lpos by (simp add: div_greater_zero_iff)
    with earlier have "epoch_of pd0 (le_height x) \<noteq> epoch_of pd0 (block_height e')"
      if "x \<in> set led" for x
      using that by (fastforce simp: epoch)
    from staked_in_epoch_none [OF this] res False show ?thesis by simp
  qed
qed

text \<open>
  Inside the chain's history (the block is not before the recorded epoch start, epochs are
  not empty) an update of the pending amounts succeeds whenever the sums fit in 128 bits, and
  it leaves an epoch start that is aligned with the old one and whose epoch contains the
  current block.
\<close>

theorem pending_update_aligns_epoch:
  assumes "s_pending_delegation s = Some pd"
    and "staking_epoch_start_block_height pd \<le> block_height e"
    and "staking_epoch_length_blocks pd \<noteq> 0"
    and "unat (pending_staking_amount pd) + unat (unwrap_or_zero st) < 2 ^ 128"
    and "unat (pending_unstaking_amount pd) + unat (unwrap_or_zero un) < 2 ^ 128"
  shows "\<exists>pd'. update_pending_delegation_amount e st un s
        = Inr (s\<lparr>s_pending_delegation := Some pd'\<rparr>)
    \<and> staking_epoch_length_blocks pd' = staking_epoch_length_blocks pd
    \<and> unat (staking_epoch_start_block_height pd') \<le> unat (block_height e)
    \<and> unat (block_height e)
        < unat (staking_epoch_start_block_height pd') + unat (staking_epoch_length_blocks pd)
    \<and> (\<exists>n. unat (staking_epoch_start_block_height pd')
          = unat (staking_epoch_start_block_height pd) + n * unat (staking_epoch_length_blocks pd))"
proof -
  let ?s = "unat (staking_epoch_start_block_height pd)" and ?l = "unat (staking_epoch_length_blocks pd)"
    and ?h = "unat (block_height e)"
  obtain s' where s': "update_pending_delegation_amount e st un s = Inr s'"
    using update_pending_total assms by blast
  have "?s \<le> ?h" "0 < ?l"
    using assms(2,3) by (simp_all add: word_le_nat_alt unat_gt_0)
  note arith = epoch_arith [OF this]
  obtain pd' where upd: "s' = s\<lparr>s_pending_delegation := Some pd'\<rparr>"
    and len: "staking_epoch_length_blocks pd' = staking_epoch_length_blocks pd"
    and inside: "?h - ?s < ?l \<Longrightarrow>
      staking_epoch_start_block_height pd' = staking_epoch_start_block_height pd"
    and passed: "?l \<le> ?h - ?s \<Longrightarrow>
      unat (staking_epoch_start_block_height pd') = ?s + (?h - ?s) div ?l * ?l"
    using update_pending_InrD [OF s' assms(1)] by metis
  obtain n where n: "unat (staking_epoch_start_block_height pd') = ?s + n * ?l"
    and "?s + n * ?l \<le> ?h" "?h < ?s + n * ?l + ?l"
  proof (cases "?h - ?s < ?l")
    case True
    with inside \<open>?s \<le> ?h\<close> show ?thesis by (intro that [of 0]) auto
  next
    case False
    with passed arith show ?thesis by (intro that [of "(?h - ?s) div ?l"]) auto
  qed
  with upd len s' show ?thesis by auto
qed

section \<open>Witnesses\<close>

definition sample_pending :: pending_delegation where
  "sample_pending = \<lparr>staking_epoch_length_blocks = 10, staking_epoch_start_block_height = 100,
     pending_staking_amount = 0, pending_unstaking_amount = 0\<rparr>"

definition sample_storage :: hub_storage where
  "sample_storage = empty_hub_storage\<lparr>s_pending_delegation := Some sample_pending\<rparr>"

definition sample_env :: env where
  "sample_env = \<lparr>block_height = 115, block_time = 1000000, contract_address = ''hub''\<rparr>"

definition sample_ledger :: ledger where
  "sample_ledger = [\<lparr>le_height = 105, le_staking = Some 7, le_unstaking = None\<rparr>,
     \<lparr>le_height = 112, le_staking = Some 5, le_unstaking = Some 2\<rparr>]"

lemmas pending_eval = sample_pending_def sample_storage_def sample_env_def sample_ledger_def
  empty_hub_storage_def record_ledger_def update_pending_delegation_amount_def
  get_pending_delegation_amount_def load_pending_delegation_def unwrap_or_zero_def

lemma record_sample:
  "record_ledger sample_env sample_ledger sample_storage = Inr (sample_storage\<lparr>s_pending_delegation :=
     Some (sample_pending\<lparr>staking_epoch_start_block_height := 110, pending_staking_amount := 5,
       pending_unstaking_amount := 2\<rparr>)\<rparr>)"
  by (simp add: pending_eval eval_simps cong: eval_cong)

lemma pending_amounts_refine_ledger_witness:
  "unat (5 :: uint128) = staked_in_epoch sample_pending sample_ledger (epoch_of sample_pending 115)
   \<and> unat (2 :: uint128) = unstaked_in_epoch sample_pending sample_ledger (epoch_of sample_pending 115)"
proof -
  have "heights_ok sample_pending sample_ledger"
    by (simp add: heights_ok_def pending_eval)
  moreover have "\<forall>x \<in> set sample_ledger. unat (le_height x) \<le> unat (block_height sample_env)"
    by (simp add: pending_eval)
  moreover have "get_pending_delegation_amount sample_env (sample_storage\<lparr>s_pending_delegation :=
     Some (sample_pending\<lparr>staking_epoch_start_block_height := 110, pending_staking_amount := 5,
       pending_unstaking_amount := 2\<rparr>)\<rparr>) = Inr (5, 2)"
    by (simp add: pending_eval eval_simps cong: eval_cong)
  moreover have "s_pending_delegation sample_storage = Some sample_pending"
    "pending_staking_amount sample_pending = 0" "pending_unstaking_amount sample_pending = 0"
    "staking_epoch_length_blocks sample_pending \<noteq> 0" "block_height sample_env = 115"
    by (simp_all add: pending_eval)
  ultimately show ?thesis
    using pending_amounts_refine_ledger [OF record_sample] by metis
qed

lemma pending_update_aligns_epoch_witness:
  "\<exists>pd'. update_pending_delegation_amount sample_env (Some 3) None sample_storage
        = Inr (sample_storage\<lparr>s_pending_delegation := Some pd'\<rparr>)
    \<and> unat (staking_epoch_start_block_height pd') \<le> 115
    \<and> 115 < unat (staking_epoch_start_block_height pd') + 10"
  using pending_update_aligns_epoch [of sample_storage sample_pending sample_env "Some 3" None]
  by (auto simp: sample_pending_def sample_storage_def sample_env_def unwrap_or_zero_def)

end
