(* ===== verification/Sample_World.thy ===== *)
theory Sample_World
  imports Hub_State
begin

text \<open>
  A concrete environment on which the witnesses of the development are evaluated: decimal
  operations that obey the documented laws, two validators, a token with a fixed supply, and a
  staking hub in operation.
\<close>

definition sample_ratio :: "uint128 \<Rightarrow> uint128 \<Rightarrow> panic + decimal" where
  "sample_ratio n m =
     (if m = 0 then Inl DivisionByZero
      else if unat n * 10 ^ 18 div unat m < 2 ^ 128
        then Inr (Decimal (of_nat (unat n * 10 ^ 18 div unat m)))
        else Inl ArithmeticOverflow)"

definition sample_mul :: "decimal \<Rightarrow> decimal \<Rightarrow> panic + decimal" where
  "sample_mul a b =
     (if unat (atomics a) * unat (atomics b) div 10 ^ 18 < 2 ^ 128
        then Inr (Decimal (of_nat (unat (atomics a) * unat (atomics b) div 10 ^ 18)))
        else Inl ArithmeticOverflow)"

definition sample_ceil :: "decimal \<Rightarrow> panic + uint128" where
  "sample_ceil a = Inr (of_nat ((unat (atomics a) + (10 ^ 18 - 1)) div 10 ^ 18))"

definition bbn :: "uint128 \<Rightarrow> coin" where
  "bbn a = \<lparr>coin_denom = ''ubbn'', coin_amount = a\<rparr>"

definition sample_deps :: deps where
  "sample_deps = \<lparr>
     addr_validate = Inr,
     decimal_from_ratio = sample_ratio,
     decimal_mul = sample_mul,
     decimal_to_uint_ceil = sample_ceil,
     decimal_to_string = (\<lambda>a. to_string (atomics a)),
     coin_to_string = (\<lambda>c. to_string (coin_amount c) @ coin_denom c),
     parse_cw20_hook = (\<lambda>_. Inr HookUnstake),
     bech32_decode = (\<lambda>a. Some (''bbn'', a)),
     hrp_parse = Some,
     bech32_encode = (\<lambda>h a. Some (h @ a)),
     set_contract_version = (\<lambda>n v _. Inr (Some (n, v))),
     ensure_from_older_version = (\<lambda>n v _. Inr (Some (n, v))),
     query_balance = (\<lambda>_ _. Inr (bbn 150)),
     query_all_delegations = (\<lambda>_. Inr [\<lparr>del_validator = ''val1'', del_amount = bbn 500\<rparr>,
       \<lparr>del_validator = ''val2'', del_amount = bbn 400\<rparr>]),
     query_validator = (\<lambda>a. Inr (Some a)),
     query_token_supply = (\<lambda>_. Inr 900),
     query_cw20_balance = (\<lambda>_ _. Inr 200),
     query_cw20_allowance = (\<lambda>_ _ _. Inr 200),
     query_validators_delegation = (\<lambda>_. Inr
       [\<lparr>total_delegated = 400, vr_address = ''val2''\<rparr>, \<lparr>total_delegated = 500, vr_address = ''val1''\<rparr>]),
     query_hub_parameters = (\<lambda>_. Inr \<lparr>epoch_length = 1000, staking_coin_denom = ''ubbn'',
       unstaking_period = 2000, paused = False\<rparr>)\<rparr>"

lemma sample_laws [simp]:
  "decimal_ratio_law sample_deps" "decimal_mul_law sample_deps" "decimal_ceil_law sample_deps"
  by (simp_all add: decimal_ratio_law_def decimal_mul_law_def decimal_ceil_law_def sample_deps_def
      sample_ratio_def sample_mul_def sample_ceil_def)

definition alice :: addr where "alice = ''alice''"
definition sample_owner :: addr where "sample_owner = ''owner''"
definition sample_hub_addr :: addr where "sample_hub_addr = ''hub''"
definition sample_token :: addr where "sample_token = ''token''"
definition sample_registry :: addr where "sample_registry = ''registry''"
definition sample_dispatcher :: addr where "sample_dispatcher = ''dispatcher''"

definition now :: env where
  "now = \<lparr>block_height = 115, block_time = 1000000, contract_address = sample_hub_addr\<rparr>"

definition by_user :: "addr \<Rightarrow> coin list \<Rightarrow> message_info" where
  "by_user a cs = \<lparr>info_sender = a, info_funds = cs\<rparr>"

text \<open>1000 coins are recorded as staked against 1000 tokens, 100 of which wait in batch 3; the
  validators only hold 900, so 10 per cent was slashed. Batch 1 was released, batch 2 has
  matured.\<close>

definition sample_state :: hub_state where
  "sample_state = \<lparr>lst_exchange_rate = decimal_one, total_staked_amount = 1000,
     last_index_modification = 0, unclaimed_unstaked_balance = 50, last_unbonded_time = 1000,
     last_processed_batch = 1\<rparr>"

definition sample_history :: "u64 \<Rightarrow> uint128 \<Rightarrow> bool \<Rightarrow> unstake_history" where
  "sample_history b a r = \<lparr>uh_batch_id = b, uh_time = 1000, lst_token_amount = a,
     lst_applied_exchange_rate = decimal_one, lst_withdraw_rate = decimal_one, released = r\<rparr>"

definition sample_config :: hub_config where
  "sample_config = \<lparr>hc_owner = sample_owner, reward_dispatcher_contract = Some sample_dispatcher,
     validators_registry_contract = Some sample_registry, lst_token = Some sample_token\<rparr>"

definition sample_params :: parameters where
  "sample_params = \<lparr>epoch_length = 1000, staking_coin_denom = ''ubbn'', unstaking_period = 2000,
     paused = False\<rparr>"

definition sample_batch :: current_batch where
  "sample_batch = \<lparr>cb_id = 3, requested_lst_token_amount = 100\<rparr>"

definition sample_hub :: hub_storage where
  "sample_hub = \<lparr>
     s_config = Some sample_config,
     s_parameters = Some sample_params,
     s_current_batch = Some sample_batch,
     s_state = Some sample_state,
     s_unstake_wait_list = [((alice, 1), 50), ((alice, 2), 60), ((alice, 3), 100)],
     s_unstake_history = [(1, sample_history 1 50 True), (2, sample_history 2 60 False)],
     s_pending_delegation = Some sample_pending,
     s_contract_info = None\<rparr>"

lemma sample_hub_items [simp]:
  "s_config sample_hub = Some sample_config" "s_parameters sample_hub = Some sample_params"
  "s_current_batch sample_hub = Some sample_batch" "s_state sample_hub = Some sample_state"
  "s_pending_delegation sample_hub = Some sample_pending"
  by (simp_all add: sample_hub_def)

lemmas sample_defs = sample_config_def sample_params_def sample_batch_def sample_deps_def sample_ratio_def sample_mul_def sample_ceil_def bbn_def
  now_def by_user_def sample_state_def sample_history_def sample_hub_def sample_pending_def
  alice_def sample_owner_def sample_hub_addr_def sample_token_def sample_registry_def sample_dispatcher_def

lemmas storage_eval = load_defs load_def query_std_def read_unstake_history_def may_load_def
  CONFIG_KEY_def PARAMETERS_KEY_def CURRENT_BATCH_KEY_def STATE_KEY_def PENDING_DELEGATION_KEY_def

end
