(* ===== verification/Hub_Config.thy ===== *)
theory Hub_Config
  imports Sample_World
begin

text \<open>
  \<open>contracts/lst_staking_hub/src/config.rs\<close>: the owner's updates of the configuration and of
  the parameters. The parameters stay within their bounds, and an update is accepted exactly
  when its result is within them.
\<close>

section \<open>The code\<close>

definition is_authorized_sender :: "hub_storage \<Rightarrow> addr \<Rightarrow> unit lst_result" where
  "is_authorized_sender s sender =
     and_then (load_config s) (\<lambda>config.
     if sender \<noteq> hc_owner config then unauthorized else Inr ())"

text \<open>\<open>opt.map_or(String::from("None"), |a| a.to_string())\<close>\<close>

definition addr_or_none :: "addr option \<Rightarrow> string" where
  "addr_or_none a = (case a of None \<Rightarrow> ''None'' | Some a \<Rightarrow> a)"

definition execute_update_config ::
    "deps \<Rightarrow> message_info \<Rightarrow> string option \<Rightarrow> string option \<Rightarrow> string option \<Rightarrow> string option
     \<Rightarrow> hub_storage \<Rightarrow> (response \<times> hub_storage) lst_result" where
  "execute_update_config d info new_owner token validator_registry reward_dispatcher s =
     and_then (is_authorized_sender s (info_sender info)) (\<lambda>_.
     and_then (load_config s) (\<lambda>config.
     and_then
       (case new_owner of None \<Rightarrow> Inr config
        | Some owner_addr \<Rightarrow>
            and_then (to_checked_address d owner_addr) (\<lambda>a. Inr (config\<lparr>hc_owner := a\<rparr>)))
     (\<lambda>config1.
     and_then
       (case token of None \<Rightarrow> Inr config1
        | Some token \<Rightarrow>
            and_then (to_checked_address d token) (\<lambda>new_token_addr.
            case lst_token config1 of
              Some existing_token \<Rightarrow>
                if existing_token \<noteq> new_token_addr then hub_err LstTokenAlreadySet
                else Inr config1
            | None \<Rightarrow> Inr (config1\<lparr>lst_token := Some new_token_addr\<rparr>)))
     (\<lambda>config2.
     and_then
       (case validator_registry of None \<Rightarrow> Inr config2
        | Some registry \<Rightarrow>
            and_then (to_checked_address d registry) (\<lambda>a.
            Inr (config2\<lparr>validators_registry_contract := Some a\<rparr>)))
     (\<lambda>config3.
     and_then
       (case reward_dispatcher of None \<Rightarrow> Inr (config3, [])
        | Some dispatcher \<Rightarrow>
            and_then (to_checked_address d dispatcher) (\<lambda>checked_dispatcher.
            Inr (config3\<lparr>reward_dispatcher_contract := Some checked_dispatcher\<rparr>,
                 [SetWithdrawAddress checked_dispatcher])))
     (\<lambda>(config4, msgs).
     Inr (response_new\<lparr>messages := msgs, attributes :=
            [(''action'', ''update_config''),
             (''owner'', hc_owner config4),
             (''lst_token'', addr_or_none (lst_token config4)),
             (''reward_dispatcher'', addr_or_none (reward_dispatcher_contract config4)),
             (''validator_registry'', addr_or_none (validators_registry_contract config4))]\<rparr>,
          s\<lparr>s_config := Some config4\<rparr>)))))))"

text \<open>The validation of the periods: both together, or each against the stored other one.\<close>

definition validate_periods :: "parameters \<Rightarrow> u64 option \<Rightarrow> u64 option \<Rightarrow> unit lst_result" where
  "validate_periods params new_epoch_length new_unstaking_period =
     (case (new_epoch_length, new_unstaking_period) of
        (Some epoch_len, Some unstake_period) \<Rightarrow>
          if MAX_EPOCH_LENGTH < epoch_len then hub_err InvalidEpochLength
          else if MAX_UNSTAKING_PERIOD < unstake_period then hub_err InvalidUnstakingPeriod
          else if unstake_period \<le> epoch_len then hub_err InvalidPeriods
          else Inr ()
      | _ \<Rightarrow>
          and_then
            (case new_epoch_length of None \<Rightarrow> Inr ()
             | Some epoch_len \<Rightarrow>
                 if MAX_EPOCH_LENGTH < epoch_len then hub_err InvalidEpochLength
                 else if unstaking_period params \<le> epoch_len then hub_err InvalidPeriods
                 else Inr ()) (\<lambda>_.
          case new_unstaking_period of None \<Rightarrow> Inr ()
          | Some unstake_period \<Rightarrow>
              if MAX_UNSTAKING_PERIOD < unstake_period then hub_err InvalidUnstakingPeriod
              else if unstake_period \<le> epoch_length params then hub_err InvalidPeriods
              else Inr ()))"

definition unwrap_or :: "'a option \<Rightarrow> 'a \<Rightarrow> 'a" where
  "unwrap_or opt a = (case opt of None \<Rightarrow> a | Some b \<Rightarrow> b)"

definition execute_update_params ::
    "message_info \<Rightarrow> bool option \<Rightarrow> u64 option \<Rightarrow> u64 option
     \<Rightarrow> hub_storage \<Rightarrow> (response \<times> hub_storage) lst_result" where
  "execute_update_params info pause new_epoch_length new_unstaking_period s =
     and_then (is_authorized_sender s (info_sender info)) (\<lambda>_.
     and_then (load_parameters s) (\<lambda>params.
     and_then (validate_periods params new_epoch_length new_unstaking_period) (\<lambda>_.
     let params' = params\<lparr>
           paused := unwrap_or pause (paused params),
           epoch_length := unwrap_or new_epoch_length (epoch_length params),
           unstaking_period := unwrap_or new_unstaking_period (unstaking_period params)\<rparr> in
     Inr (response_new\<lparr>attributes :=
            [(''action'', ''update_params''),
             (''paused'', bool_to_string (paused params')),
             (''staking_coin_denom'', staking_coin_denom params'),
             (''epoch_length'', to_string (epoch_length params')),
             (''unstaking_period'', to_string (unstaking_period params'))]\<rparr>,
          s\<lparr>s_parameters := Some params'\<rparr>))))"

section \<open>What they do\<close>

definition params_ok :: "parameters \<Rightarrow> bool" where
  "params_ok p \<longleftrightarrow> epoch_length p \<le> MAX_EPOCH_LENGTH \<and> unstaking_period p \<le> MAX_UNSTAKING_PERIOD
     \<and> epoch_length p < unstaking_period p"

lemma is_authorized_sender_Inr [outcome_simps]:
  "is_authorized_sender s a = Inr u \<longleftrightarrow> (\<exists>c. s_config s = Some c \<and> hc_owner c = a)"
  by (auto simp: is_authorized_sender_def outcome_simps)

lemma execute_update_config_InrD:
  assumes "execute_update_config d info new_owner token reg disp s = Inr (r, s')"
  obtains c c' where "s_config s = Some c" "info_sender info = hc_owner c"
    "s' = s\<lparr>s_config := Some c'\<rparr>"
    "lst_token c = lst_token c' \<or> lst_token c = None"
    "messages r = (case disp of None \<Rightarrow> [] | Some _ \<Rightarrow>
       [SetWithdrawAddress (the (reward_dispatcher_contract c'))])"
    "disp \<noteq> None \<Longrightarrow> reward_dispatcher_contract c' \<noteq> None"
    "disp = None \<Longrightarrow> reward_dispatcher_contract c' = reward_dispatcher_contract c"
proof -
  from assms obtain c c1 c2 c3 c' msgs where c: "s_config s = Some c" "info_sender info = hc_owner c"
    and 1: "(case new_owner of None \<Rightarrow> Inr c
        | Some a \<Rightarrow> and_then (to_checked_address d a) (\<lambda>a. Inr (c\<lparr>hc_owner := a\<rparr>)))
      = (Inr c1 :: hub_config lst_result)"
    and 2: "(case token of None \<Rightarrow> Inr c1
        | Some token \<Rightarrow> and_then (to_checked_address d token) (\<lambda>new_token_addr.
            case lst_token c1 of
              Some existing_token \<Rightarrow>
                if existing_token \<noteq> new_token_addr then hub_err LstTokenAlreadySet else Inr c1
            | None \<Rightarrow> Inr (c1\<lparr>lst_token := Some new_token_addr\<rparr>)))
      = (Inr c2 :: hub_config lst_result)"
    and 3: "(case reg of None \<Rightarrow> Inr c2
        | Some registry \<Rightarrow> and_then (to_checked_address d registry) (\<lambda>a.
            Inr (c2\<lparr>validators_registry_contract := Some a\<rparr>))) = (Inr c3 :: hub_config lst_result)"
    and 4: "(case disp of None \<Rightarrow> Inr (c3, [])
        | Some dispatcher \<Rightarrow> and_then (to_checked_address d dispatcher) (\<lambda>a.
            Inr (c3\<lparr>reward_dispatcher_contract := Some a\<rparr>, [SetWithdrawAddress a])))
      = (Inr (c', msgs) :: (hub_config \<times> cosmos_msg list) lst_result)"
    and s': "s' = s\<lparr>s_config := Some c'\<rparr>" "messages r = msgs"
    unfolding execute_update_config_def response_new_def by (auto simp: outcome_simps)
  have 1: "lst_token c1 = lst_token c" "reward_dispatcher_contract c1 = reward_dispatcher_contract c"
    using 1 by (auto simp: outcome_simps split: option.splits)
  have 2: "lst_token c1 = lst_token c2 \<or> lst_token c1 = None"
    "reward_dispatcher_contract c2 = reward_dispatcher_contract c1"
    using 2 by (auto simp: outcome_simps split: option.splits if_splits)
  have 3: "lst_token c3 = lst_token c2" "reward_dispatcher_contract c3 = reward_dispatcher_contract c2"
    using 3 by (auto simp: outcome_simps split: option.splits)
  have 4: "lst_token c' = lst_token c3"
    "msgs = (case disp of None \<Rightarrow> [] | Some _ \<Rightarrow> [SetWithdrawAddress (the (reward_dispatcher_contract c'))])"
    "disp \<noteq> None \<Longrightarrow> reward_dispatcher_contract c' \<noteq> None"
    "disp = None \<Longrightarrow> reward_dispatcher_contract c' = reward_dispatcher_contract c3"
    using 4 by (auto simp: outcome_simps split: option.splits)
  show ?thesis
    by (rule that [OF c s'(1)]) (use s'(2) 1 2 3 4 in auto)
qed

lemma validate_periods_Inr:
  assumes "params_ok p"
  shows "validate_periods p el up = Inr u \<longleftrightarrow> params_ok (p\<lparr>paused := b,
    epoch_length := unwrap_or el (epoch_length p), unstaking_period := unwrap_or up (unstaking_period p)\<rparr>)"
  using assms
  by (cases el; cases up)
    (auto simp: validate_periods_def params_ok_def unwrap_or_def outcome_simps split: if_splits)

lemma execute_update_params_InrD:
  assumes "execute_update_params info pause el up s = Inr (r, s')"
  obtains c p where "s_config s = Some c" "info_sender info = hc_owner c" "s_parameters s = Some p"
    "validate_periods p el up = Inr ()"
    "s' = s\<lparr>s_parameters := Some (p\<lparr>paused := unwrap_or pause (paused p),
       epoch_length := unwrap_or el (epoch_length p),
       unstaking_period := unwrap_or up (unstaking_period p)\<rparr>)\<rparr>"
  using assms by (auto simp: execute_update_params_def outcome_simps Let_def)

section \<open>Properties\<close>

text \<open>
  C34: Only the owner changes the configuration; a token that has been set is never replaced;
  nothing but the configuration changes; and a new reward dispatcher comes with exactly one
  message, which redirects the staking rewards to it.
\<close>

theorem config_update_safe:
  assumes "execute_update_config d info new_owner token reg disp s = Inr (r, s')"
    and "s_config s = Some c"
  shows "\<exists>c'. info_sender info = hc_owner c \<and> s' = s\<lparr>s_config := Some c'\<rparr>
    \<and> (lst_token c = lst_token c' \<or> lst_token c = None)
    \<and> messages r = (case disp of None \<Rightarrow> []
        | Some _ \<Rightarrow> [SetWithdrawAddress (the (reward_dispatcher_contract c'))])"
  using assms by (elim execute_update_config_InrD) auto

text \<open>
  From parameters within their bounds, the owner's update of the parameters is accepted
  exactly when the updated parameters are within the bounds (epoch length at most a week,
  unstaking period at most four weeks, the first below the second), and then it stores them;
  anybody else's update is rejected.
\<close>

theorem params_update_accepted_iff:
  assumes "s_config s = Some c" and "s_parameters s = Some p" and "params_ok p"
    and "p' = p\<lparr>paused := unwrap_or pause (paused p),
      epoch_length := unwrap_or el (epoch_length p),
      unstaking_period := unwrap_or up (unstaking_period p)\<rparr>"
  shows "if info_sender info = hc_owner c \<and> params_ok p'
    then \<exists>r. execute_update_params info pause el up s = Inr (r, s\<lparr>s_parameters := Some p'\<rparr>)
    else \<exists>err. execute_update_params info pause el up s = Inl (Err err)"
proof (cases "info_sender info = hc_owner c")
  case True
  have auth: "is_authorized_sender s (info_sender info) = Inr ()"
    using assms(1) True by (simp add: is_authorized_sender_Inr)
  show ?thesis
  proof (cases "params_ok p'")
    case valid: True
    then have "validate_periods p el up = Inr ()"
      using validate_periods_Inr [OF assms(3)] assms(4) by blast
    with auth valid True assms(2,4) show ?thesis
      by (simp add: execute_update_params_def load_parameters_def Let_def)
  next
    case False
    have "validate_periods p el up = Inr () \<or> (\<exists>err. validate_periods p el up = Inl (Err err))"
      by (simp add: validate_periods_def hub_err_def split: option.split)
    with False have "\<exists>err. validate_periods p el up = Inl (Err err)"
      using validate_periods_Inr [OF assms(3)] assms(4) by blast
    with False auth assms(2) show ?thesis
      by (auto simp: execute_update_params_def load_parameters_def)
  qed
next
  case False
  with assms(1) show ?thesis
    by (simp add: execute_update_params_def is_authorized_sender_def load_config_def
        unauthorized_def)
qed

section \<open>Witnesses\<close>

lemma config_update_safe_witness:
  "\<exists>r s'. execute_update_config sample_deps (by_user sample_owner []) None (Some sample_token) None
      (Some ''d2'') sample_hub = Inr (r, s') \<and> messages r = [SetWithdrawAddress ''d2'']"
proof -
  have run: "\<exists>r s'. execute_update_config sample_deps (by_user sample_owner []) None (Some sample_token)
      None (Some ''d2'') sample_hub = Inr (r, s')
      \<and> reward_dispatcher_contract (the (s_config s')) = Some ''d2''"
    by (simp add: execute_update_config_def is_authorized_sender_def to_checked_address_def
        storage_eval sample_defs eval_simps cong: eval_cong)
  then obtain r s' where run: "execute_update_config sample_deps (by_user sample_owner []) None
      (Some sample_token) None (Some ''d2'') sample_hub = Inr (r, s')"
    and disp: "reward_dispatcher_contract (the (s_config s')) = Some ''d2''" by blast
  from config_update_safe [OF run] disp have "messages r = [SetWithdrawAddress ''d2'']"
    by auto
  with run show ?thesis by blast
qed

lemma params_update_accepted_iff_witness:
  "(\<exists>r. execute_update_params (by_user sample_owner []) None (Some 1500) None sample_hub
      = Inr (r, sample_hub\<lparr>s_parameters := Some (sample_params\<lparr>epoch_length := 1500\<rparr>)\<rparr>))
   \<and> (\<exists>err. execute_update_params (by_user sample_owner []) None (Some 2000) None sample_hub
      = Inl (Err err))"
proof -
  have ok: "params_ok sample_params"
    by (simp add: params_ok_def sample_params_def MAX_EPOCH_LENGTH_def MAX_UNSTAKING_PERIOD_def)
  note inst = params_update_accepted_iff [OF sample_hub_items(1,2) ok refl,
      where info = "by_user sample_owner []" and pause = None and up = None]
  have "sample_params\<lparr>paused := unwrap_or None (paused sample_params),
      epoch_length := unwrap_or (Some l) (epoch_length sample_params),
      unstaking_period := unwrap_or None (unstaking_period sample_params)\<rparr>
      = sample_params\<lparr>epoch_length := l\<rparr>" for l
    by (simp add: unwrap_or_def sample_params_def)
  moreover have "params_ok (sample_params\<lparr>epoch_length := 1500\<rparr>)"
    "\<not> params_ok (sample_params\<lparr>epoch_length := 2000\<rparr>)"
    by (simp_all add: params_ok_def sample_params_def MAX_EPOCH_LENGTH_def MAX_UNSTAKING_PERIOD_def)
  moreover have "info_sender (by_user sample_owner []) = hc_owner sample_config"
    by (simp add: by_user_def sample_config_def)
  ultimately show ?thesis
    using inst [of "Some 1500"] inst [of "Some 2000"] by simp
qed

end
