(* ===== verification/Hub_Slashing.thy ===== *)
theory Hub_Slashing
  imports Sample_World
begin

text \<open>
  The part of \<open>contracts/lst_staking_hub/src/contract.rs\<close> that every other handler uses: the
  comparison of the staked amount the hub has recorded with what is delegated on the chain,
  and the exchange rate that follows from it.
\<close>

section \<open>The code\<close>

definition query_total_lst_token_issued :: "deps \<Rightarrow> hub_storage \<Rightarrow> uint128 lst_result" where
  "query_total_lst_token_issued d s =
     and_then (load_config s) (\<lambda>config.
     and_then (ok_or (lst_token config) (Hub LstTokenNotSet)) (\<lambda>token_address.
     query_std (query_token_supply d token_address)))"

text \<open>The loop that adds up the delegations in the staking denomination.\<close>

definition actual_total_staked :: "string \<Rightarrow> delegation list \<Rightarrow> uint128 lst_result" where
  "actual_total_staked staking_denom delegations =
     for_each (\<lambda>del acc.
       if coin_denom (del_amount del) = staking_denom then uadd acc (coin_amount (del_amount del))
       else Inr acc) delegations 0"

definition query_actual_state ::
    "deps \<Rightarrow> env \<Rightarrow> hub_storage \<Rightarrow> hub_state \<Rightarrow> hub_state lst_result" where
  "query_actual_state d e s st =
     and_then (query_std (query_all_delegations d (contract_address e))) (\<lambda>delegations.
     if delegations = [] then Inr st else
     and_then (load_parameters s) (\<lambda>params.
     and_then (actual_total_staked (staking_coin_denom params) delegations) (\<lambda>actual.
     and_then (get_pending_delegation_amount e s)
       (\<lambda>(pending_staked_amount, pending_unstaked_amount).
     and_then (usub (total_staked_amount st) pending_staked_amount) (\<lambda>without_pending.
     and_then (uadd without_pending pending_unstaked_amount) (\<lambda>state_total_staked.
     if state_total_staked = 0 then Inr st else
     and_then
       (if actual < state_total_staked then
          and_then (uadd actual pending_staked_amount) (\<lambda>with_pending.
          and_then (usub with_pending pending_unstaked_amount) (\<lambda>total.
          Inr (st\<lparr>total_staked_amount := total\<rparr>)))
        else Inr st) (\<lambda>st1.
     and_then (query_total_lst_token_issued d s) (\<lambda>lst_total_issued.
     and_then (load_current_batch s) (\<lambda>batch.
     update_lst_exchange_rate d st1 lst_total_issued (requested_lst_token_amount batch))))))))))"

text \<open>Returns the events, the state the caller goes on with, and the storage.\<close>

definition check_slashing ::
    "deps \<Rightarrow> env \<Rightarrow> hub_state \<Rightarrow> hub_storage
     \<Rightarrow> (event list \<times> hub_state \<times> hub_storage) lst_result" where
  "check_slashing d e st s =
     (let old_state = st in
      and_then (query_actual_state d e s st) (\<lambda>st'.
      and_then (update_state d old_state st' s) (\<lambda>(events, s').
      Inr (events, st', s'))))"

definition execute_slashing ::
    "deps \<Rightarrow> env \<Rightarrow> hub_storage \<Rightarrow> (response \<times> hub_storage) lst_result" where
  "execute_slashing d e s =
     and_then (load_state s) (\<lambda>st.
     and_then (check_slashing d e st s) (\<lambda>(evs, st', s').
     Inr (response_new\<lparr>events := evs, attributes :=
            [(''action'', ''check_slashing''),
             (''new_lst_exchange_rate'', decimal_to_string d (lst_exchange_rate st'))]\<rparr>, s')))"

section \<open>What they do\<close>

text \<open>The amount bonded on the chain, as a number.\<close>

definition bonded :: "string \<Rightarrow> delegation list \<Rightarrow> nat" where
  "bonded denom dels =
     (\<Sum>x \<leftarrow> dels. if coin_denom (del_amount x) = denom then unat (coin_amount (del_amount x)) else 0)"

lemma actual_total_staked_Inr [checked]:
  "actual_total_staked denom dels = Inr a \<longleftrightarrow> unat a = bonded denom dels"
proof -
  have "for_each (\<lambda>del acc.
       if coin_denom (del_amount del) = denom then uadd acc (coin_amount (del_amount del))
       else Inr acc) dels s = (Inr a :: uint128 lst_result)
     \<longleftrightarrow> for_each (\<lambda>x acc. uadd acc x)
        (map (\<lambda>del. coin_amount (del_amount del))
          (filter (\<lambda>del. coin_denom (del_amount del) = denom) dels)) s = (Inr a :: uint128 lst_result)" for s
    by (induction dels arbitrary: s) (auto simp: outcome_simps)
  then have "actual_total_staked denom dels = Inr a \<longleftrightarrow>
      unat a = total_of (map (\<lambda>del. coin_amount (del_amount del))
        (filter (\<lambda>del. coin_denom (del_amount del) = denom) dels))"
    by (simp add: actual_total_staked_def for_each_uadd)
  also have "total_of (map (\<lambda>del. coin_amount (del_amount del))
      (filter (\<lambda>del. coin_denom (del_amount del) = denom) dels)) = bonded denom dels"
    by (induction dels) (auto simp: bonded_def)
  finally show ?thesis .
qed

text \<open>The two shapes of a successful check: nothing to compare, or the smaller total.\<close>

lemma query_actual_state_cases:
  assumes "query_actual_state d e s st = Inr st'"
  obtains (no_delegations) "query_all_delegations d (contract_address e) = Inr []" "st' = st"
  | (nothing_staked) ps pu where "get_pending_delegation_amount e s = Inr (ps, pu)"
      "unat (total_staked_amount st) + unat pu = unat ps" "st' = st"
  | (compared) dels params ps pu issued cb total where
      "query_all_delegations d (contract_address e) = Inr dels" "dels \<noteq> []"
      "s_parameters s = Some params" "get_pending_delegation_amount e s = Inr (ps, pu)"
      "query_total_lst_token_issued d s = Inr issued" "s_current_batch s = Some cb"
      "unat ps \<le> unat (total_staked_amount st)"
      "unat (total_staked_amount st) - unat ps + unat pu < 2 ^ 128"
      "bonded (staking_coin_denom params) dels < 2 ^ 128"
      "unat (total_staked_amount st) + unat pu \<noteq> unat ps"
      "unat total = min (unat (total_staked_amount st))
         (bonded (staking_coin_denom params) dels + unat ps - unat pu)"
      "update_lst_exchange_rate d (st\<lparr>total_staked_amount := total\<rparr>) issued
         (requested_lst_token_amount cb) = Inr st'"
proof -
  from assms obtain dels where dels: "query_all_delegations d (contract_address e) = Inr dels"
    and body: "dels = [] \<and> st' = st \<or> dels \<noteq> []"
    by (auto simp: query_actual_state_def outcome_simps split: if_splits)
  show ?thesis
  proof (cases "dels = []")
    case True
    with body dels show ?thesis by (intro no_delegations) simp_all
  next
    case False
    from assms dels False obtain params and actual :: uint128 and ps pu without total0 :: uint128 where
      params: "s_parameters s = Some params"
      and actual: "unat actual = bonded (staking_coin_denom params) dels"
      and pending: "get_pending_delegation_amount e s = Inr (ps, pu)"
      and without: "unat (total_staked_amount st) = unat ps + unat without"
      and total0: "unat total0 = unat without + unat pu"
      and rest: "(if total0 = 0 then Inr st else and_then
       (if actual < total0 then
          and_then (uadd actual ps) (\<lambda>with_pending.
          and_then (usub with_pending pu) (\<lambda>total.
          Inr (st\<lparr>total_staked_amount := total\<rparr>)))
        else Inr st) (\<lambda>st1.
       and_then (query_total_lst_token_issued d s) (\<lambda>lst_total_issued.
       and_then (load_current_batch s) (\<lambda>batch.
       update_lst_exchange_rate d st1 lst_total_issued (requested_lst_token_amount batch)))))
         = (Inr st' :: hub_state lst_result)"
      by (auto simp: query_actual_state_def outcome_simps checked split: prod.splits)
    show ?thesis
    proof (cases "total0 = 0")
      case True
      with rest pending without total0 show ?thesis by (intro nothing_staked [of ps pu]) simp_all
    next
      case False
      with rest obtain st1 issued cb where
        st1: "(if actual < total0 then
            and_then (uadd actual ps) (\<lambda>with_pending.
            and_then (usub with_pending pu) (\<lambda>total.
            Inr (st\<lparr>total_staked_amount := total\<rparr>))) else Inr st) = (Inr st1 :: hub_state lst_result)"
        and issued: "query_total_lst_token_issued d s = Inr issued"
        and cb: "s_current_batch s = Some cb"
        and rate: "update_lst_exchange_rate d st1 issued (requested_lst_token_amount cb) = Inr st'"
        by (auto simp: outcome_simps)
      have "unat total0 \<noteq> 0" using False by (simp add: unat_eq_zero)
      obtain total where "st1 = st\<lparr>total_staked_amount := total\<rparr>"
        and "unat total = min (unat (total_staked_amount st))
          (bonded (staking_coin_denom params) dels + unat ps - unat pu)"
      proof (cases "actual < total0")
        case True
        with st1 obtain total where "st1 = st\<lparr>total_staked_amount := total\<rparr>"
          and "unat pu + unat total = unat actual + unat ps"
          by (auto simp: outcome_simps checked)
        with True show ?thesis
          using that [of total] without total0 actual by (simp add: word_less_nat_alt)
      next
        case False
        then have "unat (total_staked_amount st) = min (unat (total_staked_amount st))
            (bonded (staking_coin_denom params) dels + unat ps - unat pu)"
          using without total0 actual by (simp add: word_less_nat_alt)
        with st1 False show ?thesis
          using that [of "total_staked_amount st"] by simp
      qed
      with compared [OF dels \<open>dels \<noteq> []\<close> params pending issued cb] rate without total0
        \<open>unat total0 \<noteq> 0\<close> actual unat_less128 [of actual] unat_less128 [of total0] show ?thesis
        by simp
    qed
  qed
qed

text \<open>Only the rate and the staked total can change.\<close>

lemma query_actual_state_frame:
  assumes "query_actual_state d e s st = Inr st'"
  obtains total rate where "st' = st\<lparr>total_staked_amount := total, lst_exchange_rate := rate\<rparr>"
    and "unat total \<le> unat (total_staked_amount st)"
  using assms
proof (cases rule: query_actual_state_cases)
  case no_delegations
  then show ?thesis
    using that [of "lst_exchange_rate st" "total_staked_amount st"] by simp
next
  case nothing_staked
  then show ?thesis
    using that [of "lst_exchange_rate st" "total_staked_amount st"] by simp
next
  case (compared dels params ps pu issued cb total)
  from update_lst_exchange_rate_InrD [OF compared(12)] obtain rate
    where "st' = st\<lparr>total_staked_amount := total, lst_exchange_rate := rate\<rparr>"
    by auto
  with compared(11) show ?thesis by (intro that) auto
qed

lemma check_slashing_InrD:
  assumes "check_slashing d e st s = Inr (evs, st', s')"
  shows "query_actual_state d e s st = Inr st'" and "s' = s\<lparr>s_state := Some st'\<rparr>"
    and "update_state d st st' s = Inr (evs, s')"
  using assms by (auto simp: check_slashing_def outcome_simps)

lemma execute_slashing_InrD:
  assumes "execute_slashing d e s = Inr (r, s')"
  obtains st st' where "s_state s = Some st" "query_actual_state d e s st = Inr st'"
    "s' = s\<lparr>s_state := Some st'\<rparr>"
  using assms check_slashing_InrD(1,2) by (fastforce simp: execute_slashing_def outcome_simps)

text \<open>The check reads neither the state item nor the wait list nor the history.\<close>

lemma query_actual_state_cong:
  assumes "s_config s = s_config t" "s_parameters s = s_parameters t"
    "s_current_batch s = s_current_batch t" "s_pending_delegation s = s_pending_delegation t"
  shows "query_actual_state d e s st = query_actual_state d e t st"
proof -
  have "load_config s = load_config t" "load_parameters s = load_parameters t"
    "load_current_batch s = load_current_batch t"
    "load_pending_delegation s = load_pending_delegation t"
    using assms by (simp_all add: load_defs)
  then have "query_total_lst_token_issued d s = query_total_lst_token_issued d t"
    "get_pending_delegation_amount e s = get_pending_delegation_amount e t"
    by (simp_all only: query_total_lst_token_issued_def get_pending_delegation_amount_def)
  then show ?thesis
    unfolding query_actual_state_def \<open>load_parameters s = _\<close> \<open>load_current_batch s = _\<close>
    by (simp only:)
qed

text \<open>Computation of the check when the chain holds at least what is recorded.\<close>

lemma query_actual_state_no_slash:
  assumes "query_all_delegations d (contract_address e) = Inr dels" "dels \<noteq> []"
    and "s_parameters s = Some params" and "get_pending_delegation_amount e s = Inr (ps, pu)"
    and "query_total_lst_token_issued d s = Inr issued" and "s_current_batch s = Some cb"
    and "unat ps \<le> unat (total_staked_amount st)"
    and "unat (total_staked_amount st) - unat ps + unat pu < 2 ^ 128"
    and "bonded (staking_coin_denom params) dels < 2 ^ 128"
    and "unat (total_staked_amount st) - unat ps + unat pu \<le> bonded (staking_coin_denom params) dels"
  shows "query_actual_state d e s st = (if unat (total_staked_amount st) + unat pu = unat ps then Inr st
    else update_lst_exchange_rate d st issued (requested_lst_token_amount cb))"
proof -
  have actual: "actual_total_staked (staking_coin_denom params) dels
      = Inr (of_nat (bonded (staking_coin_denom params) dels))"
    using assms(9) by (simp add: actual_total_staked_Inr unat_of_nat)
  let ?w = "total_staked_amount st - ps"
  have le: "ps \<le> total_staked_amount st" using assms(7) by (simp add: word_le_nat_alt)
  have w: "unat ?w = unat (total_staked_amount st) - unat ps" using le by (rule unat_sub_exact)
  have fits: "unat ?w + unat pu < 2 ^ LENGTH(128)" using assms(8) w by simp
  have sum: "unat (?w + pu) = unat (total_staked_amount st) - unat ps + unat pu"
    using unat_add_exact [OF fits] w by simp
  have zero: "?w + pu = 0 \<longleftrightarrow> unat (total_staked_amount st) + unat pu = unat ps"
  proof -
    have "unat (?w + pu) = 0 \<longleftrightarrow> unat (total_staked_amount st) + unat pu = unat ps"
      unfolding sum using assms(7) by linarith
    then show ?thesis by (simp add: unat_eq_zero)
  qed
  have noslash: "\<not> of_nat (bonded (staking_coin_denom params) dels) < ?w + pu"
    using sum assms(9,10) by (simp add: word_less_nat_alt unat_of_nat)
  show ?thesis
    using assms(1-6) fits zero noslash actual
    by (simp add: query_actual_state_def query_std_def from_err_def load_parameters_def
        load_current_batch_def usub_fits [OF le] uadd_def)
qed

text \<open>With nothing to compare, a check that succeeds once does so whatever the supply is.\<close>

lemma query_actual_state_nothing:
  assumes "query_actual_state d e s st = Inr st'"
    and "query_all_delegations d (contract_address e) = Inr dels"
    and "get_pending_delegation_amount e s = Inr (ps, pu)"
    and "dels = [] \<or> unat (total_staked_amount st) + unat pu = unat ps"
    and "query_all_delegations d' = query_all_delegations d" "s_parameters t = s_parameters s"
    and "get_pending_delegation_amount e t = get_pending_delegation_amount e s"
  shows "query_actual_state d' e t st = Inr st"
proof (cases "dels = []")
  case True
  then show ?thesis using assms(2,5)
    by (simp add: query_actual_state_def query_std_def from_err_def)
next
  case False
  with assms(1-3) obtain params and actual without total0 :: uint128 where
    run: "s_parameters s = Some params"
      "actual_total_staked (staking_coin_denom params) dels = Inr actual"
      "usub (total_staked_amount st) ps = (Inr without :: uint128 lst_result)"
      "uadd without pu = (Inr total0 :: uint128 lst_result)"
    by (auto simp: query_actual_state_def outcome_simps)
  have "unat total0 = 0"
    using run(3,4) assms(4) False by (auto simp: checked)
  then show ?thesis
    using run assms(2,3,5-7)
    by (simp add: query_actual_state_def query_std_def from_err_def load_parameters_def unat_eq_zero)
qed

lemma update_lst_exchange_rate_again:
  assumes "update_lst_exchange_rate d st issued requested = Inr st'"
  shows "update_lst_exchange_rate d st' issued requested = Inr st'"
  using assms by (auto simp: update_lst_exchange_rate_def outcome_simps split: if_splits)

section \<open>Properties\<close>

text \<open>
  C18: The slashing check in full. When the hub has no delegations, or nothing is recorded
  besides what is still pending, it leaves the state as it is. Otherwise it sets the recorded
  stake to the smaller of what was recorded and what the chain still holds (its delegations,
  plus what is staked but not yet delegated, minus what is unstaked but not yet undelegated),
  never to a larger value, and the exchange rate to that stake divided by the tokens in
  circulation and in the open batch, rounded down, or to one when either is zero. In every case
  nothing else of the state and of the storage changes.
\<close>

theorem slashing_check_exact:
  assumes "decimal_ratio_law d"
    and "query_all_delegations d (contract_address e) = Inr dels"
    and "s_parameters s = Some params" and "get_pending_delegation_amount e s = Inr (ps, pu)"
    and "query_total_lst_token_issued d s = Inr issued" and "s_current_batch s = Some cb"
    and "check_slashing d e st s = Inr (evs, st', s')"
  shows "s' = s\<lparr>s_state := Some st'\<rparr>
    \<and> (if dels = [] \<or> unat (total_staked_amount st) + unat pu = unat ps then st' = st
       else unat (total_staked_amount st') = min (unat (total_staked_amount st))
              (bonded (staking_coin_denom params) dels + unat ps - unat pu)
          \<and> unat (atomics (lst_exchange_rate st')) =
              (let supply = unat issued + unat (requested_lst_token_amount cb) in
               if total_staked_amount st' = 0 \<or> supply = 0 then 10 ^ 18
               else unat (total_staked_amount st') * 10 ^ 18 div supply)
          \<and> st' = st\<lparr>total_staked_amount := total_staked_amount st',
              lst_exchange_rate := lst_exchange_rate st'\<rparr>)"
proof -
  note q = check_slashing_InrD [OF assms(7)]
  from q(1) show ?thesis
  proof (cases rule: query_actual_state_cases)
    case (compared dels' params' ps' pu' issued' cb' total)
    with assms have same: "dels' = dels" "params' = params" "ps' = ps" "pu' = pu" "issued' = issued"
      "cb' = cb"
      by simp_all
    obtain rate where st': "st' = st\<lparr>total_staked_amount := total, lst_exchange_rate := rate\<rparr>"
      using update_lst_exchange_rate_InrD [OF compared(12)] by auto
    have "unat (total_staked_amount st') = min (unat (total_staked_amount st))
        (bonded (staking_coin_denom params) dels + unat ps - unat pu)"
      using compared(11) unfolding same st' by simp
    moreover have "unat (atomics (lst_exchange_rate st')) =
        (let supply = unat issued + unat (requested_lst_token_amount cb) in
         if total_staked_amount st' = 0 \<or> supply = 0 then 10 ^ 18
         else unat (total_staked_amount st') * 10 ^ 18 div supply)"
      using update_lst_exchange_rate_value [OF assms(1) compared(12)] st' unfolding same Let_def
      by (simp add: unat_eq_zero)
    ultimately show ?thesis
      using q(2) st' compared(2,10) unfolding same by simp
  qed (use assms q(2) in auto)
qed

text \<open>
  C35: The slashing check is idempotent: when the hub has no delegations, or no more is waiting to
  be undelegated than the chain still holds, a successful check run again in the same block, with
  the same answers from the chain, succeeds and changes nothing. (The proviso is needed: without
  it the second run can fail on an underflow.)
\<close>

theorem slashing_check_idempotent:
  assumes "check_slashing d e st s = Inr (evs, st', s')"
    and "query_all_delegations d (contract_address e) = Inr dels"
    and "s_parameters s = Some params" and "get_pending_delegation_amount e s = Inr (ps, pu)"
    and "dels = [] \<or> unat pu \<le> bonded (staking_coin_denom params) dels"
  shows "\<exists>evs'. check_slashing d e st' s' = Inr (evs', st', s')"
proof -
  note q = check_slashing_InrD [OF assms(1)]
  have cong: "query_actual_state d e s' st' = query_actual_state d e s st'"
    unfolding q(2) by (rule query_actual_state_cong) simp_all
  have "query_actual_state d e s st' = Inr st'"
    using q(1)
  proof (cases rule: query_actual_state_cases)
    case (compared dels' params' ps' pu' issued cb total)
    with assms have same: "dels' = dels" "params' = params" "ps' = ps" "pu' = pu"
      by simp_all
    have total: "total_staked_amount st' = total"
      using update_lst_exchange_rate_InrD [OF compared(12)] by auto
    have "query_actual_state d e s st' = (if unat (total_staked_amount st') + unat pu = unat ps
        then Inr st' else update_lst_exchange_rate d st' issued (requested_lst_token_amount cb))"
      using compared(1-6,7,8,9,11) assms(5) unfolding same
      by (intro query_actual_state_no_slash) (auto simp: total)
    then show ?thesis
      using update_lst_exchange_rate_again [OF compared(12)] by simp
  qed (use q(1) in simp_all)
  then show ?thesis
    using q(2) by (simp add: check_slashing_def cong [unfolded q(2)] update_state_def)
qed

section \<open>Witnesses\<close>

lemmas slashing_eval = query_actual_state_def query_total_lst_token_issued_def
  actual_total_staked_def get_pending_delegation_amount_def update_lst_exchange_rate_def
  check_slashing_def update_state_def decimal_one_def

lemma pending_sample_hub: "get_pending_delegation_amount now sample_hub = Inr (0, 0)"
  by (simp add: get_pending_delegation_amount_def storage_eval sample_defs eval_simps
      cong: eval_cong)

lemma bonded_sample: "query_all_delegations sample_deps (contract_address now) =
    Inr [\<lparr>del_validator = ''val1'', del_amount = bbn 500\<rparr>, \<lparr>del_validator = ''val2'', del_amount = bbn 400\<rparr>]"
  "bonded ''ubbn'' [\<lparr>del_validator = ''val1'', del_amount = bbn 500\<rparr>,
     \<lparr>del_validator = ''val2'', del_amount = bbn 400\<rparr>] = 900"
  by (simp_all add: sample_deps_def bonded_def bbn_def)

lemma denom_sample: "staking_coin_denom sample_params = ''ubbn''"
  by (simp add: sample_params_def)

lemma query_sample: "query_actual_state sample_deps now sample_hub sample_state =
    Inr (sample_state\<lparr>total_staked_amount := 900, lst_exchange_rate := Decimal 900000000000000000\<rparr>)"
  by (simp add: slashing_eval storage_eval sample_defs eval_simps cong: eval_cong)

lemma slashing_sample:
  "\<exists>evs. check_slashing sample_deps now sample_state sample_hub = Inr (evs,
     sample_state\<lparr>total_staked_amount := 900, lst_exchange_rate := Decimal 900000000000000000\<rparr>,
     sample_hub\<lparr>s_state := Some (sample_state\<lparr>total_staked_amount := 900,
       lst_exchange_rate := Decimal 900000000000000000\<rparr>)\<rparr>)"
  by (simp add: check_slashing_def query_sample update_state_def)

lemma slashing_check_exact_witness:
  "\<exists>evs st' s'. check_slashing sample_deps now sample_state sample_hub = Inr (evs, st', s')
     \<and> unat (total_staked_amount st') = min 1000 900
     \<and> unat (atomics (lst_exchange_rate st')) = 900 * 10 ^ 18 div (900 + 100)"
proof -
  from slashing_sample obtain evs st' s'
    where run: "check_slashing sample_deps now sample_state sample_hub = Inr (evs, st', s')"
    by blast
  have "query_total_lst_token_issued sample_deps sample_hub = Inr 900"
    by (simp add: query_total_lst_token_issued_def storage_eval sample_defs eval_simps cong: eval_cong)
  note result = slashing_check_exact [OF sample_laws(1) bonded_sample(1) sample_hub_items(2)
      pending_sample_hub this _ run]
  have total: "unat (total_staked_amount sample_state) = 1000"
    by (simp add: sample_state_def)
  have "unat (total_staked_amount st') = min 1000 900"
    using result unfolding denom_sample bonded_sample(2) by (simp add: total)
  moreover from this have "total_staked_amount st' \<noteq> 0"
    by auto
  ultimately have "unat (total_staked_amount st') = min 1000 900
     \<and> unat (atomics (lst_exchange_rate st')) = 900 * 10 ^ 18 div (900 + 100)"
    using result unfolding denom_sample bonded_sample(2) by (simp add: total sample_batch_def)
  with run show ?thesis by blast
qed

lemma slashing_check_idempotent_witness:
  "\<exists>evs evs' st' s'. check_slashing sample_deps now sample_state sample_hub = Inr (evs, st', s')
     \<and> check_slashing sample_deps now st' s' = Inr (evs', st', s')"
proof -
  from slashing_sample obtain evs st' s'
    where run: "check_slashing sample_deps now sample_state sample_hub = Inr (evs, st', s')"
    by blast
  with slashing_check_idempotent [OF run bonded_sample(1) sample_hub_items(2) pending_sample_hub]
  show ?thesis by auto
qed

end
