(* ===== verification/Delegation.thy ===== *)
theory Delegation
  imports Common_Types
begin

text \<open>
  \<open>packages/lst_common/src/delegation.rs\<close>: how an amount is split over the validators when it
  is delegated (\<open>calculate_delegations\<close>) or undelegated (\<open>calculate_undelegations\<close>). Both are
  shown to compute the greedy filling of per-validator capacities, in particular that the
  \<open>while\<close> loop of the second ends after one round; the locale \<open>splitter\<close> states what their
  callers rely on.
\<close>

section \<open>The code\<close>

text \<open>
  \<open>validators as u128\<close> is lossless (a length fits in \<open>usize\<close>), so the divisor is kept as the
  number of validators; \<open>/\<close> and \<open>%\<close> panic when it is 0.
\<close>

definition distribute_coins :: "uint128 \<Rightarrow> nat \<Rightarrow> (uint128 \<times> uint128) lst_result" where
  "distribute_coins coins_to_distribute validators =
     (let val_count = validators in
      if val_count = 0 then Inl (Panic DivisionByZero) else
      Inr (of_nat (unat coins_to_distribute div val_count),
           of_nat (unat coins_to_distribute mod val_count)))"

text \<open>The closure mapped over the enumerated validators; \<open>index\<close> counts from 0.\<close>

fun target_coins_from ::
    "nat \<Rightarrow> uint128 \<Rightarrow> uint128 \<Rightarrow> validator_response list \<Rightarrow> uint128 list lst_result" where
  "target_coins_from index coins_per_val remaining_coins [] = Inr []"
| "target_coins_from index coins_per_val remaining_coins (_ # vs) =
     (let extra_coin = (if index + 1 \<le> unat remaining_coins then 1 else 0) in
      and_then (uadd coins_per_val extra_coin) (\<lambda>t.
      and_then (target_coins_from (Suc index) coins_per_val remaining_coins vs) (\<lambda>ts.
      Inr (t # ts))))"

definition target_coins_per_validator ::
    "uint128 \<Rightarrow> uint128 \<Rightarrow> validator_response list \<Rightarrow> uint128 list lst_result" where
  "target_coins_per_validator coins_per_val remaining_coins validators =
     target_coins_from 0 coins_per_val remaining_coins validators"

text \<open>The \<open>for\<close> loop of \<open>calculate_delegations\<close> over the enumerated pairs.\<close>

fun delegate_loop ::
    "nat \<Rightarrow> (validator_response \<times> uint128) list \<Rightarrow> uint128 \<Rightarrow> uint128 list
     \<Rightarrow> uint128 list lst_result" where
  "delegate_loop index [] amt_to_delegate delegations = validator_err DistributionFailed"
| "delegate_loop index ((v, target_delegation) # rest) amt_to_delegate delegations =
     (let val_current_delegation = total_delegated v in
      if target_delegation < val_current_delegation
      then delegate_loop (Suc index) rest amt_to_delegate delegations
      else
      and_then (usub target_delegation val_current_delegation) (\<lambda>to_delegate0.
      let to_delegate =
            (if amt_to_delegate < to_delegate0 then amt_to_delegate else to_delegate0) in
      and_then (vec_set delegations index to_delegate) (\<lambda>delegations'.
      and_then (checked_sub_or_overflow amt_to_delegate to_delegate) (\<lambda>amt'.
      if amt' = 0 then Inr delegations'
      else delegate_loop (Suc index) rest amt' delegations'))))"

definition calculate_delegations ::
    "uint128 \<Rightarrow> validator_response list \<Rightarrow> uint128 list lst_result" where
  "calculate_delegations amt_to_delegate validators =
     (if validators = [] then validator_err EmptyValidatorSet else
      and_then (usum (map total_delegated validators)) (\<lambda>total_delegated_sum.
      and_then (uadd total_delegated_sum amt_to_delegate) (\<lambda>total_coins_to_distribute.
      and_then (distribute_coins total_coins_to_distribute (length validators))
        (\<lambda>(coins_per_val, remaining_coins).
      and_then (target_coins_per_validator coins_per_val remaining_coins validators)
        (\<lambda>target_delegations.
      delegate_loop 0 (zip validators target_delegations) amt_to_delegate
        (replicate (length validators) 0))))))"

text \<open>
  One pass of the \<open>for\<close> loop of \<open>calculate_undelegations\<close>: it either returns from the
  function (\<open>Returned\<close>) or runs to its end with the mutated variables (\<open>Continue\<close>): the
  amount left, the running total, the validators and the undelegations.
\<close>

datatype undelegate_pass =
    Returned "uint128 list"
  | Continue uint128 uint128 "validator_response list" "uint128 list"

fun undelegate_for ::
    "nat \<Rightarrow> (validator_response \<times> uint128) list \<Rightarrow> uint128 \<Rightarrow> uint128
     \<Rightarrow> validator_response list \<Rightarrow> uint128 list \<Rightarrow> undelegate_pass lst_result" where
  "undelegate_for index [] amt tot vs undelegations = Inr (Continue amt tot vs undelegations)"
| "undelegate_for index ((v, target) # rest) amt tot vs undelegations =
     and_then (checked_sub_or_overflow (total_delegated v) (min target (total_delegated v)))
       (\<lambda>to_undelegate0.
      let to_undelegate = (if amt < to_undelegate0 then amt else to_undelegate0) in
      and_then (vec_get undelegations index) (\<lambda>u0.
      and_then (checked_add (Overflow OverflowAdd) u0 to_undelegate) (\<lambda>u.
      and_then (vec_set undelegations index u) (\<lambda>undelegations'.
      and_then (checked_sub_or_overflow amt to_undelegate) (\<lambda>amt'.
      and_then (checked_sub_or_overflow tot to_undelegate) (\<lambda>tot'.
      and_then (checked_sub_or_overflow (total_delegated v) to_undelegate) (\<lambda>d'.
      and_then (vec_set vs index (v\<lparr>total_delegated := d'\<rparr>)) (\<lambda>vs'.
      if amt' = 0 then Inr (Returned undelegations')
      else undelegate_for (Suc index) rest amt' tot' vs' undelegations'))))))))"

text \<open>One iteration of the \<open>while\<close> loop.\<close>

definition undelegate_round ::
    "uint128 \<Rightarrow> uint128 \<Rightarrow> validator_response list \<Rightarrow> uint128 list
     \<Rightarrow> undelegate_pass lst_result" where
  "undelegate_round amt tot validators undelegations =
     and_then (checked_sub_or_overflow tot amt) (\<lambda>total_after.
     and_then (distribute_coins total_after (length validators))
       (\<lambda>(coins_per_val, remaining_coins).
     and_then (target_coins_per_validator coins_per_val remaining_coins validators) (\<lambda>targets.
     undelegate_for 0 (zip validators targets) amt tot validators undelegations)))"

text \<open>The \<open>while\<close> loop itself; \<open>None\<close> is a loop that does not end.\<close>

partial_function (option) undelegate_while ::
    "uint128 \<Rightarrow> uint128 \<Rightarrow> validator_response list \<Rightarrow> uint128 list
     \<Rightarrow> uint128 list lst_result option" where
  "undelegate_while amt tot validators undelegations =
     (if amt = 0 then Some (validator_err DistributionFailed)
      else case undelegate_round amt tot validators undelegations of
             Inl f \<Rightarrow> Some (Inl f)
           | Inr pass \<Rightarrow>
               (case pass of
                  Returned us \<Rightarrow> Some (Inr us)
                | Continue amt' tot' validators' us \<Rightarrow>
                    undelegate_while amt' tot' validators' us))"

declare undelegate_while.simps [code]

definition calculate_undelegations ::
    "uint128 \<Rightarrow> validator_response list \<Rightarrow> uint128 list lst_result" where
  "calculate_undelegations amt_to_undelegate validators =
     (if validators = [] then validator_err EmptyValidatorSet else
      and_then (usum (map total_delegated validators)) (\<lambda>total_delegated_sum.
      if total_delegated_sum < amt_to_undelegate then validator_err ExceedUndelegation else
      case undelegate_while amt_to_undelegate total_delegated_sum validators
             (replicate (length validators) 0) of
        None \<Rightarrow> Inl (Panic NoReturn)
      | Some res \<Rightarrow> res))"

section \<open>Reference definitions\<close>

text \<open>Fill capacities from the left until the amount is used up.\<close>

fun greedy :: "nat list \<Rightarrow> nat \<Rightarrow> nat list" where
  "greedy [] amt = []"
| "greedy (c # cs) amt = min c amt # greedy cs (amt - min c amt)"

lemma length_greedy [simp]: "length (greedy cs amt) = length cs"
  by (induction cs arbitrary: amt) auto

lemma sum_greedy: "sum_list (greedy cs amt) = min (sum_list cs) amt"
  by (induction cs arbitrary: amt) auto

lemma greedy_le: "i < length cs \<Longrightarrow> greedy cs amt ! i \<le> cs ! i"
  by (induction cs arbitrary: amt i) (auto simp: nth_Cons split: nat.splits)

lemma greedy_full: "sum_list cs \<le> amt \<Longrightarrow> greedy cs amt = cs"
  by (induction cs arbitrary: amt) auto

lemma greedy_zero [simp]: "greedy cs 0 = replicate (length cs) 0"
  by (induction cs) auto

text \<open>The even split of \<open>tot\<close> coins over \<open>n\<close> validators: the first \<open>tot mod n\<close> get one more.\<close>

definition even_share :: "nat \<Rightarrow> nat \<Rightarrow> nat \<Rightarrow> nat" where
  "even_share tot n i = tot div n + (if i < tot mod n then 1 else 0)"

definition even_shares :: "nat \<Rightarrow> nat \<Rightarrow> nat list" where
  "even_shares tot n = map (even_share tot n) [0..<n]"

lemma length_even_shares [simp]: "length (even_shares tot n) = n"
  by (simp add: even_shares_def)

lemma sum_even_shares: "0 < n \<Longrightarrow> sum_list (even_shares tot n) = tot"
proof -
  assume n: "0 < n"
  have "(\<Sum>i<n. if i < tot mod n then 1 else (0::nat)) = card {i. i < n \<and> i < tot mod n}"
    by (simp add: sum.If_cases Collect_conj_eq lessThan_def)
  also have "{i. i < n \<and> i < tot mod n} = {..<tot mod n}"
    using n by (auto intro: less_trans)
  finally have "(\<Sum>i<n. if i < tot mod n then 1 else (0::nat)) = tot mod n"
    by simp
  then have "(\<Sum>i<n. even_share tot n i) = n * (tot div n) + tot mod n"
    by (simp add: even_share_def sum.distrib)
  also have "\<dots> = tot"
    by simp
  finally show ?thesis
    by (simp add: even_shares_def interv_sum_list_conv_sum_set_nat atLeast0LessThan)
qed

lemma even_share_balanced: "even_share tot n i \<le> even_share tot n j + 1"
  by (simp add: even_share_def)

section \<open>The targets are the even shares\<close>

lemma target_coins_from_spec:
  "(\<And>i. i < length vs \<Longrightarrow> unat q + (if index + i < unat r then 1 else 0) < 2 ^ 128)
   \<Longrightarrow> \<exists>ts. target_coins_from index q r vs = Inr ts
        \<and> map unat ts = map (\<lambda>i. unat q + (if index + i < unat r then 1 else 0)) [0..<length vs]"
proof (induction vs arbitrary: index)
  case Nil
  then show ?case by simp
next
  case (Cons v vs)
  have "unat q + (if Suc index + i < unat r then 1 else 0) < 2 ^ 128" if "i < length vs" for i
    using Cons.prems [of "Suc i"] that by simp
  then obtain ts where ts: "target_coins_from (Suc index) q r vs = Inr ts"
    "map unat ts = map (\<lambda>i. unat q + (if Suc index + i < unat r then 1 else 0)) [0..<length vs]"
    using Cons.IH by blast
  let ?e = "if index + 1 \<le> unat r then 1 else (0 :: uint128)"
  have e: "unat ?e = (if index < unat r then 1 else 0)" by simp
  have fits: "unat q + unat ?e < 2 ^ LENGTH(128)"
    using Cons.prems [of 0] unfolding e by simp
  have idx: "[0..<length (v # vs)] = 0 # map Suc [0..<length vs]"
    by (simp add: map_Suc_upt upt_conv_Cons del: upt_Suc)
  have "target_coins_from index q r (v # vs) = Inr ((q + ?e) # ts)"
    unfolding target_coins_from.simps Let_def uadd_fits [OF fits] ts(1) by simp
  moreover have "map unat ((q + ?e) # ts)
      = map (\<lambda>i. unat q + (if index + i < unat r then 1 else 0)) [0..<length (v # vs)]"
    using unat_add_exact [OF fits] ts(2) unfolding idx by (simp add: e)
  ultimately show ?case by blast
qed

lemma even_share_le: "i < n \<Longrightarrow> even_share tot n i \<le> tot"
  using member_le_sum_list [of "even_share tot n i" "even_shares tot n"] sum_even_shares [of n tot]
  by (auto simp: even_shares_def)

lemma distribute_coins_spec:
  assumes "0 < n"
  shows "\<exists>q r. distribute_coins tot n = Inr (q, r)
    \<and> unat q = unat tot div n \<and> unat r = unat tot mod n"
proof -
  have "unat tot div n < 2 ^ 128" "unat tot mod n < 2 ^ 128"
    by (rule le_less_trans [OF _ unat_less128 [of tot]], simp)+
  then show ?thesis
    using assms by (simp add: distribute_coins_def unat_of_nat)
qed

lemma targets_spec:
  assumes "vs \<noteq> []"
    and "unat q = unat (tot :: uint128) div length vs" "unat r = unat tot mod length vs"
  shows "\<exists>ts. target_coins_per_validator q r vs = Inr ts
    \<and> map unat ts = even_shares (unat tot) (length vs)"
proof -
  have share: "unat q + (if i < unat r then 1 else 0) = even_share (unat tot) (length vs) i" for i
    using assms by (simp add: even_share_def)
  have "unat q + (if 0 + i < unat r then 1 else 0) < 2 ^ 128" if "i < length vs" for i
    using even_share_le [OF that, of "unat tot"] unat_less128 [of tot] share [of i] by simp
  then show ?thesis
    using target_coins_from_spec [of vs q 0 r]
    by (simp add: target_coins_per_validator_def even_shares_def share)
qed

section \<open>Delegation is greedy filling\<close>

text \<open>What is missing to an even distribution, validator by validator, and what is above it.\<close>

definition deficits :: "nat \<Rightarrow> validator_response list \<Rightarrow> nat list" where
  "deficits tot vs =
     map2 (\<lambda>v s. s - unat (total_delegated v)) vs (even_shares tot (length vs))"

definition surpluses :: "nat \<Rightarrow> validator_response list \<Rightarrow> nat list" where
  "surpluses tot vs =
     map2 (\<lambda>v s. unat (total_delegated v) - s) vs (even_shares tot (length vs))"

definition delegated :: "validator_response list \<Rightarrow> nat" where
  "delegated vs = total_of (map total_delegated vs)"

lemma sum_deficits_aux:
  "length vs = length ss \<Longrightarrow>
   sum_list ss - delegated vs \<le> sum_list (map2 (\<lambda>v s. s - unat (total_delegated v)) vs ss)"
  by (induction vs ss rule: list_induct2) (auto simp: delegated_def)

lemma sum_surpluses_aux:
  "length vs = length ss \<Longrightarrow>
   delegated vs - sum_list ss \<le> sum_list (map2 (\<lambda>v s. unat (total_delegated v) - s) vs ss)"
  by (induction vs ss rule: list_induct2) (auto simp: delegated_def)

lemma sum_deficits: "vs \<noteq> [] \<Longrightarrow> tot - delegated vs \<le> sum_list (deficits tot vs)"
  using sum_deficits_aux [of vs "even_shares tot (length vs)"]
  by (simp add: deficits_def sum_even_shares)

lemma sum_surpluses: "vs \<noteq> [] \<Longrightarrow> delegated vs - tot \<le> sum_list (surpluses tot vs)"
  using sum_surpluses_aux [of vs "even_shares tot (length vs)"]
  by (simp add: surpluses_def sum_even_shares)

lemma delegate_loop_skip:
  "t < total_delegated v \<Longrightarrow>
   delegate_loop (length pre) ((v, t) # vts) amt (pre @ 0 # zs)
     = delegate_loop (length (pre @ [0])) vts amt ((pre @ [0]) @ zs)"
  by simp

lemma delegate_loop_take:
  assumes "\<not> t < total_delegated v" and "d = min amt (t - total_delegated v)"
  shows "delegate_loop (length pre) ((v, t) # vts) amt (pre @ 0 # zs)
     = (if amt - d = 0 then Inr ((pre @ [d]) @ zs)
        else delegate_loop (length (pre @ [d])) vts (amt - d) ((pre @ [d]) @ zs))"
proof -
  have d: "(if amt < t - total_delegated v then amt else t - total_delegated v) = d"
    using assms(2) by (auto simp: min_def)
  have room: "usub t (total_delegated v) = (Inr (t - total_delegated v) :: uint128 lst_result)"
    by (rule usub_fits [OF leI [OF assms(1)]])
  have left: "checked_sub_or_overflow amt d = Inr (amt - d)"
    using assms(2) by (simp add: checked_sub_or_overflow_def checked_sub_fits)
  show ?thesis
    unfolding delegate_loop.simps Let_def room and_then_simps d
    using assms(1) by (simp add: vec_set_def left)
qed

lemma unat_min: "unat (min a (b :: 'n::len word)) = min (unat a) (unat b)"
  by (auto simp: min_def word_le_nat_alt)

lemma positive_room:
  assumes "0 < (\<Sum>(v, t) \<leftarrow> vts. unat t - unat (total_delegated v))"
  shows "\<exists>(v, t) \<in> set vts. total_delegated v \<le> t"
proof (rule ccontr)
  assume "\<not> (\<exists>(v, t) \<in> set vts. total_delegated v \<le> t)"
  then have "(\<Sum>(v, t) \<leftarrow> vts. unat t - unat (total_delegated v)) = 0"
    by (induction vts) (auto simp: word_le_nat_alt)
  with assms show False by simp
qed

lemma delegate_loop_greedy:
  assumes "unat amt \<le> (\<Sum>(v, t) \<leftarrow> vts. unat t - unat (total_delegated v))"
    and "\<exists>(v, t) \<in> set vts. total_delegated v \<le> t"
  shows "\<exists>ds. delegate_loop (length pre) vts amt (pre @ replicate (length vts) 0) = Inr ds
    \<and> map unat ds = map unat pre
        @ greedy (map (\<lambda>(v, t). unat t - unat (total_delegated v)) vts) (unat amt)"
  using assms
proof (induction vts arbitrary: pre amt)
  case Nil
  then show ?case by simp
next
  case (Cons vt vts)
  obtain v t where vt: "vt = (v, t)" by force
  show ?case
  proof (cases "t < total_delegated v")
    case True
    then have zero: "unat t - unat (total_delegated v) = 0"
      by (simp add: word_less_nat_alt)
    have "\<exists>ds. delegate_loop (length (pre @ [0])) vts amt
        ((pre @ [0]) @ replicate (length vts) 0) = Inr ds
      \<and> map unat ds = map unat (pre @ [0])
        @ greedy (map (\<lambda>(v, t). unat t - unat (total_delegated v)) vts) (unat amt)"
      using Cons.prems True zero vt by (intro Cons.IH) (auto simp: not_le)
    with zero vt show ?thesis
      by (simp add: delegate_loop_skip [OF True] del: delegate_loop.simps)
  next
    case False
    define d where "d = min amt (t - total_delegated v)"
    have d: "unat d = min (unat t - unat (total_delegated v)) (unat amt)"
      using False by (simp add: d_def unat_min unat_sub_exact not_less min.commute)
    have left: "unat (amt - d) = unat amt - unat d"
      by (rule unat_sub_exact) (simp add: d_def)
    have step: "delegate_loop (length pre) (vt # vts) amt (pre @ replicate (length (vt # vts)) 0)
      = (if amt - d = 0 then Inr ((pre @ [d]) @ replicate (length vts) 0)
         else delegate_loop (length (pre @ [d])) vts (amt - d)
                ((pre @ [d]) @ replicate (length vts) 0))"
      unfolding vt using delegate_loop_take [OF False d_def] by simp
    show ?thesis
    proof (cases "amt - d = 0")
      case True
      then have "unat amt - unat d = 0"
        using left by simp
      with True d vt show ?thesis
        unfolding step by simp
    next
      case more: False
      have room: "unat (amt - d) \<le> (\<Sum>(v, t) \<leftarrow> vts. unat t - unat (total_delegated v))"
        using Cons.prems(1) left d vt by (simp add: min_def split: if_splits)
      have "0 < unat (amt - d)"
        using more by (simp only: unat_gt_0 not_False_eq_True)
      with room have "0 < (\<Sum>(v, t) \<leftarrow> vts. unat t - unat (total_delegated v))"
        by (rule less_le_trans [rotated])
      then have "\<exists>(v, t) \<in> set vts. total_delegated v \<le> t"
        by (rule positive_room)
      with room obtain ds where ds: "delegate_loop (length (pre @ [d])) vts (amt - d)
          ((pre @ [d]) @ replicate (length vts) 0) = Inr ds"
        "map unat ds = map unat (pre @ [d])
          @ greedy (map (\<lambda>(v, t). unat t - unat (total_delegated v)) vts) (unat (amt - d))"
        using Cons.IH [of "amt - d" "pre @ [d]"] by blast
      have "delegate_loop (length pre) (vt # vts) amt (pre @ replicate (length (vt # vts)) 0) = Inr ds"
        unfolding step using more ds(1) by simp
      moreover have "map unat ds = map unat pre
          @ greedy (map (\<lambda>(v, t). unat t - unat (total_delegated v)) (vt # vts)) (unat amt)"
        using ds(2) d left vt by simp
      ultimately show ?thesis by blast
    qed
  qed
qed

text \<open>The same for one pass of the undelegation loop, which returns in that pass.\<close>

lemma undelegate_for_step:
  assumes "d = min amt (total_delegated v - min t (total_delegated v))"
    and "amt \<le> tot" and "length pre < length vs"
  shows "undelegate_for (length pre) ((v, t) # vts) amt tot vs (pre @ 0 # zs)
     = (if amt - d = 0 then Inr (Returned ((pre @ [d]) @ zs))
        else undelegate_for (length (pre @ [d])) vts (amt - d) (tot - d)
               (vs[length pre := v\<lparr>total_delegated := total_delegated v - d\<rparr>])
               ((pre @ [d]) @ zs))"
proof -
  let ?c = "total_delegated v - min t (total_delegated v)"
  have d: "(if amt < ?c then amt else ?c) = d"
    using assms(1) by (auto simp: min_def)
  have room: "checked_sub_or_overflow (total_delegated v) (min t (total_delegated v)) = Inr ?c"
    by (simp add: checked_sub_or_overflow_def checked_sub_fits)
  have c: "?c \<le> total_delegated v"
    by (metis min.cobounded2 word_sub_le)
  have d_le: "d \<le> amt" "d \<le> tot" "d \<le> total_delegated v"
    using assms(1,2) c by (auto simp: min_le_iff_disj)
  have left: "checked_sub_or_overflow amt d = Inr (amt - d)"
    "checked_sub_or_overflow tot d = Inr (tot - d)"
    "checked_sub_or_overflow (total_delegated v) d = Inr (total_delegated v - d)"
    using d_le by (simp_all add: checked_sub_or_overflow_def checked_sub_fits)
  have sum: "checked_add (Overflow OverflowAdd) 0 d = Inr d"
    using unat_less [of d] by (simp add: checked_add_def)
  show ?thesis
    unfolding undelegate_for.simps Let_def room and_then_simps d
    using assms(3) by (simp add: vec_get_def vec_set_def left sum)
qed

lemma undelegate_for_greedy:
  assumes "0 < unat amt" and "unat amt \<le> (\<Sum>(v, t) \<leftarrow> vts. unat (total_delegated v) - unat t)"
    and "amt \<le> tot" and "length vs = length pre + length vts"
  shows "\<exists>us. undelegate_for (length pre) vts amt tot vs (pre @ replicate (length vts) 0)
      = Inr (Returned us)
    \<and> map unat us = map unat pre
        @ greedy (map (\<lambda>(v, t). unat (total_delegated v) - unat t) vts) (unat amt)"
  using assms
proof (induction vts arbitrary: pre amt tot vs)
  case Nil
  then show ?case by simp
next
  case (Cons vt vts)
  obtain v t where vt: "vt = (v, t)" by force
  define d where "d = min amt (total_delegated v - min t (total_delegated v))"
  have d: "unat d = min (unat (total_delegated v) - unat t) (unat amt)"
    by (simp add: d_def unat_min unat_sub_exact min_def word_le_nat_alt)
  have d_le: "d \<le> amt" by (simp add: d_def)
  have left: "unat (amt - d) = unat amt - unat d"
    by (rule unat_sub_exact [OF d_le])
  let ?vs' = "vs[length pre := v\<lparr>total_delegated := total_delegated v - d\<rparr>]"
  have step: "undelegate_for (length pre) (vt # vts) amt tot vs
        (pre @ replicate (length (vt # vts)) 0)
      = (if amt - d = 0 then Inr (Returned ((pre @ [d]) @ replicate (length vts) 0))
         else undelegate_for (length (pre @ [d])) vts (amt - d) (tot - d) ?vs'
                ((pre @ [d]) @ replicate (length vts) 0))"
    unfolding vt using undelegate_for_step [OF d_def Cons.prems(3)] Cons.prems(4) by simp
  show ?case
  proof (cases "amt - d = 0")
    case True
    then have "unat amt - unat d = 0" using left by simp
    with True d vt show ?thesis unfolding step by simp
  next
    case more: False
    have "0 < unat (amt - d)"
      using more by (metis gr0I unat_eq_zero)
    moreover have "unat (amt - d) \<le> (\<Sum>(v, t) \<leftarrow> vts. unat (total_delegated v) - unat t)"
      using Cons.prems(2) left d vt by (simp add: min_def split: if_splits)
    moreover have "amt - d \<le> tot - d"
      using Cons.prems(3) d_le by (simp add: word_le_nat_alt unat_sub_exact)
    moreover have "length ?vs' = length (pre @ [d]) + length vts"
      using Cons.prems(4) by simp
    ultimately have "\<exists>us. undelegate_for (length (pre @ [d])) vts (amt - d) (tot - d) ?vs'
        ((pre @ [d]) @ replicate (length vts) 0) = Inr (Returned us)
      \<and> map unat us = map unat (pre @ [d])
        @ greedy (map (\<lambda>(v, t). unat (total_delegated v) - unat t) vts) (unat (amt - d))"
      by (rule Cons.IH)
    with more d left vt show ?thesis unfolding step by simp
  qed
qed

section \<open>The two functions on every input\<close>

lemma map2_targets:
  assumes "map unat ts = ss" and "length ts = length vs"
  shows "map (\<lambda>(v, t). f (unat t) (unat (total_delegated v))) (zip vs ts)
    = map2 (\<lambda>v s. f s (unat (total_delegated v))) vs ss"
  unfolding assms(1) [symmetric] using assms(2) [symmetric]
  by (induction vs ts rule: list_induct2') auto

lemma sum_less_delegated:
  "length vs = length ts \<Longrightarrow> vs \<noteq> [] \<Longrightarrow>
   (\<And>v t. (v, t) \<in> set (zip vs ts) \<Longrightarrow> t < total_delegated v) \<Longrightarrow> total_of ts < delegated vs"
proof (induction vs ts rule: list_induct2)
  case Nil
  then show ?case by simp
next
  case (Cons v vs t ts)
  then have "unat t < unat (total_delegated v)"
    by (simp add: word_less_nat_alt)
  with Cons show ?case
    by (cases "vs = []") (auto simp: delegated_def intro: add_strict_mono)
qed

theorem calculate_delegations_spec:
  assumes vs: "vs \<noteq> []" and fits: "delegated vs + unat amt < 2 ^ 128"
  shows "\<exists>ds. calculate_delegations amt vs = Inr ds
    \<and> map unat ds = greedy (deficits (delegated vs + unat amt) vs) (unat amt)"
proof -
  define tot :: uint128 where "tot = of_nat (delegated vs)"
  have tot: "usum (map total_delegated vs) = (Inr tot :: uint128 lst_result)"
    "unat tot = delegated vs"
    using fits by (simp_all add: tot_def unat_of_nat usum_fits delegated_def)
  have all: "uadd tot amt = (Inr (tot + amt) :: uint128 lst_result)"
    "unat (tot + amt) = delegated vs + unat amt"
    using fits tot(2) by (simp_all add: uadd_fits unat_add_exact)
  obtain q r where qr: "distribute_coins (tot + amt) (length vs) = Inr (q, r)"
    "unat q = unat (tot + amt) div length vs" "unat r = unat (tot + amt) mod length vs"
    using distribute_coins_spec [of "length vs" "tot + amt"] vs by auto
  obtain ts where ts: "target_coins_per_validator q r vs = Inr ts"
    "map unat ts = even_shares (delegated vs + unat amt) (length vs)"
    using targets_spec [OF vs qr(2,3)] all(2) by auto
  have len: "length ts = length vs"
    using arg_cong [OF ts(2), of length] by simp
  have caps: "map (\<lambda>(v, t). unat t - unat (total_delegated v)) (zip vs ts)
      = deficits (delegated vs + unat amt) vs"
    using map2_targets [OF ts(2) len, of minus] by (simp add: deficits_def)
  have "unat amt \<le> (\<Sum>(v, t) \<leftarrow> zip vs ts. unat t - unat (total_delegated v))"
    using sum_deficits [OF vs, of "delegated vs + unat amt"] by (simp add: caps)
  moreover have "\<exists>(v, t) \<in> set (zip vs ts). total_delegated v \<le> t"
  proof (rule ccontr)
    assume "\<not> ?thesis"
    then have "total_of ts < delegated vs"
      using sum_less_delegated [of vs ts] len vs by fastforce
    then show False
      using sum_even_shares [of "length vs" "delegated vs + unat amt"] vs ts(2) by simp
  qed
  ultimately obtain ds where "delegate_loop 0 (zip vs ts) amt (replicate (length vs) 0) = Inr ds"
    "map unat ds = greedy (deficits (delegated vs + unat amt) vs) (unat amt)"
    using delegate_loop_greedy [of amt "zip vs ts" "[]"] len caps by auto
  then show ?thesis
    using vs tot(1) all(1) qr(1) ts(1) by (simp add: calculate_delegations_def)
qed

theorem calculate_undelegations_spec:
  assumes vs: "vs \<noteq> []" and fits: "delegated vs < 2 ^ 128"
    and amt: "0 < unat amt" "unat amt \<le> delegated vs"
  shows "\<exists>us. calculate_undelegations amt vs = Inr us
    \<and> map unat us = greedy (surpluses (delegated vs - unat amt) vs) (unat amt)"
proof -
  define tot :: uint128 where "tot = of_nat (delegated vs)"
  have tot: "usum (map total_delegated vs) = (Inr tot :: uint128 lst_result)"
    "unat tot = delegated vs"
    using fits by (simp_all add: tot_def unat_of_nat usum_fits delegated_def)
  have le: "amt \<le> tot"
    using amt(2) tot(2) by (simp add: word_le_nat_alt)
  have rest: "checked_sub_or_overflow tot amt = Inr (tot - amt)"
    "unat (tot - amt) = delegated vs - unat amt"
    using le tot(2) by (simp_all add: checked_sub_or_overflow_def checked_sub_fits unat_sub_exact)
  obtain q r where qr: "distribute_coins (tot - amt) (length vs) = Inr (q, r)"
    "unat q = unat (tot - amt) div length vs" "unat r = unat (tot - amt) mod length vs"
    using distribute_coins_spec [of "length vs" "tot - amt"] vs by auto
  obtain ts where ts: "target_coins_per_validator q r vs = Inr ts"
    "map unat ts = even_shares (delegated vs - unat amt) (length vs)"
    using targets_spec [OF vs qr(2,3)] rest(2) by auto
  have len: "length ts = length vs"
    using arg_cong [OF ts(2), of length] by simp
  have caps: "map (\<lambda>(v, t). unat (total_delegated v) - unat t) (zip vs ts)
      = surpluses (delegated vs - unat amt) vs"
    using map2_targets [OF ts(2) len, of "\<lambda>s v. v - s"] by (simp add: surpluses_def)
  have "unat amt \<le> (\<Sum>(v, t) \<leftarrow> zip vs ts. unat (total_delegated v) - unat t)"
    using sum_surpluses [OF vs, of "delegated vs - unat amt"] amt(2) by (simp add: caps)
  then obtain us where us: "undelegate_for 0 (zip vs ts) amt tot vs (replicate (length vs) 0)
      = Inr (Returned us)"
    "map unat us = greedy (surpluses (delegated vs - unat amt) vs) (unat amt)"
    using undelegate_for_greedy [of amt "zip vs ts" tot vs "[]"] len caps amt(1) le by auto
  have "undelegate_round amt tot vs (replicate (length vs) 0) = Inr (Returned us)"
    using rest(1) qr(1) ts(1) us(1) by (simp add: undelegate_round_def)
  then have "undelegate_while amt tot vs (replicate (length vs) 0) = Some (Inr us)"
    using amt(1) by (subst undelegate_while.simps) auto
  then show ?thesis
    using vs tot(1) le us(2) by (simp add: calculate_undelegations_def not_less)
qed

lemma calculate_delegations_empty [simp]:
  "calculate_delegations amt [] = validator_err EmptyValidatorSet"
  by (simp add: calculate_delegations_def)

lemma calculate_undelegations_empty [simp]:
  "calculate_undelegations amt [] = validator_err EmptyValidatorSet"
  by (simp add: calculate_undelegations_def)

lemma calculate_delegations_overflow:
  assumes "vs \<noteq> []" and "2 ^ 128 \<le> delegated vs + unat amt"
  shows "calculate_delegations amt vs = Inl (Panic ArithmeticOverflow)"
proof (cases "delegated vs < 2 ^ 128")
  case True
  define tot :: uint128 where "tot = of_nat (delegated vs)"
  have "usum (map total_delegated vs) = (Inr tot :: uint128 lst_result)" "unat tot = delegated vs"
    using True by (simp_all add: tot_def unat_of_nat usum_fits delegated_def)
  with assms show ?thesis
    by (simp add: calculate_delegations_def uadd_def)
next
  case False
  with assms(1) show ?thesis
    by (simp add: calculate_delegations_def usum_overflow delegated_def)
qed

lemma calculate_undelegations_overflow:
  "vs \<noteq> [] \<Longrightarrow> 2 ^ 128 \<le> delegated vs \<Longrightarrow>
   calculate_undelegations amt vs = Inl (Panic ArithmeticOverflow)"
  by (simp add: calculate_undelegations_def usum_overflow delegated_def)

lemma calculate_undelegations_exceed:
  assumes "vs \<noteq> []" and "delegated vs < 2 ^ 128" and "delegated vs < unat amt"
  shows "calculate_undelegations amt vs = validator_err ExceedUndelegation"
proof -
  have "(of_nat (delegated vs) :: uint128) < amt"
    using assms by (simp add: word_less_nat_alt unat_of_nat)
  with assms show ?thesis
    by (simp add: calculate_undelegations_def usum_fits delegated_def)
qed

lemma calculate_undelegations_zero:
  assumes "vs \<noteq> []" and "delegated vs < 2 ^ 128"
  shows "calculate_undelegations 0 vs = validator_err DistributionFailed"
  using assms by (simp add: calculate_undelegations_def usum_fits undelegate_while.simps delegated_def)

lemma calculate_delegations_InrD:
  assumes "calculate_delegations amt vs = Inr ds"
  shows "vs \<noteq> []" and "delegated vs + unat amt < 2 ^ 128"
    and "map unat ds = greedy (deficits (delegated vs + unat amt) vs) (unat amt)"
proof -
  show vs: "vs \<noteq> []" using assms by auto
  show fits: "delegated vs + unat amt < 2 ^ 128"
    using calculate_delegations_overflow [OF vs, of amt] assms by (force simp: not_less)
  show "map unat ds = greedy (deficits (delegated vs + unat amt) vs) (unat amt)"
    using calculate_delegations_spec [OF vs fits] assms by auto
qed

lemma calculate_undelegations_InrD:
  assumes "calculate_undelegations amt vs = Inr us"
  shows "vs \<noteq> []" and "delegated vs < 2 ^ 128" and "0 < unat amt" and "unat amt \<le> delegated vs"
    and "map unat us = greedy (surpluses (delegated vs - unat amt) vs) (unat amt)"
proof -
  show vs: "vs \<noteq> []" using assms by auto
  show fits: "delegated vs < 2 ^ 128"
    using calculate_undelegations_overflow [OF vs, of amt] assms by (force simp: not_less)
  show le: "unat amt \<le> delegated vs"
    using calculate_undelegations_exceed [OF vs fits, of amt] assms
    by (metis not_less raised_not_Inr(2))
  show pos: "0 < unat amt"
  proof (rule ccontr)
    assume "\<not> 0 < unat amt"
    then have "amt = 0" by (simp add: unat_gt_0)
    with calculate_undelegations_zero [OF vs fits] assms show False by simp
  qed
  show "map unat us = greedy (surpluses (delegated vs - unat amt) vs) (unat amt)"
    using calculate_undelegations_spec [OF vs fits pos le] assms by auto
qed

lemma length_deficits [simp]: "length (deficits tot vs) = length vs"
  by (simp add: deficits_def)

lemma length_surpluses [simp]: "length (surpluses tot vs) = length vs"
  by (simp add: surpluses_def)

lemma nth_deficits:
  "i < length vs \<Longrightarrow>
   deficits tot vs ! i = even_share tot (length vs) i - unat (total_delegated (vs ! i))"
  by (simp add: deficits_def even_shares_def)

lemma nth_surpluses:
  "i < length vs \<Longrightarrow>
   surpluses tot vs ! i = unat (total_delegated (vs ! i)) - even_share tot (length vs) i"
  by (simp add: surpluses_def even_shares_def)

section \<open>What the callers rely on\<close>

text \<open>
  The callers walk the shares next to the validators, skip the zero ones and send one message
  for each of the others (\<open>validators[i].address\<close> panics when there is no such validator).
\<close>

fun nonzero_shares ::
    "validator_response list \<Rightarrow> uint128 list \<Rightarrow> (string \<times> uint128) list lst_result" where
  "nonzero_shares vs [] = Inr []"
| "nonzero_shares [] (d # ds) =
     (if d = 0 then nonzero_shares [] ds else Inl (Panic IndexOutOfBounds))"
| "nonzero_shares (v # vs) (d # ds) =
     and_then (nonzero_shares vs ds) (\<lambda>shares.
     Inr (if d = 0 then shares else (vr_address v, d) # shares))"

lemma nonzero_shares_spec:
  "length ds = length vs \<Longrightarrow> \<exists>shares. nonzero_shares vs ds = Inr shares
     \<and> total_of (map snd shares) = total_of ds
     \<and> (\<forall>(a, d) \<in> set shares. d \<noteq> 0 \<and> a \<in> vr_address ` set vs)"
  by (induction vs ds rule: nonzero_shares.induct) fastforce+

locale splitter =
  fixes split :: "uint128 \<Rightarrow> validator_response list \<Rightarrow> uint128 list lst_result"
  assumes split_length: "split amt vs = Inr ds \<Longrightarrow> length ds = length vs"
    and split_total: "split amt vs = Inr ds \<Longrightarrow> total_of ds = unat amt"
begin

lemma shares_total:
  assumes "split amt vs = Inr ds"
  obtains shares where "nonzero_shares vs ds = Inr shares"
    and "total_of (map snd shares) = unat amt"
    and "\<forall>(a, d) \<in> set shares. d \<noteq> 0 \<and> a \<in> vr_address ` set vs"
  using nonzero_shares_spec [OF split_length [OF assms]] split_total [OF assms] by auto

lemma shares_totalD:
  assumes "split amt vs = Inr ds" and "nonzero_shares vs ds = Inr shares"
  shows "total_of (map snd shares) = unat amt"
    and "\<forall>(a, d) \<in> set shares. d \<noteq> 0 \<and> a \<in> vr_address ` set vs"
  using shares_total [OF assms(1)] assms(2) by auto

end

interpretation delegations: splitter calculate_delegations
proof unfold_locales
  fix amt vs ds assume ok: "calculate_delegations amt vs = Inr ds"
  note d = calculate_delegations_InrD [OF ok]
  show "length ds = length vs"
    using arg_cong [OF d(3), of length] by simp
  show "total_of ds = unat amt"
    using sum_deficits [OF d(1), of "delegated vs + unat amt"] by (simp add: d(3) sum_greedy)
qed

interpretation undelegations: splitter calculate_undelegations
proof unfold_locales
  fix amt vs ds assume ok: "calculate_undelegations amt vs = Inr ds"
  note d = calculate_undelegations_InrD [OF ok]
  show "length ds = length vs"
    using arg_cong [OF d(5), of length] by simp
  show "total_of ds = unat amt"
    using sum_surpluses [OF d(1), of "delegated vs - unat amt"] d(4) by (simp add: d(5) sum_greedy)
qed

section \<open>Properties\<close>

text \<open>
  C22: For a non-empty validator set and amounts that fit in 128 bits,
  \<open>calculate_delegations\<close> always succeeds, and the shares it returns are one per validator,
  add up to exactly the amount, and never lift a validator above its even share of the new
  total.
\<close>

theorem delegations_split_exactly:
  assumes "vs \<noteq> []" and "delegated vs + unat amt < 2 ^ 128"
  shows "\<exists>ds. calculate_delegations amt vs = Inr ds \<and> length ds = length vs
    \<and> total_of ds = unat amt
    \<and> (\<forall>i < length vs. unat (ds ! i)
          \<le> even_share (delegated vs + unat amt) (length vs) i - unat (total_delegated (vs ! i)))"
proof -
  obtain ds where ds: "calculate_delegations amt vs = Inr ds"
    "map unat ds = greedy (deficits (delegated vs + unat amt) vs) (unat amt)"
    using calculate_delegations_spec [OF assms] by blast
  have len: "length ds = length vs"
    by (rule delegations.split_length [OF ds(1)])
  have "unat (ds ! i)
      \<le> even_share (delegated vs + unat amt) (length vs) i - unat (total_delegated (vs ! i))"
    if "i < length vs" for i
    using greedy_le [of i "deficits (delegated vs + unat amt) vs" "unat amt"] that len
      arg_cong [OF ds(2), of "\<lambda>xs. xs ! i"] by (simp add: nth_deficits)
  then show ?thesis
    using ds(1) len delegations.split_total [OF ds(1)] by blast
qed

text \<open>
  C24: Delegation rebalances: when no validator is above its even share of the new total, after
  the delegation every validator has exactly that share, so any two differ by at most one
  coin.
\<close>

theorem delegations_balance:
  assumes "calculate_delegations amt vs = Inr ds"
    and "\<forall>i < length vs. unat (total_delegated (vs ! i))
           \<le> even_share (delegated vs + unat amt) (length vs) i"
  shows "\<forall>i < length vs. \<forall>j < length vs.
      unat (total_delegated (vs ! i)) + unat (ds ! i)
        = even_share (delegated vs + unat amt) (length vs) i
      \<and> unat (total_delegated (vs ! i)) + unat (ds ! i)
        \<le> unat (total_delegated (vs ! j)) + unat (ds ! j) + 1"
proof -
  note d = calculate_delegations_InrD [OF assms(1)]
  let ?T = "delegated vs + unat amt"
  have "sum_list (deficits ?T vs) + delegated vs = ?T"
  proof -
    have "(\<Sum>k < length vs. deficits ?T vs ! k) + (\<Sum>k < length vs. unat (total_delegated (vs ! k)))
        = (\<Sum>k < length vs. even_share ?T (length vs) k)"
      unfolding sum.distrib [symmetric]
      by (rule sum.cong) (use assms(2) in \<open>auto simp: nth_deficits\<close>)
    moreover have "(\<Sum>k < length vs. even_share ?T (length vs) k) = ?T"
      using sum_even_shares [of "length vs" ?T] d(1)
      by (simp add: even_shares_def interv_sum_list_conv_sum_set_nat atLeast0LessThan)
    ultimately show ?thesis
      by (simp add: sum_list_sum_nth atLeast0LessThan delegated_def [of vs])
  qed
  then have eq: "map unat ds = deficits ?T vs"
    using greedy_full [of "deficits ?T vs" "unat amt"] d(3) by simp
  have exact: "unat (total_delegated (vs ! k)) + unat (ds ! k) = even_share ?T (length vs) k"
    if k: "k < length vs" for k
  proof -
    have "unat (ds ! k) = map unat ds ! k"
      using k delegations.split_length [OF assms(1)] by simp
    also have "\<dots> = even_share ?T (length vs) k - unat (total_delegated (vs ! k))"
      unfolding eq by (rule nth_deficits [OF k])
    finally show ?thesis using k assms(2) by simp
  qed
  show ?thesis
    using exact even_share_balanced [of ?T "length vs"] by auto
qed

text \<open>
  The \<open>while\<close> loop of \<open>calculate_undelegations\<close> ends on every input: the function never
  fails to return.
\<close>

theorem undelegations_terminate: "calculate_undelegations amt vs \<noteq> Inl (Panic NoReturn)"
proof (cases "vs = [] \<or> 2 ^ 128 \<le> delegated vs \<or> delegated vs < unat amt \<or> amt = 0")
  case True
  then consider "vs = []" | "vs \<noteq> []" "2 ^ 128 \<le> delegated vs"
    | "vs \<noteq> []" "delegated vs < 2 ^ 128" "delegated vs < unat amt"
    | "vs \<noteq> []" "delegated vs < 2 ^ 128" "amt = 0"
    by fastforce
  then show ?thesis
    by cases (simp_all add: calculate_undelegations_overflow calculate_undelegations_exceed
        calculate_undelegations_zero validator_err_def)
next
  case False
  then show ?thesis
    using calculate_undelegations_spec [of vs amt] by (force simp: not_le not_less unat_gt_0)
qed

text \<open>
  C23: What \<open>calculate_undelegations\<close> returns: it succeeds exactly when there are validators,
  their delegations fit in 128 bits, and the amount is positive and covered by them. It then
  takes the amount exactly, and from each validator at most what is above its even share of
  what remains; in particular never more than is delegated to it.
\<close>

theorem undelegations_split_exactly:
  "case calculate_undelegations amt vs of
     Inl _ \<Rightarrow> vs = [] \<or> 2 ^ 128 \<le> delegated vs \<or> amt = 0 \<or> delegated vs < unat amt
   | Inr us \<Rightarrow> vs \<noteq> [] \<and> delegated vs < 2 ^ 128 \<and> 0 < unat amt \<and> unat amt \<le> delegated vs
       \<and> length us = length vs \<and> total_of us = unat amt
       \<and> (\<forall>i < length vs. unat (us ! i) \<le> unat (total_delegated (vs ! i))
             - even_share (delegated vs - unat amt) (length vs) i)"
proof (cases "calculate_undelegations amt vs")
  case (Inl f)
  then show ?thesis
    using calculate_undelegations_spec [of vs amt] by (force simp: not_le not_less unat_gt_0)
next
  case (Inr us)
  have "unat (us ! i) \<le> unat (total_delegated (vs ! i))
      - even_share (delegated vs - unat amt) (length vs) i" if "i < length vs" for i
    using greedy_le [of i "surpluses (delegated vs - unat amt) vs" "unat amt"] that
      undelegations.split_length [OF Inr]
      arg_cong [OF calculate_undelegations_InrD(5) [OF Inr], of "\<lambda>xs. xs ! i"]
    by (simp add: nth_surpluses)
  then show ?thesis
    using calculate_undelegations_InrD [OF Inr] undelegations.split_length [OF Inr]
      undelegations.split_total [OF Inr] Inr by simp
qed

text \<open>
  The errors of the two functions: an empty validator set, an undelegation above the total
  delegation, and (a case the callers can reach with a batch whose value rounds to nothing)
  an undelegation of zero, which is reported as a failed distribution although there is
  nothing to distribute.
\<close>

theorem split_errors:
  "calculate_delegations amt [] = validator_err EmptyValidatorSet
   \<and> calculate_undelegations amt [] = validator_err EmptyValidatorSet
   \<and> (vs \<noteq> [] \<and> delegated vs < 2 ^ 128 \<and> delegated vs < unat amt \<longrightarrow>
        calculate_undelegations amt vs = validator_err ExceedUndelegation)
   \<and> (vs \<noteq> [] \<and> delegated vs < 2 ^ 128 \<longrightarrow>
        calculate_undelegations 0 vs = validator_err DistributionFailed)"
  by (simp add: calculate_undelegations_exceed calculate_undelegations_zero)

section \<open>Witnesses\<close>

definition two_validators :: "validator_response list" where
  "two_validators =
     [\<lparr>total_delegated = 10, vr_address = ''val1''\<rparr>,
      \<lparr>total_delegated = 40, vr_address = ''val2''\<rparr>]"

lemma delegated_two [simp]: "delegated two_validators = 50"
  by (simp add: two_validators_def delegated_def)

lemma length_two [simp]: "length two_validators = 2" "two_validators \<noteq> []"
  by (simp_all add: two_validators_def)

lemma all_less_two: "(\<forall>i < (2::nat). P i) \<longleftrightarrow> P 0 \<and> P 1"
  by (auto simp: less_2_cases_iff)

lemma delegations_split_exactly_witness:
  "\<exists>ds. calculate_delegations 31 two_validators = Inr ds \<and> length ds = 2 \<and> total_of ds = 31"
  using delegations_split_exactly [of two_validators 31] by auto

lemmas split_eval = two_validators_def distribute_coins_def target_coins_per_validator_def
  calculate_delegations_def calculate_undelegations_def undelegate_round_def
  undelegate_while.simps checked_sub_or_overflow_def eval_simps

lemma calculate_delegations_two: "calculate_delegations 31 two_validators = Inr [31, 0]"
  by (simp add: split_eval cong: eval_cong)

lemma delegations_balance_witness:
  "unat (total_delegated (two_validators ! 0)) + unat ([31, 0 :: uint128] ! 0)
     \<le> unat (total_delegated (two_validators ! 1)) + unat ([31, 0 :: uint128] ! 1) + 1
   \<and> unat (total_delegated (two_validators ! 1)) + unat ([31, 0 :: uint128] ! 1)
     \<le> unat (total_delegated (two_validators ! 0)) + unat ([31, 0 :: uint128] ! 0) + 1"
proof -
  have "\<forall>i < length two_validators. unat (total_delegated (two_validators ! i))
      \<le> even_share (delegated two_validators + unat (31 :: uint128)) (length two_validators) i"
    by (simp add: even_share_def all_less_two) (simp add: two_validators_def)
  from delegations_balance [OF calculate_delegations_two this] show ?thesis
    unfolding length_two(1) all_less_two by blast
qed

lemma undelegations_split_exactly_witness:
  "calculate_undelegations 20 two_validators = Inr [0, 20]
   \<and> unat ([0, 20 :: uint128] ! 1) \<le> unat (total_delegated (two_validators ! 1)) - 15"
proof -
  have "calculate_undelegations 20 two_validators = Inr [0, 20]"
    by (simp add: split_eval cong: eval_cong)
  then show ?thesis
    using undelegations_split_exactly [where amt = 20 and vs = two_validators]
    by (auto simp: even_share_def dest: spec [of _ 1])
qed

lemma split_errors_witness:
  "calculate_undelegations 51 two_validators = validator_err ExceedUndelegation
   \<and> calculate_undelegations 0 two_validators = validator_err DistributionFailed"
  using split_errors [of 51 two_validators] by simp

end
