(* ===== verification/Hub_Stake.thy ===== *)
theory Hub_Stake
  imports Hub_Slashing Delegation
begin

text \<open>
  \<open>contracts/lst_staking_hub/src/stake.rs\<close>: staking coins, either for newly minted tokens or
  as rewards (which raise the value of every token). The whole payment is delegated, the tokens
  minted are the payment divided by the rate of the slashing check, and no stake lowers the
  exchange rate.
\<close>

section \<open>The code\<close>

definition prepare_wrapped_delegate_msg ::
    "string \<Rightarrow> string \<Rightarrow> string \<Rightarrow> string \<Rightarrow> cosmos_msg" where
  "prepare_wrapped_delegate_msg denom amount delegator validator =
     (let coin = ProtoCoin denom amount;
          delegate_msg = MsgDelegate delegator validator (Some coin) in
      to_any (MsgWrappedDelegate (Some delegate_msg)))"

text \<open>The loop over \<open>0..delegations.len()\<close>, which skips the zero shares.\<close>

definition delegate_messages ::
    "env \<Rightarrow> string \<Rightarrow> validator_response list \<Rightarrow> uint128 list \<Rightarrow> cosmos_msg list lst_result" where
  "delegate_messages e denom validators delegations =
     and_then (nonzero_shares validators delegations) (\<lambda>shares.
     Inr (map (\<lambda>(validator, amount).
       prepare_wrapped_delegate_msg denom (to_string amount) (contract_address e) validator) shares))"

definition execute_stake ::
    "deps \<Rightarrow> env \<Rightarrow> message_info \<Rightarrow> stake_type \<Rightarrow> hub_storage \<Rightarrow> (response \<times> hub_storage) lst_result" where
  "execute_stake d e info stake_type s =
     and_then (load_parameters s) (\<lambda>params.
     and_then (load_config s) (\<lambda>config.
     and_then (load_state s) (\<lambda>old_state.
     and_then (ok_or (reward_dispatcher_contract config) (Hub RewardDispatcherNotSet))
       (\<lambda>reward_dispatcher_address.
     if stake_type = StakeRewardsType \<and> info_sender info \<noteq> reward_dispatcher_address
     then unauthorized else
     and_then (load_current_batch s) (\<lambda>batch.
     if 1 < length (info_funds info) then hub_err OnlyOneCoinAllowed else
     and_then (ok_or (List.find (\<lambda>c. coin_denom c = staking_coin_denom params \<and> 0 < coin_amount c)
         (info_funds info)) (Hub InvalidAmount)) (\<lambda>payment.
     and_then (check_slashing d e old_state s) (\<lambda>(slashing_events, st, s1).
     and_then (unwrap (query_total_lst_token_issued d s1)) (\<lambda>issued.
     and_then
       (case stake_type of
          LSTMint \<Rightarrow> decimal_division (coin_amount payment) (lst_exchange_rate st)
        | StakeRewardsType \<Rightarrow> Inr 0) (\<lambda>mint_amount.
     and_then (uadd issued mint_amount) (\<lambda>total_supply.
     and_then (uadd (total_staked_amount st) (coin_amount payment)) (\<lambda>total.
     and_then (update_lst_exchange_rate d (st\<lparr>total_staked_amount := total\<rparr>) total_supply
         (requested_lst_token_amount batch)) (\<lambda>st'.
     and_then (update_pending_delegation_amount e (Some (coin_amount payment)) None s1) (\<lambda>s2.
     and_then (update_state d old_state st' s2) (\<lambda>(state_events, s3).
     and_then (ok_or (validators_registry_contract config) (Hub ValidatorRegistryNotSet))
       (\<lambda>registry.
     and_then (query_std (query_validators_delegation d registry)) (\<lambda>validators.
     if validators = [] then validator_err EmptyValidatorSet else
     and_then (calculate_delegations (coin_amount payment) validators) (\<lambda>delegations.
     and_then (delegate_messages e (coin_denom payment) validators delegations) (\<lambda>msgs.
     if stake_type = StakeRewardsType then
       Inr (\<lparr>messages = msgs, events = slashing_events @ state_events, attributes =
              [(''action'', ''stake_rewards''), (''from'', info_sender info),
               (''amount'', to_string (coin_amount payment))]\<rparr>, s3)
     else
       and_then (ok_or (lst_token config) (Hub LstTokenNotSet)) (\<lambda>token_address.
       Inr (\<lparr>messages = msgs @ [WasmExecute token_address
                (Cw20Payload (Mint (info_sender info) mint_amount)) []],
             events = slashing_events @ state_events, attributes =
              [(''action'', ''mint''), (''from'', info_sender info),
               (''staked'', to_string (coin_amount payment)),
               (''minted'', to_string mint_amount)]\<rparr>, s3))))))))))))))))))))"

section \<open>What they do\<close>

text \<open>The coins that a list of messages delegates, undelegates, and the tokens it mints or burns.\<close>

fun message_delegates :: "cosmos_msg \<Rightarrow> nat" where
  "message_delegates (AnyMsg _ (MsgWrappedDelegate (Some (MsgDelegate _ _ (Some c))))) =
     nat_of_string (proto_amount c)"
| "message_delegates _ = 0"

definition delegates :: "cosmos_msg list \<Rightarrow> nat" where
  "delegates msgs = sum_list (map message_delegates msgs)"

lemma delegates_append [simp]: "delegates (as @ bs) = delegates as + delegates bs"
  by (simp add: delegates_def)

lemma delegates_wasm [simp]: "delegates [WasmExecute a p f] = 0" "delegates [] = 0"
  by (simp_all add: delegates_def)

lemma message_delegates_prepared [simp]:
  "message_delegates (prepare_wrapped_delegate_msg denom (to_string a) x v) = unat a"
  by (simp add: prepare_wrapped_delegate_msg_def to_any_def)

lemma delegate_messages_Inr:
  assumes "calculate_delegations amt vs = Inr ds"
    and "delegate_messages e denom vs ds = Inr msgs"
  shows "delegates msgs = unat amt"
proof -
  from assms(2) obtain shares where shares: "nonzero_shares vs ds = Inr shares"
    and msgs: "msgs = map (\<lambda>(validator, amount).
      prepare_wrapped_delegate_msg denom (to_string amount) (contract_address e) validator) shares"
    by (auto simp: delegate_messages_def outcome_simps)
  have "delegates msgs = total_of (map snd shares)"
    unfolding msgs delegates_def by (induction shares) auto
  with delegations.shares_totalD(1) [OF assms(1) shares] show ?thesis by simp
qed

lemma find_single:
  "List.find P cs = Some c \<Longrightarrow> \<not> 1 < length cs \<Longrightarrow> cs = [c] \<and> P c"
  by (cases cs) (auto split: if_splits)

lemma query_total_lst_token_issued_state [simp]:
  "query_total_lst_token_issued d (s\<lparr>s_state := x\<rparr>) = query_total_lst_token_issued d s"
  by (simp add: query_total_lst_token_issued_def load_config_def)

text \<open>Inversion of a successful stake.\<close>

lemma execute_stake_InrD:
  assumes "execute_stake d e info kind s = Inr (r, s')"
  obtains params config st0 payment st issued minted batch st' s2 msgs dispatcher where
    "s_parameters s = Some params" "s_config s = Some config" "s_state s = Some st0"
    "s_current_batch s = Some batch"
    "reward_dispatcher_contract config = Some dispatcher"
    "kind = StakeRewardsType \<Longrightarrow> info_sender info = dispatcher"
    "info_funds info = [payment]" "coin_denom payment = staking_coin_denom params"
    "0 < unat (coin_amount payment)"
    "query_actual_state d e s st0 = Inr st" "query_total_lst_token_issued d s = Inr issued"
    "case kind of LSTMint \<Rightarrow> decimal_division (coin_amount payment) (lst_exchange_rate st) = (Inr minted :: uint128 lst_result)
       | StakeRewardsType \<Rightarrow> minted = 0"
    "\<exists>total_supply total. unat total_supply = unat issued + unat minted
       \<and> unat total = unat (total_staked_amount st) + unat (coin_amount payment)
       \<and> update_lst_exchange_rate d (st\<lparr>total_staked_amount := total\<rparr>) total_supply
           (requested_lst_token_amount batch) = Inr st'"
    "update_pending_delegation_amount e (Some (coin_amount payment)) None
       (s\<lparr>s_state := Some st\<rparr>) = Inr s2"
    "s' = s2\<lparr>s_state := Some st'\<rparr>"
    "delegates msgs = unat (coin_amount payment)"
    "case kind of LSTMint \<Rightarrow> \<exists>token. lst_token config = Some token
         \<and> messages r = msgs @ [WasmExecute token (Cw20Payload (Mint (info_sender info) minted)) []]
       | StakeRewardsType \<Rightarrow> messages r = msgs"
  using assms unfolding execute_stake_def
proof (elim outcome_elims, goal_cases)
  case (1 params config st0 dispatcher batch payment _ evs _ st s1 issued minted supp total st'
      s2 _ evs' s3 registry vs ds msgs)
  note run = 1(2-)
  have s1: "query_actual_state d e s st0 = Inr st" "s1 = s\<lparr>s_state := Some st\<rparr>"
    using check_slashing_InrD [of d e st0 s evs st s1] run(9-11) by simp_all
  have pay: "info_funds info = [payment]" "coin_denom payment = staking_coin_denom params"
    "0 < unat (coin_amount payment)"
    using find_single [OF _ run(7)] run(8) by (auto simp: ok_or_Inr word_less_nat_alt)
  have s3: "s3 = s2\<lparr>s_state := Some st'\<rparr>"
    using run(18,19) by (simp add: update_state_def)
  show ?case
  proof (rule 1(1) [of params config st0 batch dispatcher payment st issued minted st' s2 msgs])
    show "query_total_lst_token_issued d s = Inr issued"
      using run(12) by (simp add: s1(2) unwrap_Inr)
    show "\<exists>total_supply total. unat total_supply = unat issued + unat minted
       \<and> unat total = unat (total_staked_amount st) + unat (coin_amount payment)
       \<and> update_lst_exchange_rate d (st\<lparr>total_staked_amount := total\<rparr>) total_supply
           (requested_lst_token_amount batch) = Inr st'"
      using run(14-16) by (auto simp: uadd_Inr)
    show "delegates msgs = unat (coin_amount payment)"
      using delegate_messages_Inr [OF run(23,24)] .
    show "case kind of LSTMint \<Rightarrow> decimal_division (coin_amount payment) (lst_exchange_rate st)
         = (Inr minted :: uint128 lst_result) | StakeRewardsType \<Rightarrow> minted = 0"
      using run(13) by (cases kind) auto
    show "case kind of LSTMint \<Rightarrow> \<exists>token. lst_token config = Some token
         \<and> messages r = msgs @ [WasmExecute token (Cw20Payload (Mint (info_sender info) minted)) []]
       | StakeRewardsType \<Rightarrow> messages r = msgs"
      using run(25) by (cases kind) (auto simp: and_then_Inr ok_or_Inr)
    show "s' = s2\<lparr>s_state := Some st'\<rparr>"
      using run(25) s3 by (cases kind) (auto simp: and_then_Inr)
  qed (use run pay s1 in \<open>auto simp: load_items_Inr ok_or_Inr\<close>)
qed

text \<open>The rate arithmetic behind a stake: minting at a rate that is backed by the staked amount
  leaves a quotient that is not below the rate.\<close>

lemma mint_keeps_rate:
  fixes r T N p m :: nat
  assumes backed: "r * N \<le> T * 10 ^ 18" and mint: "m * r \<le> p * 10 ^ 18" and pos: "0 < N + m"
  shows "r \<le> (T + p) * 10 ^ 18 div (N + m)"
proof -
  have "r * (N + m) \<le> (T + p) * 10 ^ 18"
    using add_mono [OF backed mint] by (simp add: algebra_simps)
  then show ?thesis
    using pos by (simp add: less_eq_div_iff_mult_less_eq)
qed

lemma stake_rate:
  assumes "decimal_ratio_law d" and "execute_stake d e info kind s = Inr (r, s')"
    and "s_state s = Some st0" and "query_actual_state d e s st0 = Inr st"
    and "query_total_lst_token_issued d s = Inr issued" and "s_current_batch s = Some cb"
    and "0 < unat issued + unat (requested_lst_token_amount cb)"
    and "unat (atomics (lst_exchange_rate st)) * (unat issued + unat (requested_lst_token_amount cb))
      \<le> unat (total_staked_amount st) * 10 ^ 18"
  shows "lst_exchange_rate st \<le> lst_exchange_rate (the (s_state s'))"
  using assms(2)
proof (rule execute_stake_InrD)
  fix st0' st'' issued' minted batch st' s2 and payment :: coin
  assume run: "s_state s = Some st0'" "s_current_batch s = Some batch" "0 < unat (coin_amount payment)"
      "query_actual_state d e s st0' = Inr st''" "query_total_lst_token_issued d s = Inr issued'"
      "s' = s2\<lparr>s_state := Some st'\<rparr>"
    and mint: "case kind of
        LSTMint \<Rightarrow> decimal_division (coin_amount payment) (lst_exchange_rate st'')
          = (Inr minted :: uint128 lst_result)
      | StakeRewardsType \<Rightarrow> minted = 0"
    and rate: "\<exists>total_supply total. unat total_supply = unat issued' + unat minted
       \<and> unat total = unat (total_staked_amount st'') + unat (coin_amount payment)
       \<and> update_lst_exchange_rate d (st''\<lparr>total_staked_amount := total\<rparr>) total_supply
           (requested_lst_token_amount batch) = Inr st'"
  from run assms have same: "st'' = st" "issued' = issued" "batch = cb" by simp_all
  let ?r = "unat (atomics (lst_exchange_rate st))" and ?p = "unat (coin_amount payment)"
    and ?N = "unat issued + unat (requested_lst_token_amount cb)"
  from rate obtain total_supply total where
    total: "unat total_supply = unat issued + unat minted"
      "unat total = unat (total_staked_amount st) + ?p"
    and upd: "update_lst_exchange_rate d (st\<lparr>total_staked_amount := total\<rparr>) total_supply
      (requested_lst_token_amount cb) = Inr st'"
    unfolding same by blast
  have "unat minted * ?r \<le> ?p * 10 ^ 18"
    using mint by (cases kind) (simp_all add: same decimal_division_Inr)
  moreover have "0 < ?N + unat minted"
    using assms(7) by simp
  ultimately have "?r \<le> (unat (total_staked_amount st) + ?p) * 10 ^ 18 div (?N + unat minted)"
    by (rule mint_keeps_rate [OF assms(8)])
  moreover have "unat (atomics (lst_exchange_rate st'))
      = (unat (total_staked_amount st) + ?p) * 10 ^ 18 div (?N + unat minted)"
    using update_lst_exchange_rate_value [OF assms(1) upd] total run(3) assms(7)
    by (auto simp: ac_simps)
  ultimately show ?thesis
    using run(6) by (simp add: less_eq_decimal_def word_le_nat_alt)
qed

section \<open>Properties\<close>

text \<open>
  Staking for tokens accepts exactly one coin of the staking denomination, delegates the
  whole of it (the amounts of the delegation messages add up to the payment), adds it to the
  staked amount, and ends with one message that mints, for the sender, the payment divided by
  the exchange rate of the slashing check, rounded down.
\<close>

theorem stake_mints_at_rate:
  assumes "execute_stake d e info LSTMint s = Inr (r, s')"
  shows "\<exists>params config st0 payment st st' minted token msgs.
      s_parameters s = Some params \<and> s_config s = Some config \<and> s_state s = Some st0
    \<and> info_funds info = [payment] \<and> coin_denom payment = staking_coin_denom params
    \<and> query_actual_state d e s st0 = Inr st
    \<and> unat minted = unat (coin_amount payment) * 10 ^ 18 div unat (atomics (lst_exchange_rate st))
    \<and> lst_token config = Some token
    \<and> messages r = msgs @ [WasmExecute token (Cw20Payload (Mint (info_sender info) minted)) []]
    \<and> delegates msgs = unat (coin_amount payment)
    \<and> s_state s' = Some st'
    \<and> unat (total_staked_amount st') = unat (total_staked_amount st) + unat (coin_amount payment)"
  using assms
proof (rule execute_stake_InrD)
  fix params config st0 payment st st' s2 msgs and batch :: current_batch and issued minted :: uint128
  assume run: "s_parameters s = Some params" "s_config s = Some config" "s_state s = Some st0"
      "info_funds info = [payment]" "coin_denom payment = staking_coin_denom params"
      "query_actual_state d e s st0 = Inr st" "s' = s2\<lparr>s_state := Some st'\<rparr>"
      "delegates msgs = unat (coin_amount payment)"
    and mint: "case LSTMint of
        LSTMint \<Rightarrow> decimal_division (coin_amount payment) (lst_exchange_rate st)
          = (Inr minted :: uint128 lst_result)
      | StakeRewardsType \<Rightarrow> minted = 0"
    and rate: "\<exists>total_supply total. unat total_supply = unat issued + unat minted
       \<and> unat total = unat (total_staked_amount st) + unat (coin_amount payment)
       \<and> update_lst_exchange_rate d (st\<lparr>total_staked_amount := total\<rparr>) total_supply
           (requested_lst_token_amount batch) = Inr st'"
    and msgs: "case LSTMint of
        LSTMint \<Rightarrow> \<exists>token. lst_token config = Some token
          \<and> messages r = msgs @ [WasmExecute token (Cw20Payload (Mint (info_sender info) minted)) []]
      | StakeRewardsType \<Rightarrow> messages r = msgs"
  have "unat minted = unat (coin_amount payment) * 10 ^ 18 div unat (atomics (lst_exchange_rate st))"
    using mint by (simp add: decimal_division_Inr)
  moreover have "unat (total_staked_amount st')
      = unat (total_staked_amount st) + unat (coin_amount payment)"
    using rate by (auto dest: update_lst_exchange_rate_InrD)
  moreover have "s_state s' = Some st'" using run by simp
  ultimately show ?thesis
    using run msgs by (simp only: stake_type.case) blast
qed

text \<open>
  Staked rewards are accepted from the reward dispatcher only; they are delegated whole, add
  to the staked amount, and mint nothing.
\<close>

theorem stake_rewards_mints_nothing:
  assumes "execute_stake d e info StakeRewardsType s = Inr (r, s')"
  shows "\<exists>config payment st0 st st'. s_config s = Some config
    \<and> reward_dispatcher_contract config = Some (info_sender info)
    \<and> info_funds info = [payment] \<and> s_state s = Some st0
    \<and> query_actual_state d e s st0 = Inr st \<and> s_state s' = Some st'
    \<and> unat (total_staked_amount st') = unat (total_staked_amount st) + unat (coin_amount payment)
    \<and> delegates (messages r) = unat (coin_amount payment)"
  using assms
proof (rule execute_stake_InrD)
  fix config st0 payment st st' s2 msgs dispatcher
    and batch :: current_batch and issued minted :: uint128
  assume run: "s_config s = Some config" "s_state s = Some st0"
      "reward_dispatcher_contract config = Some dispatcher"
      "StakeRewardsType = StakeRewardsType \<Longrightarrow> info_sender info = dispatcher"
      "info_funds info = [payment]"
      "query_actual_state d e s st0 = Inr st" "s' = s2\<lparr>s_state := Some st'\<rparr>"
      "delegates msgs = unat (coin_amount payment)"
    and rate: "\<exists>total_supply total. unat total_supply = unat issued + unat minted
       \<and> unat total = unat (total_staked_amount st) + unat (coin_amount payment)
       \<and> update_lst_exchange_rate d (st\<lparr>total_staked_amount := total\<rparr>) total_supply
           (requested_lst_token_amount batch) = Inr st'"
    and msgs: "case StakeRewardsType of
        LSTMint \<Rightarrow> \<exists>token. lst_token config = Some token
          \<and> messages r = msgs @ [WasmExecute token (Cw20Payload (Mint (info_sender info) minted)) []]
      | StakeRewardsType \<Rightarrow> messages r = msgs"
  have "unat (total_staked_amount st')
      = unat (total_staked_amount st) + unat (coin_amount payment)"
    using rate by (auto dest: update_lst_exchange_rate_InrD)
  with run msgs show ?thesis by auto
qed

text \<open>
  No stake, of coins or of rewards, lowers the exchange rate that the slashing check found,
  as long as tokens exist and that rate is backed (rate times tokens is at most the staked
  amount); the rounding of the minted amount and of the stored rate is in favour of the
  existing token holders.
\<close>

theorem stake_never_lowers_rate:
  assumes "decimal_ratio_law d" and "execute_stake d e info kind s = Inr (r, s')"
    and "s_state s = Some st0" and "query_actual_state d e s st0 = Inr st"
    and "query_total_lst_token_issued d s = Inr issued" and "s_current_batch s = Some cb"
    and "0 < unat issued + unat (requested_lst_token_amount cb)"
    and "unat (atomics (lst_exchange_rate st)) * (unat issued + unat (requested_lst_token_amount cb))
      \<le> unat (total_staked_amount st) * 10 ^ 18"
  shows "lst_exchange_rate st \<le> lst_exchange_rate (the (s_state s'))"
  by (rule stake_rate [OF assms])

text \<open>
  Before the token contract is configured, the first stake does not return the error the
  code declares for this (\<open>LstTokenNotSet\<close>): the unwrapped supply query panics.
\<close>

theorem stake_without_token_panics:
  assumes "s_parameters s = Some params" and "s_config s = Some config"
    and "s_state s = Some st" and "s_current_batch s = Some batch"
    and "reward_dispatcher_contract config = Some dispatcher" and "lst_token config = None"
    and "info_funds info = [payment]" and "coin_denom payment = staking_coin_denom params"
    and "coin_amount payment \<noteq> 0"
    and "query_all_delegations d (contract_address e) = Inr []"
  shows "execute_stake d e info LSTMint s = Inl (Panic UnwrapFailed)"
  using assms
  by (simp add: execute_stake_def load_defs check_slashing_def query_actual_state_def query_std_def
      from_err_def update_state_def query_total_lst_token_issued_def word_gt_0 ok_or_def)

section \<open>Witnesses\<close>

text \<open>90 coins are staked at the rate 0.9 that the slashing check finds, for 100 tokens.\<close>

lemmas stake_eval = execute_stake_def delegate_messages_def prepare_wrapped_delegate_msg_def
  update_pending_delegation_amount_def unwrap_or_zero_def decimal_division_def widen_def narrow_def
  DECIMAL_FRACTIONAL_def

lemma stake_sample_runs:
  "\<exists>r s'. execute_stake sample_deps now (by_user alice [bbn 90]) LSTMint sample_hub = Inr (r, s')"
  by (simp add: stake_eval slashing_eval storage_eval sample_defs split_eval cong: eval_cong)

lemma rewards_sample_runs:
  "\<exists>r s'. execute_stake sample_deps now (by_user sample_dispatcher [bbn 90]) StakeRewardsType
     sample_hub = Inr (r, s')"
  by (simp add: stake_eval slashing_eval storage_eval sample_defs split_eval cong: eval_cong)

lemma stake_mints_at_rate_witness:
  "\<exists>r s' msgs minted. execute_stake sample_deps now (by_user alice [bbn 90]) LSTMint sample_hub
      = Inr (r, s')
    \<and> messages r = msgs @ [WasmExecute sample_token (Cw20Payload (Mint alice minted)) []]
    \<and> unat minted = 100 \<and> delegates msgs = 90"
proof -
  from stake_sample_runs obtain r s' where
    run: "execute_stake sample_deps now (by_user alice [bbn 90]) LSTMint sample_hub = Inr (r, s')"
    by blast
  have "\<exists>msgs minted. messages r = msgs @ [WasmExecute sample_token (Cw20Payload (Mint alice minted)) []]
    \<and> unat minted = 100 \<and> delegates msgs = 90"
    using stake_mints_at_rate [OF run] query_sample
    by (auto simp: by_user_def bbn_def sample_config_def)
  with run show ?thesis by blast
qed

lemma stake_rewards_mints_nothing_witness:
  "\<exists>r s'. execute_stake sample_deps now (by_user sample_dispatcher [bbn 90]) StakeRewardsType
     sample_hub = Inr (r, s') \<and> delegates (messages r) = 90
    \<and> unat (total_staked_amount (the (s_state s'))) = 990"
proof -
  from rewards_sample_runs obtain r s' where
    run: "execute_stake sample_deps now (by_user sample_dispatcher [bbn 90]) StakeRewardsType
      sample_hub = Inr (r, s')"
    by blast
  have "delegates (messages r) = 90 \<and> unat (total_staked_amount (the (s_state s'))) = 990"
    using stake_rewards_mints_nothing [OF run] query_sample by (auto simp: by_user_def bbn_def)
  with run show ?thesis by blast
qed

lemma issued_sample: "query_total_lst_token_issued sample_deps sample_hub = Inr 900"
  by (simp add: query_total_lst_token_issued_def storage_eval sample_defs eval_simps cong: eval_cong)

lemma stake_never_lowers_rate_witness:
  "\<exists>r s'. execute_stake sample_deps now (by_user sample_dispatcher [bbn 90]) StakeRewardsType
     sample_hub = Inr (r, s')
    \<and> Decimal 900000000000000000 \<le> lst_exchange_rate (the (s_state s'))"
proof -
  from rewards_sample_runs obtain r s' where
    run: "execute_stake sample_deps now (by_user sample_dispatcher [bbn 90]) StakeRewardsType
      sample_hub = Inr (r, s')"
    by blast
  from stake_never_lowers_rate [OF sample_laws(1) run sample_hub_items(4) query_sample issued_sample
      sample_hub_items(3)] run
  show ?thesis by (auto simp: sample_batch_def)
qed

lemma stake_without_token_panics_witness:
  "execute_stake (sample_deps\<lparr>query_all_delegations := \<lambda>_. Inr []\<rparr>) now (by_user alice [bbn 90]) LSTMint
     (sample_hub\<lparr>s_config := Some (sample_config\<lparr>lst_token := None\<rparr>)\<rparr>) = Inl (Panic UnwrapFailed)"
  by (rule stake_without_token_panics [where payment = "bbn 90" and params = sample_params
      and config = "sample_config\<lparr>lst_token := None\<rparr>" and dispatcher = sample_dispatcher])
    (simp_all add: sample_config_def by_user_def bbn_def sample_params_def)

end
