(* ===== verification/Hub_Unstake.thy ===== *)
theory Hub_Unstake
  imports Hub_Stake
begin

text \<open>
  \<open>contracts/lst_staking_hub/src/unstake.rs\<close>: requests to unstake are collected in the current
  batch; when an epoch has passed the batch is undelegated from the validators and becomes a
  history entry; after the unstaking period entries are released in order, as long as the
  unstaked balance of the hub covers them; released entries are paid to the users.
\<close>

section \<open>The code: requests and undelegation\<close>

definition prepare_wrapped_undelegate_msg ::
    "string \<Rightarrow> string \<Rightarrow> string \<Rightarrow> string \<Rightarrow> cosmos_msg" where
  "prepare_wrapped_undelegate_msg denom amount delegator validator =
     (let coin = ProtoCoin denom amount;
          undelegate_msg = MsgUndelegate delegator validator (Some coin) in
      to_any (MsgWrappedUndelegate (Some undelegate_msg)))"

definition update_unstake_batch_wait_list ::
    "deps \<Rightarrow> current_batch \<Rightarrow> string \<Rightarrow> uint128 \<Rightarrow> hub_storage
     \<Rightarrow> (current_batch \<times> hub_storage) lst_result" where
  "update_unstake_batch_wait_list d batch sender_address amount s =
     and_then (uadd (requested_lst_token_amount batch) amount) (\<lambda>requested.
     let batch' = batch\<lparr>requested_lst_token_amount := requested\<rparr> in
     and_then (to_checked_address d sender_address) (\<lambda>checked_sender.
     let existing_amount = may_load (s_unstake_wait_list s) (checked_sender, cb_id batch') in
     and_then (case existing_amount of
         Some current_amount \<Rightarrow> uadd current_amount amount
       | None \<Rightarrow> Inr amount) (\<lambda>new_amount.
     Inr (batch', s\<lparr>s_unstake_wait_list :=
       save (checked_sender, cb_id batch') new_amount (s_unstake_wait_list s)\<rparr>))))"

definition pick_validator_for_undelegation ::
    "deps \<Rightarrow> env \<Rightarrow> uint128 \<Rightarrow> hub_storage \<Rightarrow> cosmos_msg list lst_result" where
  "pick_validator_for_undelegation d e claim s =
     and_then (load_parameters s) (\<lambda>params.
     and_then (load_config s) (\<lambda>config.
     and_then (ok_or (validators_registry_contract config) (Hub ValidatorRegistryNotSet))
       (\<lambda>registry.
     and_then (query_std (query_validators_delegation d registry)) (\<lambda>validators.
     and_then (calculate_undelegations claim validators) (\<lambda>undelegations.
     and_then (nonzero_shares validators undelegations) (\<lambda>shares.
     Inr (map (\<lambda>(validator, amount).
       prepare_wrapped_undelegate_msg (staking_coin_denom params) (to_string amount)
         (contract_address e) validator) shares)))))))"

text \<open>Returns the messages, and the mutated batch, state and storage.\<close>

definition process_undelegations_for_batch ::
    "deps \<Rightarrow> env \<Rightarrow> current_batch \<Rightarrow> hub_state \<Rightarrow> hub_storage
     \<Rightarrow> (cosmos_msg list \<times> current_batch \<times> hub_state \<times> hub_storage) lst_result" where
  "process_undelegations_for_batch d e batch st s =
     and_then (decimal_multiplication (requested_lst_token_amount batch) (lst_exchange_rate st))
       (\<lambda>unstaked_amount_in_batch.
     and_then (pick_validator_for_undelegation d e unstaked_amount_in_batch s)
       (\<lambda>undelegate_msgs.
     and_then (checked_sub_or_overflow (total_staked_amount st) unstaked_amount_in_batch)
       (\<lambda>total.
     let st1 = st\<lparr>total_staked_amount := total\<rparr> in
     and_then (update_pending_delegation_amount e None (Some unstaked_amount_in_batch) s) (\<lambda>s1.
     let history = \<lparr>uh_batch_id = cb_id batch, uh_time = block_time e,
           lst_token_amount = requested_lst_token_amount batch,
           lst_applied_exchange_rate = lst_exchange_rate st1,
           lst_withdraw_rate = lst_exchange_rate st1, released = False\<rparr>;
         s2 = s1\<lparr>s_unstake_history := save (cb_id batch) history (s_unstake_history s1)\<rparr> in
     and_then (uadd (cb_id batch) 1) (\<lambda>next_id.
     Inr (undelegate_msgs,
          batch\<lparr>cb_id := next_id, requested_lst_token_amount := 0\<rparr>,
          st1\<lparr>last_unbonded_time := block_time e\<rparr>, s2))))))"

definition check_for_unstake_batch_epoch_completion ::
    "deps \<Rightarrow> env \<Rightarrow> current_batch \<Rightarrow> hub_storage
     \<Rightarrow> (cosmos_msg list \<times> event list \<times> current_batch \<times> hub_storage) lst_result" where
  "check_for_unstake_batch_epoch_completion d e batch s =
     and_then (load_parameters s) (\<lambda>params.
     and_then (load_state s) (\<lambda>old_state.
     and_then (check_slashing d e old_state s) (\<lambda>(slashing_events, st, s1).
     and_then (usub (block_time e) (last_unbonded_time st)) (\<lambda>passed_time.
     and_then
       (if epoch_length params < passed_time
        then process_undelegations_for_batch d e batch st s1
        else Inr ([], batch, st, s1)) (\<lambda>(msgs, batch', st', s2).
     and_then (update_state d old_state st' (s2\<lparr>s_current_batch := Some batch'\<rparr>))
       (\<lambda>(undelegate_events, s3).
     Inr (msgs, slashing_events @ undelegate_events, batch', s3)))))))"

text \<open>The burn message: the hub burns what it holds, or what the user allowed it to burn.\<close>

definition burn_message ::
    "deps \<Rightarrow> env \<Rightarrow> addr \<Rightarrow> string \<Rightarrow> uint128 \<Rightarrow> unstake_type \<Rightarrow> cw20_execute_msg lst_result" where
  "burn_message d e lst_token_addr sender amount flow =
     (case flow of
        BurnFlow \<Rightarrow> Inr (Burn amount)
      | BurnFromFlow \<Rightarrow>
          and_then (query_std (query_cw20_balance d lst_token_addr sender)) (\<lambda>balance.
          if balance < amount then hub_err HubInsufficientFunds else
          and_then (query_std (query_cw20_allowance d lst_token_addr sender (contract_address e)))
            (\<lambda>allowance.
          if allowance < amount then hub_err InsufficientAllowance else
          Inr (BurnFrom sender amount))))"

definition execute_unstake ::
    "deps \<Rightarrow> env \<Rightarrow> uint128 \<Rightarrow> string \<Rightarrow> unstake_type \<Rightarrow> hub_storage
     \<Rightarrow> (response \<times> hub_storage) lst_result" where
  "execute_unstake d e amount sender flow s =
     and_then (load_current_batch s) (\<lambda>batch.
     and_then (update_unstake_batch_wait_list d batch sender amount s) (\<lambda>(batch1, s1).
     and_then (check_for_unstake_batch_epoch_completion d e batch1 s1) (\<lambda>(msgs, evs, _, s2).
     and_then (load_config s2) (\<lambda>config.
     and_then (ok_or (lst_token config) (Hub LstTokenNotSet)) (\<lambda>lst_token_addr.
     and_then (burn_message d e lst_token_addr sender amount flow) (\<lambda>burn_msg.
     Inr (\<lparr>messages = msgs @ [WasmExecute lst_token_addr (Cw20Payload burn_msg) []],
           events = evs, attributes =
             [(''action'', ''burn''), (''from'', sender), (''burnt_amount'', to_string amount),
              (''unstaked_amount'', to_string amount)]\<rparr>, s2)))))))"

definition execute_process_undelegations ::
    "deps \<Rightarrow> env \<Rightarrow> hub_storage \<Rightarrow> (response \<times> hub_storage) lst_result" where
  "execute_process_undelegations d e s =
     and_then (load_current_batch s) (\<lambda>batch.
     if requested_lst_token_amount batch = 0 then Inr (response_new, s) else
     and_then (check_for_unstake_batch_epoch_completion d e batch s) (\<lambda>(msgs, evs, batch', s').
     Inr (\<lparr>messages = msgs, events = evs, attributes =
            [(''process undelegations'', to_string (cb_id batch'))]\<rparr>, s')))"

section \<open>The code: release and withdrawal\<close>

lemma and_then_cong [fundef_cong]:
  "m = m' \<Longrightarrow> (\<And>a. m' = Inr a \<Longrightarrow> k a = k' a) \<Longrightarrow> and_then m k = and_then m' k'"
  by (cases m') auto

text \<open>The loop of \<open>get_unprocessed_histories\<close>. It ends because \<open>batch_id += 1\<close> panics at the
  largest identifier, and in fact at the first identifier without a history.\<close>

function unprocessed_loop ::
    "hub_storage \<Rightarrow> u64 \<Rightarrow> u64 \<Rightarrow> uint128 \<Rightarrow> (u64 \<times> unstake_history) list
     \<Rightarrow> ((u64 \<times> unstake_history) list \<times> uint128) lst_result" where
  "unprocessed_loop s cutoff batch_id remaining histories =
     (case read_unstake_history s batch_id of
        Inl (Panic p) \<Rightarrow> Inl (Panic p)
      | Inl (Err _) \<Rightarrow> Inr (histories, remaining)
      | Inr h \<Rightarrow>
          if cutoff < uh_time h then Inr (histories, remaining)
          else if \<not> released h then
            and_then (decimal_multiplication (lst_token_amount h) (lst_withdraw_rate h))
              (\<lambda>required_amount.
            if required_amount \<le> remaining then
              and_then (checked_sub_or_overflow remaining required_amount) (\<lambda>remaining'.
              and_then (uadd batch_id 1) (\<lambda>batch_id'.
              unprocessed_loop s cutoff batch_id' remaining' (histories @ [(batch_id, h)])))
            else Inr (histories, remaining))
          else Inr (histories, remaining))"
  by pat_completeness auto

termination
proof (relation "measure (\<lambda>(_, _, batch_id, _). 2 ^ 64 - unat batch_id)", goal_cases)
  case (2 s cutoff batch_id remaining histories h required_amount remaining' batch_id')
  then have "unat batch_id' = unat batch_id + 1"
    by (simp add: uadd_Inr)
  with unat_less [of batch_id'] show ?case by simp
qed simp

declare unprocessed_loop.simps [simp del]

definition get_unprocessed_histories ::
    "hub_storage \<Rightarrow> u64 \<Rightarrow> u64 \<Rightarrow> uint128 \<Rightarrow> ((u64 \<times> unstake_history) list \<times> uint128) lst_result" where
  "get_unprocessed_histories s start_batch unstake_cutoff_time contract_balance =
     and_then (uadd start_batch 1) (\<lambda>batch_id.
     unprocessed_loop s unstake_cutoff_time batch_id contract_balance [])"

text \<open>The loop of \<open>process_withdraw_rate\<close> that marks the histories as released.\<close>

definition release_batch ::
    "u64 \<times> unstake_history \<Rightarrow> hub_state \<times> hub_storage \<Rightarrow> (hub_state \<times> hub_storage) lst_result" where
  "release_batch = (\<lambda>(batch_id, history) (st, s).
     Inr (st\<lparr>last_processed_batch := batch_id\<rparr>,
          s\<lparr>s_unstake_history := save batch_id (history\<lparr>released := True\<rparr>) (s_unstake_history s)\<rparr>))"

definition process_withdraw_rate ::
    "deps \<Rightarrow> u64 \<Rightarrow> uint128 \<Rightarrow> hub_storage \<Rightarrow> (event list \<times> uint128 \<times> hub_storage) lst_result" where
  "process_withdraw_rate d unstake_cutoff_time hub_balance s =
     and_then (load_state s) (\<lambda>old_state.
     and_then (checked_sub_or_overflow hub_balance (unclaimed_unstaked_balance old_state))
       (\<lambda>total_unstaked_amount.
     and_then (get_unprocessed_histories s (last_processed_batch old_state) unstake_cutoff_time
         total_unstaked_amount) (\<lambda>(histories, left_over_unstaked_amount).
     if histories = [] then Inr ([], left_over_unstaked_amount, s) else
     and_then (for_each release_batch histories (old_state, s)) (\<lambda>(st, s1).
     and_then (update_state d old_state st s1) (\<lambda>(withdraw_rate_events, s2).
     Inr (withdraw_rate_events, left_over_unstaked_amount, s2))))))"

text \<open>The balance of the hub without what is pending to be delegated, and the cutoff time.\<close>

definition free_balance_and_cutoff ::
    "deps \<Rightarrow> env \<Rightarrow> hub_storage \<Rightarrow> (parameters \<times> uint128 \<times> u64) lst_result" where
  "free_balance_and_cutoff d e s =
     and_then (load_parameters s) (\<lambda>params.
     and_then (usub (block_time e) (unstaking_period params)) (\<lambda>unstake_cutoff_time.
     and_then (query_std (query_balance d (contract_address e) (staking_coin_denom params)))
       (\<lambda>balance.
     let hub_balance = coin_amount balance in
     and_then (get_pending_delegation_amount e s) (\<lambda>(pending_staking, _).
     and_then (checked_sub_or_overflow hub_balance pending_staking) (\<lambda>actual_free_balance.
     Inr (params, actual_free_balance, unstake_cutoff_time))))))"

text \<open>\<open>STATE.update(..)\<close> with the new unclaimed balance.\<close>

definition save_unclaimed_balance :: "uint128 \<Rightarrow> hub_storage \<Rightarrow> hub_storage lst_result" where
  "save_unclaimed_balance amount s =
     and_then (load_state s) (\<lambda>st.
     Inr (s\<lparr>s_state := Some (st\<lparr>unclaimed_unstaked_balance := amount\<rparr>)\<rparr>))"

definition execute_process_withdraw_requests ::
    "deps \<Rightarrow> env \<Rightarrow> hub_storage \<Rightarrow> (response \<times> hub_storage) lst_result" where
  "execute_process_withdraw_requests d e s =
     and_then (free_balance_and_cutoff d e s) (\<lambda>(_, actual_free_balance, unstake_cutoff_time).
     and_then (process_withdraw_rate d unstake_cutoff_time actual_free_balance s)
       (\<lambda>(evs, left_over_unstaked_amount, s1).
     and_then (checked_sub_or_overflow actual_free_balance left_over_unstaked_amount)
       (\<lambda>unclaimed.
     and_then (save_unclaimed_balance unclaimed s1) (\<lambda>s2.
     Inr (response_new\<lparr>events := evs, attributes :=
            [(''action'', ''process_withdraw_requests'')]\<rparr>, s2)))))"

definition execute_withdraw_unstaked_impl ::
    "deps \<Rightarrow> env \<Rightarrow> message_info \<Rightarrow> u64 list option \<Rightarrow> hub_storage
     \<Rightarrow> (response \<times> hub_storage) lst_result" where
  "execute_withdraw_unstaked_impl d e info batch_ids s =
     and_then (free_balance_and_cutoff d e s) (\<lambda>(params, actual_free_balance, unstake_cutoff_time).
     and_then (process_withdraw_rate d unstake_cutoff_time actual_free_balance s)
       (\<lambda>(evs, left_over_unstaked_amount, s1).
     and_then (case batch_ids of
         Some ids \<Rightarrow> get_finished_amount_for_batches s1 (info_sender info) ids
       | None \<Rightarrow> get_finished_amount s1 (info_sender info)) (\<lambda>(withdraw_amount, deprecated_batches).
     if withdraw_amount = 0 then hub_err NoWithdrawableAssets else
     and_then (remove_unstake_wait_list deprecated_batches (info_sender info) s1) (\<lambda>s2.
     and_then (checked_sub_or_overflow actual_free_balance withdraw_amount) (\<lambda>after_withdraw.
     and_then (checked_sub_or_overflow after_withdraw left_over_unstaked_amount) (\<lambda>unclaimed.
     and_then (save_unclaimed_balance unclaimed s2) (\<lambda>s3.
     Inr (\<lparr>messages = [BankSend (info_sender info)
              [\<lparr>coin_denom = staking_coin_denom params, coin_amount = withdraw_amount\<rparr>]],
           events = evs, attributes =
             [(''action'', ''finish_burn''), (''from'', contract_address e),
              (''amount'', to_string withdraw_amount)]\<rparr>, s3))))))))"

definition execute_withdraw_unstaked ::
    "deps \<Rightarrow> env \<Rightarrow> message_info \<Rightarrow> hub_storage \<Rightarrow> (response \<times> hub_storage) lst_result" where
  "execute_withdraw_unstaked d e info = execute_withdraw_unstaked_impl d e info None"

definition execute_withdraw_unstaked_for_batches ::
    "deps \<Rightarrow> env \<Rightarrow> message_info \<Rightarrow> u64 list \<Rightarrow> hub_storage \<Rightarrow> (response \<times> hub_storage) lst_result" where
  "execute_withdraw_unstaked_for_batches d e info batch_ids =
     execute_withdraw_unstaked_impl d e info (Some batch_ids)"

section \<open>What they do: requests and undelegation\<close>

fun message_undelegates :: "cosmos_msg \<Rightarrow> nat" where
  "message_undelegates (AnyMsg _ (MsgWrappedUndelegate (Some (MsgUndelegate _ _ (Some c))))) =
     nat_of_string (proto_amount c)"
| "message_undelegates _ = 0"

definition undelegates :: "cosmos_msg list \<Rightarrow> nat" where
  "undelegates msgs = sum_list (map message_undelegates msgs)"

lemma message_undelegates_prepared [simp]:
  "message_undelegates (prepare_wrapped_undelegate_msg denom (to_string a) x v) = unat a"
  by (simp add: prepare_wrapped_undelegate_msg_def to_any_def)

lemma pick_validator_Inr:
  assumes "pick_validator_for_undelegation d e claim s = Inr msgs"
  shows "undelegates msgs = unat claim"
proof -
  from assms obtain params :: parameters and vs us shares where
    us: "calculate_undelegations claim vs = Inr us" and shares: "nonzero_shares vs us = Inr shares"
    and msgs: "msgs = map (\<lambda>(validator, amount). prepare_wrapped_undelegate_msg
      (staking_coin_denom params) (to_string amount) (contract_address e) validator) shares"
    by (auto simp: pick_validator_for_undelegation_def outcome_simps)
  have "undelegates msgs = total_of (map snd shares)"
    unfolding msgs undelegates_def by (induction shares) auto
  with undelegations.shares_totalD(1) [OF us shares] show ?thesis by simp
qed

text \<open>The amount of a wait-list entry as a number, 0 when there is none.\<close>

definition waiting :: "hub_storage \<Rightarrow> addr \<Rightarrow> u64 \<Rightarrow> nat" where
  "waiting s a b = (case may_load (s_unstake_wait_list s) (a, b) of None \<Rightarrow> 0 | Some v \<Rightarrow> unat v)"

lemma update_unstake_batch_wait_list_InrD:
  assumes "update_unstake_batch_wait_list d batch sender amount s = Inr (batch', s')"
  obtains a and requested v :: uint128 where "addr_validate d sender = Inr a"
    "batch' = batch\<lparr>requested_lst_token_amount := requested\<rparr>"
    "unat requested = unat (requested_lst_token_amount batch) + unat amount"
    "s' = s\<lparr>s_unstake_wait_list := save (a, cb_id batch) v (s_unstake_wait_list s)\<rparr>"
    "unat v = waiting s a (cb_id batch) + unat amount"
  using assms unfolding update_unstake_batch_wait_list_def
proof (elim outcome_elims, goal_cases)
  case (1 requested a v)
  then show ?case
    using 1(1) [of a requested v]
    by (auto simp: to_checked_address_def from_err_Inr uadd_Inr waiting_def split: option.splits)
qed

lemma update_pending_frame:
  assumes "update_pending_delegation_amount e st un s = Inr s'"
  obtains pd' where "s' = s\<lparr>s_pending_delegation := Some pd'\<rparr>"
  using assms by (auto simp: update_pending_delegation_amount_def outcome_simps Let_def)

lemma update_pending_state:
  "update_pending_delegation_amount e st un (s\<lparr>s_state := x\<rparr>) =
     map_sum id (\<lambda>s'. s'\<lparr>s_state := x\<rparr>) (update_pending_delegation_amount e st un s)"
proof (cases "load_pending_delegation s")
  case (Inr pd)
  then have "load_pending_delegation (s\<lparr>s_state := x\<rparr>) = Inr pd"
    by (simp add: load_pending_delegation_def)
  with Inr show ?thesis
    by (auto simp: update_pending_delegation_amount_def Let_def and_then_def split: sum.splits)
qed (simp add: update_pending_delegation_amount_def load_pending_delegation_def)

lemma process_undelegations_for_batch_InrD:
  assumes "process_undelegations_for_batch d e batch st s = Inr (msgs, batch', st', s')"
  obtains unstaked total :: uint128 and next_id :: u64 and pd' where
    "unat unstaked = unat (requested_lst_token_amount batch)
        * unat (atomics (lst_exchange_rate st)) div 10 ^ 18"
    "undelegates msgs = unat unstaked"
    "unat (total_staked_amount st) = unat unstaked + unat total"
    "st' = st\<lparr>total_staked_amount := total, last_unbonded_time := block_time e\<rparr>"
    "unat next_id = unat (cb_id batch) + 1"
    "batch' = batch\<lparr>cb_id := next_id, requested_lst_token_amount := 0\<rparr>"
    "s' = s\<lparr>s_pending_delegation := Some pd',
       s_unstake_history := save (cb_id batch)
         \<lparr>uh_batch_id = cb_id batch, uh_time = block_time e,
          lst_token_amount = requested_lst_token_amount batch,
          lst_applied_exchange_rate = lst_exchange_rate st,
          lst_withdraw_rate = lst_exchange_rate st, released = False\<rparr> (s_unstake_history s)\<rparr>"
    "update_pending_delegation_amount e None (Some unstaked) s = Inr (s\<lparr>s_pending_delegation := Some pd'\<rparr>)"
  using assms unfolding process_undelegations_for_batch_def
proof (elim outcome_elims, goal_cases)
  case (1 unstaked ms total s1 next_id)
  obtain pd' where s1: "s1 = s\<lparr>s_pending_delegation := Some pd'\<rparr>"
    using 1(5) by (rule update_pending_frame)
  show ?case
    by (rule 1(1) [of unstaked total next_id pd'])
      (use 1(2-) pick_validator_Inr [OF 1(3)] s1 in
        \<open>simp_all add: decimal_multiplication_Inr checked_sub_or_overflow_Inr uadd_Inr\<close>)
qed

text \<open>The two ways a batch check ends: the epoch goes on, or the batch is closed.\<close>

lemma epoch_completion_cases:
  assumes "check_for_unstake_batch_epoch_completion d e batch s = Inr (msgs, evs, batch', s')"
  obtains (waiting) params st0 st where
    "s_parameters s = Some params" "s_state s = Some st0" "query_actual_state d e s st0 = Inr st"
    "unat (last_unbonded_time st) \<le> unat (block_time e)"
    "unat (block_time e) - unat (last_unbonded_time st) \<le> unat (epoch_length params)"
    "msgs = []" "batch' = batch" "s' = s\<lparr>s_state := Some st, s_current_batch := Some batch\<rparr>"
  | (closed) params st0 st st' s2 where
    "s_parameters s = Some params" "s_state s = Some st0" "query_actual_state d e s st0 = Inr st"
    "unat (last_unbonded_time st) \<le> unat (block_time e)"
    "unat (epoch_length params) < unat (block_time e) - unat (last_unbonded_time st)"
    "process_undelegations_for_batch d e batch st (s\<lparr>s_state := Some st\<rparr>)
       = Inr (msgs, batch', st', s2)"
    "s' = s2\<lparr>s_current_batch := Some batch', s_state := Some st'\<rparr>"
  using assms unfolding check_for_unstake_batch_epoch_completion_def
proof (elim outcome_elims, goal_cases)
  case (1 params st0 _ evs1 _ st s1 passed _ ms _ b' _ st' s2 _ evs2 s3)
  note run = 1(3-)
  have s1: "query_actual_state d e s st0 = Inr st" "s1 = s\<lparr>s_state := Some st\<rparr>"
    using check_slashing_InrD [of d e st0 s evs1 st s1] run(3-5) by simp_all
  have passed: "unat (block_time e) = unat (last_unbonded_time st) + unat passed"
    using run(6) by (simp add: usub_Inr)
  have s3: "s3 = s2\<lparr>s_current_batch := Some b', s_state := Some st'\<rparr>"
    using run(11,12) by (simp add: update_state_def)
  have out: "msgs = ms" "batch' = b'" "s' = s3"
    using run(13) by simp_all
  show ?case
  proof (cases "epoch_length params < passed")
    case True
    then have "process_undelegations_for_batch d e batch st s1 = Inr (ms, b', st', s2)"
      using run(7-10) by simp
    then show ?thesis
      using 1(2) [of params st0 st st' s2] run(1,2) s1 passed True s3 out
      by (simp add: load_items_Inr word_less_nat_alt)
  next
    case False
    then have "ms = []" "b' = batch" "st' = st" "s2 = s1"
      using run(7-10) by simp_all
    then show ?thesis
      using 1(1) [of params st0 st] run(1,2) s1 passed False s3 out
      by (simp add: load_items_Inr word_less_nat_alt)
  qed
qed

lemma execute_unstake_InrD:
  assumes "execute_unstake d e amount sender flow s = Inr (r, s')"
  obtains batch batch1 s1 msgs evs batch2 config token burn where
    "s_current_batch s = Some batch"
    "update_unstake_batch_wait_list d batch sender amount s = Inr (batch1, s1)"
    "check_for_unstake_batch_epoch_completion d e batch1 s1 = Inr (msgs, evs, batch2, s')"
    "s_config s' = Some config" "lst_token config = Some token"
    "messages r = msgs @ [WasmExecute token (Cw20Payload burn) []]"
    "burn_message d e token sender amount flow = Inr burn"
  using assms unfolding execute_unstake_def
proof (elim outcome_elims, goal_cases)
  case (1 batch _ batch1 s1 _ msgs _ evs _ batch2 s2 config token burn)
  then show ?case
    using 1(1) [of batch batch1 s1 msgs evs batch2 config token burn]
    by (auto simp: load_items_Inr ok_or_Inr)
qed

lemma burn_message_Inr:
  "burn_message d e token sender amount flow = Inr b \<Longrightarrow>
   b = (case flow of BurnFlow \<Rightarrow> Burn amount | BurnFromFlow \<Rightarrow> BurnFrom sender amount)"
  by (auto simp: burn_message_def outcome_simps split: unstake_type.splits if_splits)

section \<open>What they do: release\<close>

text \<open>What the hub owes for a history entry, and a run of consecutive batches that may be released.\<close>

definition owed :: "unstake_history \<Rightarrow> nat" where
  "owed h = unat (lst_token_amount h) * unat (atomics (lst_withdraw_rate h)) div 10 ^ 18"

fun releasable_run :: "hub_storage \<Rightarrow> u64 \<Rightarrow> nat \<Rightarrow> (u64 \<times> unstake_history) list \<Rightarrow> bool" where
  "releasable_run s cutoff n [] = True"
| "releasable_run s cutoff n ((b, h) # run) =
     (unat b = n \<and> may_load (s_unstake_history s) b = Some h \<and> \<not> released h \<and> uh_time h \<le> cutoff
      \<and> releasable_run s cutoff (Suc n) run)"

text \<open>Why a run stops at a batch: it does not exist, has not matured, is released already, or
  is owed more than is left.\<close>

definition run_stops :: "hub_storage \<Rightarrow> u64 \<Rightarrow> nat \<Rightarrow> uint128 \<Rightarrow> bool" where
  "run_stops s cutoff n left = (\<forall>b. unat b = n \<longrightarrow>
     (case may_load (s_unstake_history s) b of None \<Rightarrow> True
      | Some h \<Rightarrow> cutoff < uh_time h \<or> released h \<or> unat left < owed h))"

lemma unprocessed_loop_InrD:
  assumes "unprocessed_loop s cutoff batch_id remaining histories = Inr (hs, left)"
  shows "\<exists>run. hs = histories @ run \<and> releasable_run s cutoff (unat batch_id) run
    \<and> unat remaining = unat left + (\<Sum>(b, h) \<leftarrow> run. owed h)
    \<and> run_stops s cutoff (unat batch_id + length run) left"
  using assms
proof (induction s cutoff batch_id remaining histories arbitrary: hs left rule: unprocessed_loop.induct)
  case (1 s cutoff batch_id remaining histories)
  have stop: ?case
    if "hs = histories" "left = remaining"
      "case may_load (s_unstake_history s) batch_id of None \<Rightarrow> True
       | Some h \<Rightarrow> cutoff < uh_time h \<or> released h \<or> unat left < owed h"
    using that by (auto simp: run_stops_def word_unat_eq_iff [symmetric] intro!: exI [of _ "[]"])
  show ?case
  proof (cases "may_load (s_unstake_history s) batch_id")
    case None
    with 1(2) have "hs = histories" "left = remaining"
      by (simp_all add: unprocessed_loop.simps [of s cutoff batch_id] read_unstake_history_def)
    with None show ?thesis by (intro stop) simp_all
  next
    case (Some h)
    then have read: "read_unstake_history s batch_id = Inr h"
      by (simp add: read_unstake_history_def)
    note loop = 1(2) [unfolded unprocessed_loop.simps [of s cutoff batch_id] read, simplified]
    consider (out) "cutoff < uh_time h \<or> released h"
      | (go) "\<not> cutoff < uh_time h" "\<not> released h" by blast
    then show ?thesis
    proof cases
      case out
      with loop have "hs = histories" "left = remaining" by (auto split: if_splits)
      with Some out show ?thesis by (intro stop) auto
    next
      case go
      with loop obtain required where
        req: "decimal_multiplication (lst_token_amount h) (lst_withdraw_rate h)
          = (Inr required :: uint128 lst_result)"
        and rest: "(if required \<le> remaining then
              and_then (checked_sub_or_overflow remaining required) (\<lambda>remaining'.
              and_then (uadd batch_id 1) (\<lambda>batch_id'.
              unprocessed_loop s cutoff batch_id' remaining' (histories @ [(batch_id, h)])))
            else Inr (histories, remaining))
          = (Inr (hs, left) :: ((u64 \<times> unstake_history) list \<times> uint128) lst_result)"
        by (auto simp: and_then_Inr)
      have owed: "unat required = owed h"
        using req by (simp add: decimal_multiplication_Inr owed_def)
      show ?thesis
      proof (cases "required \<le> remaining")
        case True
        with rest obtain remaining' batch_id' where
          sub: "checked_sub_or_overflow remaining required = Inr remaining'"
          and inc: "uadd batch_id 1 = (Inr batch_id' :: u64 lst_result)"
          and rec: "unprocessed_loop s cutoff batch_id' remaining' (histories @ [(batch_id, h)])
            = Inr (hs, left)"
          by (auto simp: and_then_Inr)
        have next_id: "unat batch_id' = Suc (unat batch_id)"
          using inc by (simp add: uadd_Inr)
        from 1(1) [OF read go req True sub inc rec] obtain run where
          "hs = (histories @ [(batch_id, h)]) @ run"
          "releasable_run s cutoff (Suc (unat batch_id)) run"
          "unat remaining' = unat left + (\<Sum>(b, h) \<leftarrow> run. owed h)"
          "run_stops s cutoff (Suc (unat batch_id) + length run) left"
          unfolding next_id by blast
        with sub owed Some go show ?thesis
          by (intro exI [of _ "(batch_id, h) # run"]) (simp add: checked_sub_or_overflow_Inr)
      next
        case False
        with rest have "hs = histories" "left = remaining" by simp_all
        with Some False owed show ?thesis
          by (intro stop) (simp_all add: word_le_nat_alt)
      qed
    qed
  qed
qed

lemma get_unprocessed_histories_InrD:
  assumes "get_unprocessed_histories s start cutoff balance = Inr (hs, left)"
  shows "releasable_run s cutoff (unat start + 1) hs"
    and "unat balance = unat left + (\<Sum>(b, h) \<leftarrow> hs. owed h)"
    and "run_stops s cutoff (unat start + 1 + length hs) left"
proof -
  from assms obtain b where b: "unat b = unat start + 1"
    and loop: "unprocessed_loop s cutoff b balance [] = Inr (hs, left)"
    by (auto simp: get_unprocessed_histories_def outcome_simps uadd_Inr)
  from unprocessed_loop_InrD [OF loop] show "releasable_run s cutoff (unat start + 1) hs"
    "unat balance = unat left + (\<Sum>(b, h) \<leftarrow> hs. owed h)"
    "run_stops s cutoff (unat start + 1 + length hs) left"
    unfolding b by auto
qed

text \<open>Marking as released: the histories and the last processed batch change, nothing else.\<close>

lemma release_loop_Inr:
  "\<exists>hist. for_each release_batch hs (st, s)
      = Inr (st\<lparr>last_processed_batch := (if hs = [] then last_processed_batch st else fst (last hs))\<rparr>,
             s\<lparr>s_unstake_history := hist\<rparr>)"
proof (induction hs arbitrary: st s)
  case Nil
  then show ?case by (intro exI [of _ "s_unstake_history s"]) simp
next
  case (Cons bh hs)
  obtain b h where bh: "bh = (b, h)" by force
  show ?case
    using Cons.IH [of "st\<lparr>last_processed_batch := b\<rparr>"
        "s\<lparr>s_unstake_history := save b (h\<lparr>released := True\<rparr>) (s_unstake_history s)\<rparr>"]
    by (auto simp: bh release_batch_def)
qed

lemma process_withdraw_rate_InrD:
  assumes "process_withdraw_rate d cutoff balance s = Inr (evs, left, s')"
  obtains st hs unstaked st' where
    "s_state s = Some st" "unat balance = unat (unclaimed_unstaked_balance st) + unat unstaked"
    "get_unprocessed_histories s (last_processed_batch st) cutoff unstaked = Inr (hs, left)"
    "for_each release_batch hs (st, s) = (Inr (st', s'\<lparr>s_state := Some st\<rparr>) :: _ lst_result)"
    "s_state s' = Some st'"
  using assms unfolding process_withdraw_rate_def
proof (elim outcome_elims, goal_cases)
  case (1 st unstaked _ hs left')
  note run = 1(2-)
  show ?case
  proof (cases "hs = []")
    case True
    with run(5) have "s' = s" "left = left'" by simp_all
    moreover have "s\<lparr>s_state := Some st\<rparr> = s" using run(1) by (simp add: load_items_Inr)
    ultimately show ?thesis
      using 1(1) [of st unstaked hs st] run True by (simp add: load_items_Inr checked_sub_or_overflow_Inr)
  next
    case False
    with run(5) obtain st' s1 where rel: "for_each release_batch hs (st, s) = (Inr (st', s1) :: _ lst_result)"
      and s': "s' = s1\<lparr>s_state := Some st'\<rparr>" "left = left'"
      by (auto simp: outcome_simps)
    from release_loop_Inr [of hs st s] rel have "s_state s1 = s_state s" by auto
    then have "s'\<lparr>s_state := Some st\<rparr> = s1"
      using run(1) s' by (simp add: load_items_Inr)
    then show ?thesis
      using 1(1) [of st unstaked hs st'] run rel s' by (simp add: load_items_Inr checked_sub_or_overflow_Inr)
  qed
qed

section \<open>What they do: withdrawal\<close>

text \<open>What a wait-list amount of a batch is worth once the batch is released, 0 before.\<close>

definition is_released :: "hub_storage \<Rightarrow> u64 \<Rightarrow> bool" where
  "is_released s b =
     (case may_load (s_unstake_history s) b of None \<Rightarrow> False | Some h \<Rightarrow> released h)"

definition claim :: "hub_storage \<Rightarrow> u64 \<Rightarrow> uint128 \<Rightarrow> nat" where
  "claim s b v =
     (case may_load (s_unstake_history s) b of None \<Rightarrow> 0
      | Some h \<Rightarrow> if released h then unat v * unat (atomics (lst_applied_exchange_rate h)) div 10 ^ 18
                 else 0)"

definition user_claim :: "hub_storage \<Rightarrow> addr \<Rightarrow> u64 \<Rightarrow> nat" where
  "user_claim s a b =
     (case may_load (s_unstake_wait_list s) (a, b) of None \<Rightarrow> 0 | Some v \<Rightarrow> claim s b v)"

lemma finish_entry_Inr:
  assumes "finish_entry s (b, v) (w, dep) = Inr (w', dep')"
  shows "unat w' = unat w + claim s b v \<and> dep' = dep @ (if is_released s b then [b] else [])"
  using assms
  by (auto simp: finish_entry_def read_unstake_history_def claim_def is_released_def outcome_simps
      checked split: option.splits if_splits)

lemma finish_loop_Inr:
  assumes "for_each (finish_entry s) wl (w, dep) = Inr (w', dep')"
  shows "unat w' = unat w + (\<Sum>(b, v) \<leftarrow> wl. claim s b v)
    \<and> dep' = dep @ filter (is_released s) (map fst wl)"
  using assms
proof (induction wl arbitrary: w dep)
  case Nil
  then show ?case by simp
next
  case (Cons bv wl)
  obtain b v where bv: "bv = (b, v)" by force
  from Cons.prems obtain w1 dep1 where first: "finish_entry s (b, v) (w, dep) = Inr (w1, dep1)"
    and rest: "for_each (finish_entry s) wl (w1, dep1) = Inr (w', dep')"
    by (auto simp: bv outcome_simps)
  from finish_entry_Inr [OF first] Cons.IH [OF rest] show ?case
    by (simp add: bv)
qed

text \<open>The entries of the given batches, in the given order, repetitions included.\<close>

definition entries_for :: "hub_storage \<Rightarrow> addr \<Rightarrow> u64 list \<Rightarrow> (u64 \<times> uint128) list" where
  "entries_for s a ids = List.map_filter (\<lambda>batch_id.
     map_option (\<lambda>lst_amount. (batch_id, lst_amount))
       (may_load (s_unstake_wait_list s) (a, batch_id))) ids"

lemma entries_for_simps [simp]:
  "entries_for s a [] = []"
  "entries_for s a (b # ids) = (case may_load (s_unstake_wait_list s) (a, b) of
     None \<Rightarrow> entries_for s a ids | Some v \<Rightarrow> (b, v) # entries_for s a ids)"
  by (auto simp: entries_for_def List.map_filter_def split: option.splits)

lemma sum_entries_for: "(\<Sum>(b, v) \<leftarrow> entries_for s a ids. claim s b v) = (\<Sum>b \<leftarrow> ids. user_claim s a b)"
  by (induction ids) (auto simp: user_claim_def split: option.splits)

lemma keys_entries_for:
  "map fst (entries_for s a ids) = filter (\<lambda>b. may_load (s_unstake_wait_list s) (a, b) \<noteq> None) ids"
  by (induction ids) (auto split: option.splits)

lemma get_finished_amount_for_batches_Inr:
  assumes "get_finished_amount_for_batches s a ids = Inr (w, dep)"
  shows "unat w = (\<Sum>b \<leftarrow> ids. user_claim s a b)"
    and "set dep = {b \<in> set ids. is_released s b \<and> may_load (s_unstake_wait_list s) (a, b) \<noteq> None}"
proof -
  have "for_each (finish_entry s) (entries_for s a ids) (0, []) = (Inr (w, dep) :: _ lst_result)"
    using assms by (simp add: get_finished_amount_for_batches_def process_finished_amount_def
        entries_for_def)
  from finish_loop_Inr [OF this] have "unat w = (\<Sum>(b, v) \<leftarrow> entries_for s a ids. claim s b v)"
    and dep: "dep = filter (is_released s) (map fst (entries_for s a ids))"
    by simp_all
  then show "unat w = (\<Sum>b \<leftarrow> ids. user_claim s a b)"
    by (simp add: sum_entries_for)
  show "set dep = {b \<in> set ids. is_released s b \<and> may_load (s_unstake_wait_list s) (a, b) \<noteq> None}"
    unfolding dep keys_entries_for by auto
qed

text \<open>Withdrawing everything is withdrawing for the list of all of one's batches.\<close>

definition all_batches :: "hub_storage \<Rightarrow> addr \<Rightarrow> u64 list" where
  "all_batches s a = map fst (prefix_range a None (s_unstake_wait_list s))"

lemma entries_for_all:
  assumes "sorted_keys (s_unstake_wait_list s)"
  shows "entries_for s a (all_batches s a) = prefix_range a None (s_unstake_wait_list s)"
proof -
  have "entries_for s a (map fst xs) = xs"
    if "set xs \<subseteq> set (prefix_range a None (s_unstake_wait_list s))" for xs
    using that
  proof (induction xs)
    case (Cons bv xs)
    obtain b v where bv: "bv = (b, v)" by force
    with Cons.prems have "may_load (s_unstake_wait_list s) (a, b) = Some v"
      by (simp add: prefix_range_mem [OF assms])
    with Cons show ?case by (simp add: bv)
  qed simp
  then show ?thesis by (simp add: all_batches_def)
qed

lemma get_finished_amount_all:
  "sorted_keys (s_unstake_wait_list s) \<Longrightarrow>
   get_finished_amount s a = get_finished_amount_for_batches s a (all_batches s a)"
  using entries_for_all [of s a]
  by (simp add: get_finished_amount_def get_finished_amount_for_batches_def entries_for_def)

lemma distinct_all_batches:
  "sorted_keys (s_unstake_wait_list s) \<Longrightarrow> distinct (all_batches s a)"
  unfolding all_batches_def by (rule distinct_prefix_range)

text \<open>The list of batches a withdrawal is about.\<close>

definition chosen_batches :: "hub_storage \<Rightarrow> addr \<Rightarrow> u64 list option \<Rightarrow> u64 list" where
  "chosen_batches s a ids = (case ids of None \<Rightarrow> all_batches s a | Some ids \<Rightarrow> ids)"

lemma free_balance_and_cutoff_InrD:
  assumes "free_balance_and_cutoff d e s = Inr (params, free, cutoff)"
  shows "s_parameters s = Some params"
    and "unat (block_time e) = unat (unstaking_period params) + unat cutoff"
    and "\<exists>ps pu bal. get_pending_delegation_amount e s = Inr (ps, pu)
      \<and> query_balance d (contract_address e) (staking_coin_denom params) = Inr bal
      \<and> unat (coin_amount bal) = unat ps + unat free"
  using assms by (auto simp: free_balance_and_cutoff_def outcome_simps checked Let_def)

lemma process_withdraw_rate_frame:
  assumes "process_withdraw_rate d cutoff balance s = Inr (evs, left, s')"
  obtains hist st' where "s' = s\<lparr>s_unstake_history := hist, s_state := Some st'\<rparr>"
  using assms
proof (rule process_withdraw_rate_InrD)
  fix st hs unstaked st'
  assume "for_each release_batch hs (st, s) = (Inr (st', s'\<lparr>s_state := Some st\<rparr>) :: _ lst_result)"
    and st': "s_state s' = Some st'" and st: "s_state s = Some st"
  with release_loop_Inr [of hs st s] obtain hist where
    "s'\<lparr>s_state := Some st\<rparr> = s\<lparr>s_unstake_history := hist\<rparr>"
    by auto
  then have "(s'\<lparr>s_state := Some st\<rparr>)\<lparr>s_state := Some st'\<rparr> =
      s\<lparr>s_unstake_history := hist, s_state := Some st'\<rparr>"
    by simp
  moreover have "(s'\<lparr>s_state := Some st\<rparr>)\<lparr>s_state := Some st'\<rparr> = s'"
    using st' by simp
  ultimately show ?thesis by (intro that) simp
qed

text \<open>Inversion of a successful withdrawal.\<close>

lemma execute_withdraw_unstaked_impl_InrD:
  assumes "execute_withdraw_unstaked_impl d e info ids s = Inr (r, s')"
    and sorted: "sorted_keys (s_unstake_wait_list s)"
  obtains params evs s1 wait st1 and free cutoff left paid unclaimed where
    "free_balance_and_cutoff d e s = Inr (params, free, cutoff)"
    "process_withdraw_rate d cutoff free s = Inr (evs, left, s1)"
    "s_unstake_wait_list s1 = s_unstake_wait_list s"
    "unat paid = (\<Sum>b \<leftarrow> chosen_batches s (info_sender info) ids. user_claim s1 (info_sender info) b)"
    "paid \<noteq> 0" "unat free = unat paid + unat left + unat unclaimed"
    "s_state s1 = Some st1"
    "s' = s1\<lparr>s_unstake_wait_list := wait,
       s_state := Some (st1\<lparr>unclaimed_unstaked_balance := unclaimed\<rparr>)\<rparr>"
    "sorted_keys wait"
    "may_load wait = (\<lambda>(a, b). if a = info_sender info \<and> b \<in> set (chosen_batches s (info_sender info) ids)
         \<and> is_released s1 b then None else may_load (s_unstake_wait_list s) (a, b))"
    "messages r = [BankSend (info_sender info)
       [\<lparr>coin_denom = staking_coin_denom params, coin_amount = paid\<rparr>]]"
  using assms(1) unfolding execute_withdraw_unstaked_impl_def
proof (elim outcome_elims, goal_cases)
  case (1 _ params _ free cutoff _ evs _ left s1 _ paid dep s2 after unclaimed s3)
  note run = 1(2-)
  let ?a = "info_sender info"
  have cut: "free_balance_and_cutoff d e s = Inr (params, free, cutoff)"
    and rate: "process_withdraw_rate d cutoff free s = Inr (evs, left, s1)"
    using run(1-6) by simp_all
  obtain hist st1 where s1: "s1 = s\<lparr>s_unstake_history := hist, s_state := Some st1\<rparr>"
    using rate by (rule process_withdraw_rate_frame)
  then have wait_s1: "s_unstake_wait_list s1 = s_unstake_wait_list s" by simp
  then have all: "all_batches s1 ?a = all_batches s ?a" by (simp add: all_batches_def)
  have "get_finished_amount_for_batches s1 ?a (chosen_batches s ?a ids) = Inr (paid, dep)"
  proof (cases ids)
    case None
    with run(7,8) get_finished_amount_all [of s1 ?a] sorted show ?thesis
      by (simp add: wait_s1 all chosen_batches_def)
  next
    case (Some xs)
    with run(7,8) show ?thesis by (simp add: chosen_batches_def)
  qed
  note paid = get_finished_amount_for_batches_Inr [OF this]
  from remove_unstake_wait_list_Inr [of dep ?a s1, unfolded wait_s1] run(10) obtain wait where
    s2: "s2 = s1\<lparr>s_unstake_wait_list := wait\<rparr>"
    and wait: "may_load wait = (\<lambda>(a', b). if a' = ?a \<and> b \<in> set dep then None
      else may_load (s_unstake_wait_list s) (a', b))" "sorted_keys wait"
    using sorted by auto
  show ?case
  proof (rule 1(1) [OF cut rate wait_s1 paid(1)])
    show "s_state s1 = Some st1" by (simp add: s1)
    show "s' = s1\<lparr>s_unstake_wait_list := wait,
       s_state := Some (st1\<lparr>unclaimed_unstaked_balance := unclaimed\<rparr>)\<rparr>"
      using run(13,14) by (auto simp: save_unclaimed_balance_def outcome_simps s2 s1)
    show "may_load wait = (\<lambda>(a, b). if a = ?a \<and> b \<in> set (chosen_batches s ?a ids)
         \<and> is_released s1 b then None else may_load (s_unstake_wait_list s) (a, b))"
      unfolding wait(1) paid(2) wait_s1 by (auto simp: fun_eq_iff)
    show "messages r = [BankSend ?a [\<lparr>coin_denom = staking_coin_denom params, coin_amount = paid\<rparr>]]"
      using run(14) by auto
  qed (use run wait in \<open>simp_all add: checked_sub_or_overflow_Inr\<close>)
qed

lemma execute_process_withdraw_requests_InrD:
  assumes "execute_process_withdraw_requests d e s = Inr (r, s')"
  obtains params evs s1 st1 and free cutoff left unclaimed where
    "free_balance_and_cutoff d e s = Inr (params, free, cutoff)"
    "process_withdraw_rate d cutoff free s = Inr (evs, left, s1)"
    "unat free = unat left + unat unclaimed" "s_state s1 = Some st1"
    "s' = s1\<lparr>s_state := Some (st1\<lparr>unclaimed_unstaked_balance := unclaimed\<rparr>)\<rparr>"
  using assms unfolding execute_process_withdraw_requests_def
proof (elim outcome_elims, goal_cases)
  case (1 _ params _ free cutoff _ evs _ left s1 unclaimed s2)
  note run = 1(2-)
  from run(8,9) obtain st1 where "s_state s1 = Some st1"
    "s2 = s1\<lparr>s_state := Some (st1\<lparr>unclaimed_unstaked_balance := unclaimed\<rparr>)\<rparr>"
    by (auto simp: save_unclaimed_balance_def outcome_simps)
  with 1(1) [of params free cutoff evs left s1 unclaimed st1] run show ?case
    by (simp add: checked_sub_or_overflow_Inr)
qed

section \<open>The histories after a release\<close>

lemma releasable_run_ge: "releasable_run s c n run \<Longrightarrow> (b, h) \<in> set run \<Longrightarrow> n \<le> unat b"
  by (induction s c n run rule: releasable_run.induct) fastforce+

lemma releasable_run_cong:
  "(\<And>b. n \<le> unat b \<Longrightarrow> may_load (s_unstake_history s) b = may_load (s_unstake_history s') b) \<Longrightarrow>
   releasable_run s c n run = releasable_run s' c n run"
  by (induction s c n run rule: releasable_run.induct) auto

lemma release_loop_lookup:
  assumes "for_each release_batch run (st, s) = (Inr (st', s') :: _ lst_result)"
    and "releasable_run s c n run"
  shows "may_load (s_unstake_history s') b =
     (if b \<in> fst ` set run then map_option (\<lambda>h. h\<lparr>released := True\<rparr>) (may_load (s_unstake_history s) b)
      else may_load (s_unstake_history s) b)"
  using assms
proof (induction run arbitrary: st s n)
  case Nil
  then show ?case by simp
next
  case (Cons bh run)
  obtain k h where bh: "bh = (k, h)" by force
  let ?s = "s\<lparr>s_unstake_history := save k (h\<lparr>released := True\<rparr>) (s_unstake_history s)\<rparr>"
  from Cons.prems bh have k: "unat k = n" "may_load (s_unstake_history s) k = Some h"
    and run: "releasable_run s c (Suc n) run"
    and loop: "for_each release_batch run (st\<lparr>last_processed_batch := k\<rparr>, ?s) = (Inr (st', s') :: _ lst_result)"
    by (simp_all add: release_batch_def)
  have "releasable_run ?s c (Suc n) run"
    using run k(1) by (subst releasable_run_cong [where s' = s]) auto
  from Cons.IH [OF loop this] releasable_run_ge [OF run] k show ?case
    by (cases "b = k") (auto simp: bh fun_upd_apply)
qed

lemma releasable_run_last:
  "releasable_run s c n run \<Longrightarrow> run \<noteq> [] \<Longrightarrow> unat (fst (last run)) = n + length run - 1"
  by (induction s c n run rule: releasable_run.induct) auto

lemma releasable_run_keys:
  assumes "releasable_run s c n run" and "n + length run \<le> 2 ^ 64"
  shows "b \<in> fst ` set run \<longleftrightarrow> n \<le> unat b \<and> unat b < n + length run"
  using assms
proof (induction s c n run arbitrary: b rule: releasable_run.induct)
  case (2 s c n k h run)
  then have IH: "b \<in> fst ` set run \<longleftrightarrow> Suc n \<le> unat b \<and> unat b < Suc n + length run"
    and k: "unat k = n"
    by simp_all
  have "b = k \<longleftrightarrow> unat b = n"
    by (simp add: word_unat_eq_iff k)
  with IH show ?case by auto
qed simp

text \<open>The whole effect of the withdraw-rate step on the storage.\<close>

lemma process_withdraw_rate_effect:
  assumes "process_withdraw_rate d cutoff balance s = Inr (evs, left, s')" and "s_state s = Some st"
  obtains run st' where
    "releasable_run s cutoff (unat (last_processed_batch st) + 1) run"
    "run_stops s cutoff (unat (last_processed_batch st) + 1 + length run) left"
    "unat balance = unat (unclaimed_unstaked_balance st) + (\<Sum>(b, h) \<leftarrow> run. owed h) + unat left"
    "s_state s' = Some st'"
    "st' = st\<lparr>last_processed_batch := (if run = [] then last_processed_batch st else fst (last run))\<rparr>"
    "\<And>b. may_load (s_unstake_history s') b =
       (if b \<in> fst ` set run then map_option (\<lambda>h. h\<lparr>released := True\<rparr>) (may_load (s_unstake_history s) b)
        else may_load (s_unstake_history s) b)"
    "s'\<lparr>s_state := s_state s, s_unstake_history := s_unstake_history s\<rparr> = s"
  using assms(1)
proof (rule process_withdraw_rate_InrD)
  fix st0 hs unstaked st'
  assume run: "s_state s = Some st0"
      "unat balance = unat (unclaimed_unstaked_balance st0) + unat unstaked"
      "get_unprocessed_histories s (last_processed_batch st0) cutoff unstaked = Inr (hs, left)"
    and rel: "for_each release_batch hs (st0, s) = (Inr (st', s'\<lparr>s_state := Some st0\<rparr>) :: _ lst_result)"
    and st': "s_state s' = Some st'"
  have [simp]: "st0 = st" using run(1) assms(2) by simp
  note h = get_unprocessed_histories_InrD [OF run(3)]
  from release_loop_Inr [of hs st s] rel
  have st'_eq: "st' = st\<lparr>last_processed_batch := (if hs = [] then last_processed_batch st else fst (last hs))\<rparr>"
    by auto
  obtain hist st'' where frame: "s' = s\<lparr>s_unstake_history := hist, s_state := Some st''\<rparr>"
    using assms(1) by (rule process_withdraw_rate_frame)
  show ?thesis
  proof (rule that [OF _ _ _ st' st'_eq])
    show "may_load (s_unstake_history s') b =
       (if b \<in> fst ` set hs then map_option (\<lambda>h. h\<lparr>released := True\<rparr>) (may_load (s_unstake_history s) b)
        else may_load (s_unstake_history s) b)" for b
      using release_loop_lookup [OF rel h(1), of b] by simp
    show "s'\<lparr>s_state := s_state s, s_unstake_history := s_unstake_history s\<rparr> = s"
      by (simp add: frame)
  qed (use h run in simp_all)
qed

text \<open>What an unstake records.\<close>

lemma unstake_waiting:
  assumes "execute_unstake d e amount sender flow s = Inr (r, s')"
  shows "\<exists>batch a token msgs. s_current_batch s = Some batch \<and> addr_validate d sender = Inr a
    \<and> messages r = msgs @ [WasmExecute token (Cw20Payload
         (case flow of BurnFlow \<Rightarrow> Burn amount | BurnFromFlow \<Rightarrow> BurnFrom sender amount)) []]
    \<and> waiting s' a (cb_id batch) = waiting s a (cb_id batch) + unat amount
    \<and> (\<forall>x. x \<noteq> (a, cb_id batch) \<longrightarrow>
         may_load (s_unstake_wait_list s') x = may_load (s_unstake_wait_list s) x)"
  using assms
proof (rule execute_unstake_InrD)
  fix batch batch1 s1 msgs evs batch2 config token burn
  assume run: "s_current_batch s = Some batch"
      "update_unstake_batch_wait_list d batch sender amount s = Inr (batch1, s1)"
      "check_for_unstake_batch_epoch_completion d e batch1 s1 = Inr (msgs, evs, batch2, s')"
      "messages r = msgs @ [WasmExecute token (Cw20Payload burn) []]"
      "burn_message d e token sender amount flow = Inr burn"
  from run(3) have wait: "s_unstake_wait_list s' = s_unstake_wait_list s1"
    by (cases rule: epoch_completion_cases) (auto elim!: process_undelegations_for_batch_InrD)
  from run(2) obtain a v where "addr_validate d sender = Inr a"
    "s1 = s\<lparr>s_unstake_wait_list := save (a, cb_id batch) v (s_unstake_wait_list s)\<rparr>"
    "unat v = waiting s a (cb_id batch) + unat amount"
    by (rule update_unstake_batch_wait_list_InrD)
  with run wait burn_message_Inr [OF run(5)] show ?thesis
    by (auto simp: waiting_def)
qed

section \<open>Properties\<close>

text \<open>
  A successful unstake records the amount in the sender's wait-list entry of the open batch,
  leaves every other entry alone, and ends with a message that burns exactly that amount of
  tokens: the hub's own after a cw20 send, the sender's (whose balance and allowance were
  checked) otherwise.
\<close>

theorem unstake_records_and_burns:
  assumes "execute_unstake d e amount sender flow s = Inr (r, s')"
  shows "\<exists>batch a token msgs. s_current_batch s = Some batch \<and> addr_validate d sender = Inr a
    \<and> messages r = msgs @ [WasmExecute token (Cw20Payload
         (case flow of BurnFlow \<Rightarrow> Burn amount | BurnFromFlow \<Rightarrow> BurnFrom sender amount)) []]
    \<and> waiting s' a (cb_id batch) = waiting s a (cb_id batch) + unat amount
    \<and> (\<forall>x. x \<noteq> (a, cb_id batch) \<longrightarrow>
         may_load (s_unstake_wait_list s') x = may_load (s_unstake_wait_list s) x)"
  by (rule unstake_waiting [OF assms])

text \<open>
  C16: When the epoch of the batch has passed, the batch is closed: the messages undelegate
  exactly its value at the rate of the slashing check, that value leaves the staked amount and
  is recorded as pending to be undelegated, the history keeps the requested tokens and that rate
  (not yet released), the time of the last unbonding is now, and the next batch, which is the
  stored one from then on, starts empty; nothing else of the storage changes. Before that,
  nothing but the slashing check happens.
\<close>

theorem batch_closes_after_epoch:
  assumes "check_for_unstake_batch_epoch_completion d e batch s = Inr (msgs, evs, batch', s')"
    and "s_parameters s = Some params" and "s_state s = Some st0"
    and "query_actual_state d e s st0 = Inr st"
    and "amount = unat (requested_lst_token_amount batch)
           * unat (atomics (lst_exchange_rate st)) div 10 ^ 18"
  shows "if unat (epoch_length params) < unat (block_time e) - unat (last_unbonded_time st)
    then undelegates msgs = amount \<and> (\<exists>next_id total pd.
        unat next_id = unat (cb_id batch) + 1
      \<and> unat (total_staked_amount st) = unat total + amount
      \<and> update_pending_delegation_amount e None (Some (of_nat amount)) s
          = Inr (s\<lparr>s_pending_delegation := Some pd\<rparr>)
      \<and> batch' = \<lparr>cb_id = next_id, requested_lst_token_amount = 0\<rparr>
      \<and> s' = s\<lparr>s_current_batch := Some batch',
          s_state := Some (st\<lparr>total_staked_amount := total, last_unbonded_time := block_time e\<rparr>),
          s_unstake_history := save (cb_id batch)
            \<lparr>uh_batch_id = cb_id batch, uh_time = block_time e,
             lst_token_amount = requested_lst_token_amount batch,
             lst_applied_exchange_rate = lst_exchange_rate st,
             lst_withdraw_rate = lst_exchange_rate st, released = False\<rparr> (s_unstake_history s),
          s_pending_delegation := Some pd\<rparr>)
    else msgs = [] \<and> batch' = batch \<and> s' = s\<lparr>s_state := Some st, s_current_batch := Some batch\<rparr>"
  using assms(1)
proof (cases rule: epoch_completion_cases)
  case (waiting params st0 st)
  with assms show ?thesis by simp
next
  case (closed params' st0' st'' st' s2)
  with assms have same: "params' = params" "st'' = st" by simp_all
  from closed(6) show ?thesis
  proof (rule process_undelegations_for_batch_InrD)
    fix unstaked total :: uint128 and next_id :: u64 and pd'
    assume unstaked: "unat unstaked = unat (requested_lst_token_amount batch)
          * unat (atomics (lst_exchange_rate st'')) div 10 ^ 18"
      and rest: "undelegates msgs = unat unstaked"
      "unat (total_staked_amount st'') = unat unstaked + unat total"
      "st' = st''\<lparr>total_staked_amount := total, last_unbonded_time := block_time e\<rparr>"
      "unat next_id = unat (cb_id batch) + 1"
      "batch' = batch\<lparr>cb_id := next_id, requested_lst_token_amount := 0\<rparr>"
      "s2 = (s\<lparr>s_state := Some st''\<rparr>)\<lparr>s_pending_delegation := Some pd',
         s_unstake_history := save (cb_id batch)
           \<lparr>uh_batch_id = cb_id batch, uh_time = block_time e,
            lst_token_amount = requested_lst_token_amount batch,
            lst_applied_exchange_rate = lst_exchange_rate st'',
            lst_withdraw_rate = lst_exchange_rate st'', released = False\<rparr>
           (s_unstake_history (s\<lparr>s_state := Some st''\<rparr>))\<rparr>"
      and pd: "update_pending_delegation_amount e None (Some unstaked) (s\<lparr>s_state := Some st''\<rparr>)
        = Inr (s\<lparr>s_state := Some st'', s_pending_delegation := Some pd'\<rparr>)"
    have amount: "amount = unat unstaked" using unstaked assms(5) by (simp add: same)
    from pd obtain s1 where s1: "update_pending_delegation_amount e None (Some unstaked) s = Inr s1"
        "s1\<lparr>s_state := Some st''\<rparr> = s\<lparr>s_state := Some st'', s_pending_delegation := Some pd'\<rparr>"
      by (cases "update_pending_delegation_amount e None (Some unstaked) s") (auto simp: update_pending_state)
    from s1(1) obtain pd1 where "s1 = s\<lparr>s_pending_delegation := Some pd1\<rparr>"
      by (rule update_pending_frame)
    with s1 have "update_pending_delegation_amount e None (Some unstaked) s
        = Inr (s\<lparr>s_pending_delegation := Some pd'\<rparr>)"
      by (metis hub_storage.ext_inject hub_storage.surjective hub_storage.update_convs(4,7))
    moreover have "batch' = \<lparr>cb_id = next_id, requested_lst_token_amount = 0\<rparr>"
      using rest(5) by (cases batch) simp
    moreover have "s' = s\<lparr>s_current_batch := Some batch',
          s_state := Some (st\<lparr>total_staked_amount := total, last_unbonded_time := block_time e\<rparr>),
          s_unstake_history := save (cb_id batch)
            \<lparr>uh_batch_id = cb_id batch, uh_time = block_time e,
             lst_token_amount = requested_lst_token_amount batch,
             lst_applied_exchange_rate = lst_exchange_rate st,
             lst_withdraw_rate = lst_exchange_rate st, released = False\<rparr> (s_unstake_history s),
          s_pending_delegation := Some pd'\<rparr>"
      using rest(3,6) closed(7) by (simp add: same)
    ultimately show ?thesis
      using rest(1,2,4) closed(4,5) by (auto simp: same amount)
  qed
qed

text \<open>What both theorems on releases say: the run of batches from the n-th on is released out of
  the given funds with \<open>left\<close> to spare, is as long as it can be, and is marked in the histories.\<close>

definition releases :: "hub_storage \<Rightarrow> u64 \<Rightarrow> nat \<Rightarrow> nat \<Rightarrow> (u64 \<times> unstake_history) list \<Rightarrow> bool" where
  "releases s cutoff n funds run = (releasable_run s cutoff n run
     \<and> (\<exists>left. funds = (\<Sum>(b, h) \<leftarrow> run. owed h) + unat left \<and> run_stops s cutoff (n + length run) left))"

definition marks :: "(u64 \<times> unstake_history) list \<Rightarrow> (u64, unstake_history) smap
    \<Rightarrow> (u64, unstake_history) smap \<Rightarrow> bool" where
  "marks run hist hist' = (\<forall>b. may_load hist' b =
     (if b \<in> fst ` set run then map_option (\<lambda>h. h\<lparr>released := True\<rparr>) (may_load hist b)
      else may_load hist b))"

lemma cutoff_unique:
  assumes "unat t = unat p + unat c"
  shows "t - p = (c :: 'n::len word)"
proof -
  have "t = of_nat (unat p + unat c)"
    unfolding assms [symmetric] by simp
  then show ?thesis by simp
qed

text \<open>The release step of both messages, with the funds that it has.\<close>

lemma release_step:
  assumes "free_balance_and_cutoff d e s = Inr (params', free, cutoff)"
    and "process_withdraw_rate d cutoff free s = Inr (evs, left, s1)" "s_state s1 = Some st1"
    and "s_state s = Some st" "s_parameters s = Some params"
    and "get_pending_delegation_amount e s = Inr (ps, pu)"
    and "query_balance d (contract_address e) (staking_coin_denom params) = Inr bal"
  obtains run where "params' = params" "unat (block_time e) = unat (unstaking_period params) + unat cutoff"
    "releases s cutoff (unat (last_processed_batch st) + 1)
       (unat (coin_amount bal) - unat ps - unat (unclaimed_unstaked_balance st)) run"
    "unat ps + unat (unclaimed_unstaked_balance st) \<le> unat (coin_amount bal)"
    "marks run (s_unstake_history s) (s_unstake_history s1)"
    "unat (last_processed_batch st1) = unat (last_processed_batch st) + length run"
    "st1 = st\<lparr>last_processed_batch := last_processed_batch st1\<rparr>"
    "unat free = unat (unclaimed_unstaked_balance st) + (\<Sum>(b, h) \<leftarrow> run. owed h) + unat left"
    "s1 = s\<lparr>s_unstake_history := s_unstake_history s1, s_state := Some st1\<rparr>"
proof -
  from assms(2,4) obtain run where run:
    "releasable_run s cutoff (unat (last_processed_batch st) + 1) run"
    "run_stops s cutoff (unat (last_processed_batch st) + 1 + length run) left"
    "unat free = unat (unclaimed_unstaked_balance st) + (\<Sum>(b, h) \<leftarrow> run. owed h) + unat left"
    "st1 = st\<lparr>last_processed_batch := (if run = [] then last_processed_batch st else fst (last run))\<rparr>"
    "marks run (s_unstake_history s) (s_unstake_history s1)"
    using assms(3) by (elim process_withdraw_rate_effect) (auto simp: marks_def)
  note cut = free_balance_and_cutoff_InrD [OF assms(1)]
  have free: "unat (coin_amount bal) = unat ps + unat free"
    using cut(1,3) assms(5-7) by auto
  obtain hist st1' where "s1 = s\<lparr>s_unstake_history := hist, s_state := Some st1'\<rparr>"
    using assms(2) by (rule process_withdraw_rate_frame)
  then have "s1 = s\<lparr>s_unstake_history := s_unstake_history s1, s_state := Some st1\<rparr>"
    using assms(3) by simp
  moreover have "st1 = st\<lparr>last_processed_batch := last_processed_batch st1\<rparr>"
    using run(4) by simp
  moreover have "unat (last_processed_batch st1) = unat (last_processed_batch st) + length run"
    using releasable_run_last [OF run(1)] run(4) by simp
  ultimately show ?thesis
    using that [of run] run cut(1,2) assms(5) free by (auto simp: releases_def)
qed

text \<open>
  C15: Processing the withdraw requests releases batches strictly in order: the released ones are
  consecutive, start after the last processed batch, were all unreleased and matured (closed at
  least the unstaking period ago), and are covered by the funds, which are the hub's balance
  without the stakes still pending and without the unclaimed balance; and the run is maximal: the
  next batch does not exist, is not matured, is released already or is worth more than what is
  left of the funds. The unclaimed balance grows by exactly what is owed for them, the last
  processed batch moves by their number, no other history and nothing else of the storage changes.
\<close>

theorem release_runs_in_order:
  assumes "execute_process_withdraw_requests d e s = Inr (r, s')" and "s_state s = Some st"
    and "s_parameters s = Some params" and "get_pending_delegation_amount e s = Inr (ps, pu)"
    and "query_balance d (contract_address e) (staking_coin_denom params) = Inr bal"
  shows "unat (unstaking_period params) \<le> unat (block_time e)
    \<and> unat ps + unat (unclaimed_unstaked_balance st) \<le> unat (coin_amount bal)
    \<and> (\<exists>run last unclaimed.
      releases s (block_time e - unstaking_period params) (unat (last_processed_batch st) + 1)
        (unat (coin_amount bal) - unat ps - unat (unclaimed_unstaked_balance st)) run
    \<and> marks run (s_unstake_history s) (s_unstake_history s')
    \<and> unat last = unat (last_processed_batch st) + length run
    \<and> unat unclaimed = unat (unclaimed_unstaked_balance st) + (\<Sum>(b, h) \<leftarrow> run. owed h)
    \<and> s' = s\<lparr>s_unstake_history := s_unstake_history s', s_state := Some (st\<lparr>
        last_processed_batch := last, unclaimed_unstaked_balance := unclaimed\<rparr>)\<rparr>)"
  using assms(1)
proof (rule execute_process_withdraw_requests_InrD)
  fix params' evs s1 st1 free cutoff left unclaimed
  assume cut: "free_balance_and_cutoff d e s = Inr (params', free, cutoff)"
    and rate: "process_withdraw_rate d cutoff free s = Inr (evs, left, s1)"
    and sum: "unat free = unat left + unat unclaimed" and st1: "s_state s1 = Some st1"
    and s': "s' = s1\<lparr>s_state := Some (st1\<lparr>unclaimed_unstaked_balance := unclaimed\<rparr>)\<rparr>"
  obtain run where time: "unat (block_time e) = unat (unstaking_period params) + unat cutoff"
    and run: "releases s cutoff (unat (last_processed_batch st) + 1)
       (unat (coin_amount bal) - unat ps - unat (unclaimed_unstaked_balance st)) run"
      "unat ps + unat (unclaimed_unstaked_balance st) \<le> unat (coin_amount bal)"
      "marks run (s_unstake_history s) (s_unstake_history s1)"
      "unat (last_processed_batch st1) = unat (last_processed_batch st) + length run"
    and frame: "st1 = st\<lparr>last_processed_batch := last_processed_batch st1\<rparr>"
      "s1 = s\<lparr>s_unstake_history := s_unstake_history s1, s_state := Some st1\<rparr>"
    and free: "unat free = unat (unclaimed_unstaked_balance st) + (\<Sum>(b, h) \<leftarrow> run. owed h) + unat left"
    by (rule release_step [OF cut rate st1 assms(2-5)])
  have cutoff: "block_time e - unstaking_period params = cutoff"
    using time by (simp add: cutoff_unique)
  have "s' = s\<lparr>s_unstake_history := s_unstake_history s', s_state := Some (st\<lparr>
      last_processed_batch := last_processed_batch st1, unclaimed_unstaked_balance := unclaimed\<rparr>)\<rparr>"
    unfolding s' by (subst frame(2), subst frame(1)) simp
  then show ?thesis
    unfolding cutoff
    by (intro conjI exI [of _ run] exI [of _ "last_processed_batch st1"] exI [of _ unclaimed])
      (use time run sum free s' in simp_all)
qed

text \<open>
  C14: Withdrawing everything first releases what can be released, exactly as processing the
  withdraw requests does (the maximal run of matured batches, in order, that the hub's balance
  without the pending stakes and the unclaimed balance covers), and then pays the sender, in one
  bank message in the staking denomination, exactly the sum of the values of the sender's entries
  in batches that are released by then, at their applied rate, which must not be zero; those
  entries disappear, every other entry stays, the unclaimed balance is what it was, plus what the
  newly released batches are owed, minus the payment, and nothing else of the storage changes.
\<close>

theorem withdraw_pays_released_claims:
  assumes "execute_withdraw_unstaked d e info s = Inr (r, s')" and "s_state s = Some st"
    and "s_parameters s = Some params" and "get_pending_delegation_amount e s = Inr (ps, pu)"
    and "query_balance d (contract_address e) (staking_coin_denom params) = Inr bal"
    and "sorted_keys (s_unstake_wait_list s)"
  shows "unat (unstaking_period params) \<le> unat (block_time e)
    \<and> unat ps + unat (unclaimed_unstaked_balance st) \<le> unat (coin_amount bal)
    \<and> (\<exists>run last unclaimed paid.
      releases s (block_time e - unstaking_period params) (unat (last_processed_batch st) + 1)
        (unat (coin_amount bal) - unat ps - unat (unclaimed_unstaked_balance st)) run
    \<and> marks run (s_unstake_history s) (s_unstake_history s')
    \<and> messages r = [BankSend (info_sender info)
        [\<lparr>coin_denom = staking_coin_denom params, coin_amount = paid\<rparr>]]
    \<and> unat paid = (\<Sum>b \<leftarrow> all_batches s (info_sender info).
        user_claim (s\<lparr>s_unstake_history := s_unstake_history s'\<rparr>) (info_sender info) b)
    \<and> paid \<noteq> 0
    \<and> (\<forall>a b. may_load (s_unstake_wait_list s') (a, b) =
         (if a = info_sender info \<and> is_released s' b then None
          else may_load (s_unstake_wait_list s) (a, b)))
    \<and> unat last = unat (last_processed_batch st) + length run
    \<and> unat unclaimed + unat paid
        = unat (unclaimed_unstaked_balance st) + (\<Sum>(b, h) \<leftarrow> run. owed h)
    \<and> s' = s\<lparr>s_unstake_wait_list := s_unstake_wait_list s', s_unstake_history := s_unstake_history s',
        s_state := Some (st\<lparr>last_processed_batch := last, unclaimed_unstaked_balance := unclaimed\<rparr>)\<rparr>)"
  using assms(1) [unfolded execute_withdraw_unstaked_def] assms(6)
proof (rule execute_withdraw_unstaked_impl_InrD)
  fix params' :: parameters and evs s1 wait st1 free cutoff left paid unclaimed
  let ?a = "info_sender info"
  assume cut: "free_balance_and_cutoff d e s = Inr (params', free, cutoff)"
    and rate: "process_withdraw_rate d cutoff free s = Inr (evs, left, s1)"
    and paid: "unat paid = (\<Sum>b \<leftarrow> chosen_batches s ?a None. user_claim s1 ?a b)" "paid \<noteq> 0"
    and sum: "unat free = unat paid + unat left + unat unclaimed" and st1: "s_state s1 = Some st1"
    and s': "s' = s1\<lparr>s_unstake_wait_list := wait,
       s_state := Some (st1\<lparr>unclaimed_unstaked_balance := unclaimed\<rparr>)\<rparr>"
    and wait: "may_load wait = (\<lambda>(a, b). if a = ?a \<and> b \<in> set (chosen_batches s ?a None)
         \<and> is_released s1 b then None else may_load (s_unstake_wait_list s) (a, b))"
    and msgs: "messages r = [BankSend ?a
       [\<lparr>coin_denom = staking_coin_denom params', coin_amount = paid\<rparr>]]"
  have entry: "b \<in> set (all_batches s ?a) \<longleftrightarrow> may_load (s_unstake_wait_list s) (?a, b) \<noteq> None" for b
    using prefix_range_mem [OF assms(6), of b _ ?a] by (force simp: all_batches_def)
  obtain run where params: "params' = params"
    and time: "unat (block_time e) = unat (unstaking_period params) + unat cutoff"
    and run: "releases s cutoff (unat (last_processed_batch st) + 1)
       (unat (coin_amount bal) - unat ps - unat (unclaimed_unstaked_balance st)) run"
      "unat ps + unat (unclaimed_unstaked_balance st) \<le> unat (coin_amount bal)"
      "marks run (s_unstake_history s) (s_unstake_history s1)"
      "unat (last_processed_batch st1) = unat (last_processed_batch st) + length run"
    and frame: "st1 = st\<lparr>last_processed_batch := last_processed_batch st1\<rparr>"
      "s1 = s\<lparr>s_unstake_history := s_unstake_history s1, s_state := Some st1\<rparr>"
    and free: "unat free = unat (unclaimed_unstaked_balance st) + (\<Sum>(b, h) \<leftarrow> run. owed h) + unat left"
    by (rule release_step [OF cut rate st1 assms(2-5)])
  have cutoff: "block_time e - unstaking_period params = cutoff"
    using time by (simp add: cutoff_unique)
  have items: "s_unstake_wait_list s1 = s_unstake_wait_list s"
    by (subst frame(2)) simp
  then have claims: "user_claim s1 ?a b = user_claim (s\<lparr>s_unstake_history := s_unstake_history s'\<rparr>) ?a b" for b
    by (simp add: user_claim_def claim_def s' split: option.split)
  have "may_load (s_unstake_wait_list s') (a, b) =
      (if a = ?a \<and> is_released s' b then None else may_load (s_unstake_wait_list s) (a, b))" for a b
    using entry [of b] by (auto simp: s' wait chosen_batches_def is_released_def)
  moreover have "s' = s\<lparr>s_unstake_wait_list := s_unstake_wait_list s',
      s_unstake_history := s_unstake_history s', s_state := Some (st\<lparr>
      last_processed_batch := last_processed_batch st1, unclaimed_unstaked_balance := unclaimed\<rparr>)\<rparr>"
    unfolding s' by (subst frame(2), subst frame(1)) simp
  moreover have "unat paid = (\<Sum>b \<leftarrow> all_batches s ?a.
      user_claim (s\<lparr>s_unstake_history := s_unstake_history s'\<rparr>) ?a b)"
    using paid(1) by (simp add: chosen_batches_def claims)
  ultimately show ?thesis
    unfolding cutoff
    by (intro conjI exI [of _ run] exI [of _ "last_processed_batch st1"] exI [of _ unclaimed] exI [of _ paid])
      (use time run sum free s' msgs params paid(2) in \<open>simp_all\<close>)
qed

text \<open>
  C38: A batch identifier that is repeated in \<open>WithdrawUnstakedForBatches\<close> is paid as often as it
  is listed: with an entry of \<open>v\<close> tokens in a released batch, listing the batch \<open>n\<close> times pays
  \<open>n\<close> times the value of the entry, although there is only one entry, which is then deleted. The
  excess is taken from what the hub keeps for the other users.
\<close>

theorem repeated_batch_paid_again:
  assumes "execute_withdraw_unstaked_for_batches d e info (replicate n b) s = Inr (r, s')"
    and "may_load (s_unstake_wait_list s) (info_sender info, b) = Some v"
    and "may_load (s_unstake_history s) b = Some h" and "released h"
    and "s_state s = Some st" and "sorted_keys (s_unstake_wait_list s)"
  shows "\<exists>denom paid. messages r = [BankSend (info_sender info)
        [\<lparr>coin_denom = denom, coin_amount = paid\<rparr>]]
    \<and> unat paid = n * (unat v * unat (atomics (lst_applied_exchange_rate h)) div 10 ^ 18)"
  using assms(1) [unfolded execute_withdraw_unstaked_for_batches_def] assms(6)
proof (rule execute_withdraw_unstaked_impl_InrD)
  fix params :: parameters and evs s1 wait st1 free cutoff left paid unclaimed
  let ?a = "info_sender info"
  assume rate: "process_withdraw_rate d cutoff free s = Inr (evs, left, s1)"
    and paid: "unat paid = (\<Sum>b \<leftarrow> chosen_batches s ?a (Some (replicate n b)). user_claim s1 ?a b)"
    and wait: "s_unstake_wait_list s1 = s_unstake_wait_list s"
    and msgs: "messages r = [BankSend ?a
       [\<lparr>coin_denom = staking_coin_denom params, coin_amount = paid\<rparr>]]"
  obtain run where
    run: "releasable_run s cutoff (unat (last_processed_batch st) + 1) run"
    and hist: "\<And>b. may_load (s_unstake_history s1) b =
       (if b \<in> fst ` set run then map_option (\<lambda>h. h\<lparr>released := True\<rparr>) (may_load (s_unstake_history s) b)
        else may_load (s_unstake_history s) b)"
    by (rule process_withdraw_rate_effect [OF rate assms(5)], rule that)
  have unreleased: "\<not> released h'" if "releasable_run s cutoff k run'" "(c, h') \<in> set run'"
    "may_load (s_unstake_history s) c = Some h'" for k run' c h'
    using that by (induction s cutoff k run' rule: releasable_run.induct) auto
  have stored: "may_load (s_unstake_history s) c = Some h'" if "releasable_run s cutoff k run'"
    "(c, h') \<in> set run'" for k run' c h'
    using that by (induction s cutoff k run' rule: releasable_run.induct) auto
  have "b \<notin> fst ` set run"
    using unreleased [OF run] stored [OF run] assms(3,4) by fastforce
  with hist [of b] assms(3) have "may_load (s_unstake_history s1) b = Some h" by simp
  then have "user_claim s1 ?a b = unat v * unat (atomics (lst_applied_exchange_rate h)) div 10 ^ 18"
    using assms(2,4) by (simp add: user_claim_def claim_def wait)
  with paid msgs show ?thesis
    by (auto simp: chosen_batches_def sum_list_replicate)
qed

text \<open>
  C39: A batch whose requested tokens are worth less than one coin cannot be closed: once its
  epoch has passed, every attempt to process the undelegations fails with the distribution
  error, because undelegating zero coins is an error of the split. The batch stays open until
  somebody adds to it.
\<close>

theorem dust_batch_cannot_close:
  assumes "s_current_batch s = Some batch" and "requested_lst_token_amount batch \<noteq> 0"
    and "s_parameters s = Some params" and "s_state s = Some st0"
    and "query_actual_state d e s st0 = Inr st"
    and "unat (requested_lst_token_amount batch) * unat (atomics (lst_exchange_rate st)) < 10 ^ 18"
    and "last_unbonded_time st \<le> block_time e"
    and "epoch_length params < block_time e - last_unbonded_time st"
    and "s_config s = Some config" and "validators_registry_contract config = Some registry"
    and "query_validators_delegation d registry = Inr vs" and "vs \<noteq> []" and "delegated vs < 2 ^ 128"
  shows "execute_process_undelegations d e s = validator_err DistributionFailed"
proof -
  have dust: "decimal_multiplication (requested_lst_token_amount batch) (lst_exchange_rate st)
      = (Inr 0 :: uint128 lst_result)"
    using assms(6) by (simp add: decimal_multiplication_Inr)
  have "calculate_undelegations 0 vs = validator_err DistributionFailed"
    using assms(12,13) by (simp add: calculate_undelegations_zero)
  then have pick: "pick_validator_for_undelegation d e 0 (s\<lparr>s_state := Some st\<rparr>)
      = validator_err DistributionFailed"
    using assms by (simp add: pick_validator_for_undelegation_def load_parameters_def load_config_def
        query_std_def from_err_def validator_err_def)
  have "process_undelegations_for_batch d e batch st (s\<lparr>s_state := Some st\<rparr>)
      = validator_err DistributionFailed"
    unfolding process_undelegations_for_batch_def dust and_then_simps pick
    by (simp add: validator_err_def)
  then show ?thesis
    using assms(1-5,7,8)
    by (simp add: execute_process_undelegations_def load_current_batch_def load_parameters_def
        load_state_def check_for_unstake_batch_epoch_completion_def check_slashing_def
        update_state_def usub_fits validator_err_def)
qed

section \<open>Witnesses\<close>

lemmas unstake_eval = execute_unstake_def update_unstake_batch_wait_list_def
  check_for_unstake_batch_epoch_completion_def process_undelegations_for_batch_def
  pick_validator_for_undelegation_def prepare_wrapped_undelegate_msg_def burn_message_def
  execute_process_undelegations_def to_checked_address_def decimal_multiplication_def

lemmas withdraw_eval = execute_process_withdraw_requests_def free_balance_and_cutoff_def
  process_withdraw_rate_def get_unprocessed_histories_def unprocessed_loop.simps release_batch_def
  save_unclaimed_balance_def execute_withdraw_unstaked_impl_def execute_withdraw_unstaked_def
  execute_withdraw_unstaked_for_batches_def get_finished_amount_def
  get_finished_amount_for_batches_def process_finished_amount_def finish_entry_def
  remove_unstake_wait_list_def decimal_multiplication_def prefix_range_def range_from_def
  remove_def List.map_filter_def checked_sub_or_overflow_def

lemma unstake_sample_runs:
  "\<exists>r s'. execute_unstake sample_deps now 20 alice BurnFromFlow sample_hub = Inr (r, s')"
  by (simp add: unstake_eval stake_eval slashing_eval storage_eval sample_defs split_eval
      cong: eval_cong)

lemma withdraw_sample_runs:
  "\<exists>r s'. execute_withdraw_unstaked sample_deps now (by_user alice []) sample_hub = Inr (r, s')"
  by (simp add: withdraw_eval stake_eval slashing_eval storage_eval sample_defs eval_simps
      cong: eval_cong)

lemma release_sample_runs:
  "\<exists>r s'. execute_process_withdraw_requests sample_deps now sample_hub = Inr (r, s')"
  by (simp add: withdraw_eval stake_eval slashing_eval storage_eval sample_defs eval_simps
      cong: eval_cong)

lemma double_sample_runs:
  "\<exists>r s'. execute_withdraw_unstaked_for_batches sample_deps now (by_user alice []) (replicate 2 1)
     sample_hub = Inr (r, s')"
  by (simp add: withdraw_eval stake_eval slashing_eval storage_eval sample_defs eval_simps
      cong: eval_cong)

lemma unstake_records_and_burns_witness:
  "\<exists>r s' msgs. execute_unstake sample_deps now 20 alice BurnFromFlow sample_hub = Inr (r, s')
    \<and> waiting s' alice 3 = 120
    \<and> messages r = msgs @ [WasmExecute sample_token (Cw20Payload (BurnFrom alice 20)) []]"
proof -
  have "\<exists>r s' msgs. execute_unstake sample_deps now 20 alice BurnFromFlow sample_hub = Inr (r, s')
      \<and> messages r = msgs @ [WasmExecute sample_token (Cw20Payload (BurnFrom alice 20)) []]"
    by (simp add: unstake_eval stake_eval slashing_eval storage_eval sample_defs split_eval
        cong: eval_cong)
  then obtain r s' msgs where
    run: "execute_unstake sample_deps now 20 alice BurnFromFlow sample_hub = Inr (r, s')"
    and msgs: "messages r = msgs @ [WasmExecute sample_token (Cw20Payload (BurnFrom alice 20)) []]"
    by blast
  have "waiting sample_hub alice 3 = 100" "addr_validate sample_deps alice = Inr alice"
    "cb_id sample_batch = 3"
    by (simp_all add: waiting_def may_load_def sample_defs)
  with unstake_records_and_burns [OF run] have "waiting s' alice 3 = 120" by auto
  with run msgs show ?thesis by blast
qed

lemma batch_closes_after_epoch_witness:
  "\<exists>msgs evs batch' s'. check_for_unstake_batch_epoch_completion sample_deps now sample_batch sample_hub
      = Inr (msgs, evs, batch', s') \<and> undelegates msgs = 90 \<and> unat (cb_id batch') = 4
    \<and> s_current_batch s' = Some batch'"
proof -
  have "\<exists>msgs evs batch' s'. check_for_unstake_batch_epoch_completion sample_deps now sample_batch
      sample_hub = Inr (msgs, evs, batch', s')"
    by (simp add: unstake_eval stake_eval slashing_eval storage_eval sample_defs split_eval
        cong: eval_cong)
  then obtain msgs evs batch' s' where
    run: "check_for_unstake_batch_epoch_completion sample_deps now sample_batch sample_hub
      = Inr (msgs, evs, batch', s')"
    by blast
  have "unat (epoch_length sample_params) < unat (block_time now) - unat (last_unbonded_time sample_state)"
    "unat (requested_lst_token_amount sample_batch) = 100" "unat (cb_id sample_batch) = 3"
    by (simp_all add: sample_defs)
  with batch_closes_after_epoch [OF run sample_hub_items(2,4) query_sample refl]
  have "undelegates msgs = 90 \<and> unat (cb_id batch') = 4 \<and> s_current_batch s' = Some batch'"
    by auto
  with run show ?thesis by blast
qed

lemma balance_sample:
  "query_balance sample_deps (contract_address now) (staking_coin_denom sample_params) = Inr (bbn 150)"
  by (simp add: sample_deps_def sample_params_def)

text \<open>The hub has 150 coins, 50 of them unclaimed, and owes 60 for batch 2, which is released.\<close>

lemma release_runs_in_order_witness:
  "\<exists>r s' st' run. execute_process_withdraw_requests sample_deps now sample_hub = Inr (r, s')
    \<and> releases sample_hub (block_time now - unstaking_period sample_params) 2 100 run
    \<and> s_state s' = Some st' \<and> unat (last_processed_batch st') = 1 + length run
    \<and> unat (unclaimed_unstaked_balance st') = 50 + (\<Sum>(b, h) \<leftarrow> run. owed h)"
proof -
  from release_sample_runs obtain r s' where
    run: "execute_process_withdraw_requests sample_deps now sample_hub = Inr (r, s')"
    by blast
  have state: "unat (last_processed_batch sample_state) = 1"
    "unat (unclaimed_unstaked_balance sample_state) = 50" "unat (coin_amount (bbn 150)) = 150"
    by (simp_all add: sample_state_def bbn_def)
  from release_runs_in_order [OF run sample_hub_items(4,2) pending_sample_hub balance_sample]
  obtain rel last unclaimed where "releases sample_hub (block_time now - unstaking_period sample_params)
      (unat (last_processed_batch sample_state) + 1)
      (unat (coin_amount (bbn 150)) - unat (0 :: uint128) - unat (unclaimed_unstaked_balance sample_state)) rel"
    "unat last = unat (last_processed_batch sample_state) + length rel"
    "unat unclaimed = unat (unclaimed_unstaked_balance sample_state) + (\<Sum>(b, h) \<leftarrow> rel. owed h)"
    and s': "s' = sample_hub\<lparr>s_unstake_history := s_unstake_history s', s_state := Some (sample_state\<lparr>
      last_processed_batch := last, unclaimed_unstaked_balance := unclaimed\<rparr>)\<rparr>"
    by blast
  moreover have "s_state s' = Some (sample_state\<lparr>
      last_processed_batch := last, unclaimed_unstaked_balance := unclaimed\<rparr>)"
    by (subst s') simp
  ultimately show ?thesis
    using run unfolding state
    by - (rule exI [of _ r], rule exI [of _ s'], rule exI [of _ "sample_state\<lparr>
      last_processed_batch := last, unclaimed_unstaked_balance := unclaimed\<rparr>"],
      rule exI [of _ rel], simp add: numeral_2_eq_2)
qed

lemma sorted_sample: "sorted_keys (s_unstake_wait_list sample_hub)"
  by (simp add: sample_defs sorted_keys_def less_prod_def)

lemma withdraw_pays_released_claims_witness:
  "\<exists>r s' paid run. execute_withdraw_unstaked sample_deps now (by_user alice []) sample_hub = Inr (r, s')
    \<and> releases sample_hub (block_time now - unstaking_period sample_params) 2 100 run
    \<and> messages r = [BankSend alice [\<lparr>coin_denom = ''ubbn'', coin_amount = paid\<rparr>]] \<and> paid \<noteq> 0"
proof -
  from withdraw_sample_runs obtain r s' where
    run: "execute_withdraw_unstaked sample_deps now (by_user alice []) sample_hub = Inr (r, s')"
    by blast
  have state: "unat (last_processed_batch sample_state) + 1 = 2"
    "unat (unclaimed_unstaked_balance sample_state) = 50" "unat (coin_amount (bbn 150)) = 150"
    "info_sender (by_user alice []) = alice"
    by (simp_all add: sample_state_def bbn_def by_user_def)
  from withdraw_pays_released_claims [OF run sample_hub_items(4,2) pending_sample_hub balance_sample
      sorted_sample, unfolded state] run
  show ?thesis by (auto simp: denom_sample)
qed

text \<open>Alice's entry of 50 in batch 1 is paid twice, 100 coins.\<close>

lemma repeated_batch_paid_again_witness:
  "\<exists>r s' denom paid. execute_withdraw_unstaked_for_batches sample_deps now (by_user alice []) [1, 1]
      sample_hub = Inr (r, s')
    \<and> messages r = [BankSend alice [\<lparr>coin_denom = denom, coin_amount = paid\<rparr>]] \<and> unat paid = 100"
proof -
  from double_sample_runs obtain r s' where
    run: "execute_withdraw_unstaked_for_batches sample_deps now (by_user alice []) (replicate 2 1)
      sample_hub = Inr (r, s')"
    by blast
  have a: "info_sender (by_user alice []) = alice" by (simp add: by_user_def)
  have "may_load (s_unstake_wait_list sample_hub) (info_sender (by_user alice []), 1) = Some 50"
    "may_load (s_unstake_history sample_hub) 1 = Some (sample_history 1 50 True)"
    "released (sample_history 1 50 True)"
    by (simp_all add: may_load_def sample_defs)
  from repeated_batch_paid_again [OF run this sample_hub_items(4) sorted_sample] run
  show ?thesis by (auto simp: a replicate_2 sample_history_def decimal_one_def)
qed

lemma dust_batch_cannot_close_witness:
  "execute_process_undelegations sample_deps now (sample_hub\<lparr>s_current_batch :=
      Some \<lparr>cb_id = 3, requested_lst_token_amount = 1\<rparr>\<rparr>) = validator_err DistributionFailed"
proof -
  let ?s = "sample_hub\<lparr>s_current_batch := Some \<lparr>cb_id = 3, requested_lst_token_amount = 1\<rparr>\<rparr>"
  let ?st = "sample_state\<lparr>total_staked_amount := 900, lst_exchange_rate := Decimal 998890122086570477\<rparr>"
  let ?vs = "[\<lparr>total_delegated = 400, vr_address = ''val2''\<rparr>,
    \<lparr>total_delegated = 500 :: uint128, vr_address = ''val1''\<rparr>]"
  have check: "query_actual_state sample_deps now ?s sample_state = Inr ?st"
    by (simp add: slashing_eval storage_eval sample_defs eval_simps cong: eval_cong)
  have batch: "s_current_batch ?s = Some \<lparr>cb_id = 3, requested_lst_token_amount = 1\<rparr>"
    and items: "s_parameters ?s = Some sample_params" "s_state ?s = Some sample_state"
      "s_config ?s = Some sample_config"
    by simp_all
  show ?thesis
    by (rule dust_batch_cannot_close [OF batch _ items(1,2) check _ _ _ items(3),
          where vs = ?vs and registry = sample_registry])
      (simp_all add: sample_state_def sample_params_def sample_config_def sample_deps_def now_def
        delegated_def)
qed

end
