(* ===== verification/Hub_Query.thy ===== *)
theory Hub_Query
  imports Hub_Unstake
begin

text \<open>
  \<open>contracts/lst_staking_hub/src/query.rs\<close>: the queries of the hub. The pending amounts shown
  are those the next update would start from; the list of requests is complete; and the
  estimate of the withdrawable amount is compared with what a withdrawal pays.
\<close>

section \<open>The code\<close>

definition query_config :: "hub_storage \<Rightarrow> hub_config_response lst_result" where
  "query_config s =
     and_then (load_config s) (\<lambda>config.
     Inr \<lparr>cr_owner = hc_owner config,
          cr_reward_dispatcher_contract = reward_dispatcher_contract config,
          cr_validators_registry_contract = validators_registry_contract config,
          cr_lst_token = lst_token config\<rparr>)"

definition query_pending_delegation :: "env \<Rightarrow> hub_storage \<Rightarrow> pending_delegation lst_result" where
  "query_pending_delegation e s =
     and_then (load_pending_delegation s) (\<lambda>pd.
     let current_block_height = block_height e in
     and_then (usub current_block_height (staking_epoch_start_block_height pd)) (\<lambda>passed_blocks.
     if staking_epoch_length_blocks pd \<le> passed_blocks then
       and_then (udiv passed_blocks (staking_epoch_length_blocks pd)) (\<lambda>epochs_passed.
       and_then (umul epochs_passed (staking_epoch_length_blocks pd)) (\<lambda>offset.
       and_then (uadd (staking_epoch_start_block_height pd) offset) (\<lambda>start.
       Inr (pd\<lparr>pending_staking_amount := 0, pending_unstaking_amount := 0,
                staking_epoch_start_block_height := start\<rparr>))))
     else Inr pd))"

definition query_state :: "deps \<Rightarrow> env \<Rightarrow> hub_storage \<Rightarrow> hub_state lst_result" where
  "query_state d e s = and_then (load_state s) (query_actual_state d e s)"

definition query_current_batch :: "hub_storage \<Rightarrow> current_batch lst_result" where
  "query_current_batch s = load_current_batch s"

definition query_parameters :: "hub_storage \<Rightarrow> parameters lst_result" where
  "query_parameters s = load_parameters s"

definition query_get_finished_amount :: "hub_storage \<Rightarrow> addr \<Rightarrow> u64 \<Rightarrow> uint128 lst_result" where
  "query_get_finished_amount s address unstake_cutoff_time =
     (let wait_list = prefix_range address None (s_unstake_wait_list s) in
      for_each (\<lambda>(batch_id, lst_amount) acc.
        case read_unstake_history s batch_id of
          Inl (Panic p) \<Rightarrow> Inl (Panic p)
        | Inl (Err _) \<Rightarrow> Inr acc
        | Inr history \<Rightarrow>
            if uh_time history < unstake_cutoff_time then
              and_then (decimal_multiplication lst_amount (lst_applied_exchange_rate history))
                (\<lambda>amount. uadd acc amount)
            else Inr acc) wait_list 0)"

definition query_withdrawable_unstaked ::
    "deps \<Rightarrow> env \<Rightarrow> string \<Rightarrow> hub_storage \<Rightarrow> uint128 lst_result" where
  "query_withdrawable_unstaked d e address s =
     and_then (load_parameters s) (\<lambda>params.
     and_then (usub (block_time e) (unstaking_period params)) (\<lambda>unstake_cutoff_time.
     and_then (to_checked_address d address) (\<lambda>checked_addr.
     query_get_finished_amount s checked_addr unstake_cutoff_time)))"

text \<open>\<open>.take(limit.unwrap_or(u32::MAX) as usize)\<close>\<close>

definition limit_or_max :: "u32 option \<Rightarrow> nat" where
  "limit_or_max limit = (case limit of None \<Rightarrow> 2 ^ 32 - 1 | Some l \<Rightarrow> unat l)"

definition unstake_request :: "hub_storage \<Rightarrow> u64 \<times> uint128 \<Rightarrow> user_unstake_request option" where
  "unstake_request s = (\<lambda>(batch_id, lst_amount).
     case read_unstake_history s batch_id of
       Inl _ \<Rightarrow> None
     | Inr history \<Rightarrow> Some \<lparr>ur_batch_id = batch_id, ur_lst_amount = lst_amount,
         ur_withdraw_exchange_rate = lst_withdraw_rate history,
         ur_applied_exchange_rate = lst_applied_exchange_rate history,
         ur_time = uh_time history, ur_released = released history\<rparr>)"

definition get_unstake_requests ::
    "hub_storage \<Rightarrow> addr \<Rightarrow> u64 option \<Rightarrow> u32 option \<Rightarrow> user_unstake_request list lst_result" where
  "get_unstake_requests s address start_from limit =
     Inr (List.map_filter (unstake_request s)
       (take (limit_or_max limit) (prefix_range address start_from (s_unstake_wait_list s))))"

definition query_unstake_requests ::
    "deps \<Rightarrow> string \<Rightarrow> hub_storage \<Rightarrow> unstake_requests_response lst_result" where
  "query_unstake_requests d address s =
     and_then (to_checked_address d address) (\<lambda>checked_addr.
     and_then (get_unstake_requests s checked_addr None None) (\<lambda>requests.
     Inr \<lparr>urr_address = address, urr_requests = requests\<rparr>))"

definition query_unstake_requests_limit ::
    "deps \<Rightarrow> string \<Rightarrow> u64 option \<Rightarrow> u32 option \<Rightarrow> hub_storage
     \<Rightarrow> unstake_requests_response lst_result" where
  "query_unstake_requests_limit d address start_from limit s =
     and_then (to_checked_address d address) (\<lambda>checked_addr.
     and_then (get_unstake_requests s checked_addr start_from limit) (\<lambda>requests.
     Inr \<lparr>urr_address = address, urr_requests = requests\<rparr>))"

definition all_unstake_history ::
    "hub_storage \<Rightarrow> u64 option \<Rightarrow> u32 option \<Rightarrow> unstake_history list lst_result" where
  "all_unstake_history s start limit =
     Inr (map snd (take (limit_or_max limit) (range_from start (s_unstake_history s))))"

definition query_unstake_requests_limitation ::
    "u64 option \<Rightarrow> u32 option \<Rightarrow> hub_storage \<Rightarrow> unstake_history list lst_result" where
  "query_unstake_requests_limitation start limit s =
     and_then (all_unstake_history s start limit) (\<lambda>requests.
     Inr (map (\<lambda>request. \<lparr>uh_batch_id = uh_batch_id request, uh_time = uh_time request,
       lst_token_amount = lst_token_amount request,
       lst_applied_exchange_rate = lst_applied_exchange_rate request,
       lst_withdraw_rate = lst_withdraw_rate request, released = released request\<rparr>) requests))"

section \<open>Properties\<close>

lemma uadd_zero [simp]: "uadd a 0 = Inr a"
  using unat_less [of a] by (simp add: uadd_def)

text \<open>
  The query of the pending amounts agrees with the code that maintains them: it fails exactly
  when an update without amounts fails, with the same failure, and otherwise shows the record
  such an update would store.
\<close>

theorem pending_query_is_empty_update:
  "update_pending_delegation_amount e None None s =
     and_then (query_pending_delegation e s) (\<lambda>pd. Inr (s\<lparr>s_pending_delegation := Some pd\<rparr>))"
proof (cases "s_pending_delegation s")
  case None
  then show ?thesis
    by (simp add: update_pending_delegation_amount_def query_pending_delegation_def
        load_pending_delegation_def load_def from_err_def)
next
  case (Some pd)
  let ?s = "staking_epoch_start_block_height pd" and ?l = "staking_epoch_length_blocks pd"
  show ?thesis
  proof (cases "?s \<le> block_height e")
    case False
    with Some show ?thesis
      by (simp add: update_pending_delegation_amount_def query_pending_delegation_def
          load_pending_delegation_def usub_def Let_def)
  next
    case le: True
    then have sub: "usub (block_height e) ?s = (Inr (block_height e - ?s) :: u64 lst_result)"
      by (rule usub_fits)
    have pd: "pd\<lparr>pending_staking_amount := pending_staking_amount pd,
        pending_unstaking_amount := pending_unstaking_amount pd\<rparr> = pd"
      by simp
    show ?thesis
    proof (cases "block_height e - ?s < ?l")
      case True
      with Some sub show ?thesis
        by (simp add: update_pending_delegation_amount_def query_pending_delegation_def
            load_pending_delegation_def Let_def unwrap_or_zero_def not_le [symmetric])
    next
      case False
      with Some sub show ?thesis
        by (simp add: update_pending_delegation_amount_def query_pending_delegation_def
            load_pending_delegation_def Let_def unwrap_or_zero_def and_then_def not_le [symmetric]
            split: sum.splits)
    qed
  qed
qed

lemma mem_map_filter: "y \<in> set (List.map_filter f xs) \<longleftrightarrow> (\<exists>x \<in> set xs. f x = Some y)"
  by (force simp: List.map_filter_def)

text \<open>
  The unpaged list of a user's unstake requests is complete and exact (below \<open>2^32 - 1\<close> entries):
  it has an entry for a batch exactly when the user has a wait-list entry for it and the batch
  has a history, with the amount of the former and the rates, time and status of the latter.
\<close>

theorem unstake_requests_complete:
  assumes "sorted_keys (s_unstake_wait_list s)"
    and "length (prefix_range a None (s_unstake_wait_list s)) < 2 ^ 32"
    and "get_unstake_requests s a None None = Inr rs"
  shows "ur \<in> set rs \<longleftrightarrow>
    (\<exists>h. may_load (s_unstake_wait_list s) (a, ur_batch_id ur) = Some (ur_lst_amount ur)
      \<and> may_load (s_unstake_history s) (ur_batch_id ur) = Some h
      \<and> ur_withdraw_exchange_rate ur = lst_withdraw_rate h
      \<and> ur_applied_exchange_rate ur = lst_applied_exchange_rate h
      \<and> ur_time ur = uh_time h \<and> ur_released ur = released h)"
proof -
  let ?wl = "prefix_range a None (s_unstake_wait_list s)"
  have "rs = List.map_filter (unstake_request s) ?wl"
    using assms(2,3) by (simp add: get_unstake_requests_def limit_or_max_def)
  then have "ur \<in> set rs \<longleftrightarrow> (\<exists>b v. may_load (s_unstake_wait_list s) (a, b) = Some v
      \<and> unstake_request s (b, v) = Some ur)"
    by (auto simp: mem_map_filter prefix_range_mem [OF assms(1), symmetric])
  also have "\<dots> \<longleftrightarrow> (\<exists>h. may_load (s_unstake_wait_list s) (a, ur_batch_id ur) = Some (ur_lst_amount ur)
      \<and> may_load (s_unstake_history s) (ur_batch_id ur) = Some h
      \<and> ur_withdraw_exchange_rate ur = lst_withdraw_rate h
      \<and> ur_applied_exchange_rate ur = lst_applied_exchange_rate h
      \<and> ur_time ur = uh_time h \<and> ur_released ur = released h)"
    by (cases ur) (auto simp: unstake_request_def read_unstake_history_def ok_or_def
        split: option.splits)
  finally show ?thesis .
qed

text \<open>
  The estimate of the withdrawable amount uses a strict comparison where the release uses a
  non-strict one, and it does not look at whether a batch is released: for a batch that matures
  exactly now and has been released, the query shows nothing although a withdrawal pays.
\<close>

theorem withdrawable_query_misses_boundary:
  assumes "s_unstake_wait_list s = [((a, b), v)]"
    and "may_load (s_unstake_history s) b = Some h" and "released h" and "uh_time h = cutoff"
    and "decimal_multiplication v (lst_applied_exchange_rate h) = (Inr worth :: uint128 lst_result)"
  shows "query_get_finished_amount s a cutoff = Inr 0 \<and> get_finished_amount s a = Inr (worth, [b])"
  using assms
  by (simp add: query_get_finished_amount_def get_finished_amount_def process_finished_amount_def
      finish_entry_def prefix_range_def range_from_def read_unstake_history_def uadd_def)
    (use unat_less [of worth] in simp)

section \<open>Witnesses\<close>

lemma unstake_requests_complete_witness:
  "\<exists>rs. get_unstake_requests sample_hub alice None None = Inr rs
    \<and> \<lparr>ur_batch_id = 2, ur_lst_amount = 60, ur_withdraw_exchange_rate = decimal_one,
       ur_applied_exchange_rate = decimal_one, ur_time = 1000, ur_released = False\<rparr> \<in> set rs"
proof -
  obtain rs where rs: "get_unstake_requests sample_hub alice None None = Inr rs"
    by (simp add: get_unstake_requests_def)
  have "length (prefix_range alice None (s_unstake_wait_list sample_hub)) < 2 ^ 32"
    by (simp add: prefix_range_def range_from_def sample_defs)
  from unstake_requests_complete [OF sorted_sample this rs] rs show ?thesis
    by (simp add: may_load_def sample_hub_def sample_history_def)
qed

lemma withdrawable_query_misses_boundary_witness:
  "query_get_finished_amount (sample_hub\<lparr>s_unstake_wait_list := [((alice, 1), 50)]\<rparr>) alice 1000 = Inr 0
   \<and> get_finished_amount (sample_hub\<lparr>s_unstake_wait_list := [((alice, 1), 50)]\<rparr>) alice = Inr (50, [1])"
  by (rule withdrawable_query_misses_boundary [where v = 50 and h = "sample_history 1 50 True"])
    (simp_all add: may_load_def sample_hub_def sample_history_def decimal_multiplication_Inr
      decimal_one_def)

end
