(* ===== verification/Hub_Contract.thy ===== *)
theory Hub_Contract
  imports Hub_Config Hub_Query
begin

text \<open>
  The entry points of the staking hub (\<open>contracts/lst_staking_hub/src/contract.rs\<close>):
  instantiation, the dispatch of messages and queries, redelegation on behalf of the registry,
  the cw20 hook, the withdrawal of rewards, and migration.
\<close>

section \<open>The code\<close>

definition CONTRACT_NAME :: string where "CONTRACT_NAME = ''crates.io:lst_staking_hub''"
definition CONTRACT_VERSION :: string where "CONTRACT_VERSION = ''1.0.0''"

definition hub_instantiate ::
    "deps \<Rightarrow> env \<Rightarrow> message_info \<Rightarrow> hub_instantiate_msg \<Rightarrow> hub_storage
     \<Rightarrow> (response \<times> hub_storage) lst_result" where
  "hub_instantiate d e info msg s =
     and_then (query_std (set_contract_version d CONTRACT_NAME CONTRACT_VERSION (s_contract_info s)))
       (\<lambda>contract_info.
     if MAX_EPOCH_LENGTH < im_epoch_length msg then hub_err InvalidEpochLength else
     and_then (umul (im_staking_epoch_length_blocks msg) AVERAGE_BLOCK_TIME) (\<lambda>staking_epoch.
     if im_epoch_length msg < staking_epoch then hub_err InvalidEpochLength else
     if MAX_UNSTAKING_PERIOD < im_unstaking_period msg then hub_err InvalidUnstakingPeriod else
     if im_unstaking_period msg \<le> im_epoch_length msg then hub_err InvalidPeriods else
     let data = \<lparr>hc_owner = info_sender info, reward_dispatcher_contract = None,
           validators_registry_contract = None, lst_token = None\<rparr>;
         st = \<lparr>lst_exchange_rate = decimal_one, total_staked_amount = 0,
           last_index_modification = block_time e, unclaimed_unstaked_balance = 0,
           last_unbonded_time = block_time e, last_processed_batch = 0\<rparr>;
         evs = [\<lparr>ev_type = LST_EXCHANGE_RATE_UPDATED, ev_attributes =
             [(OLD_RATE, decimal_to_string d decimal_zero),
              (NEW_RATE, decimal_to_string d decimal_one)]\<rparr>,
           \<lparr>ev_type = TOTAL_STAKED_AMOUNT_UPDATED, ev_attributes =
             [(OLD_AMOUNT, to_string (0 :: uint128)), (NEW_AMOUNT, to_string (0 :: uint128))]\<rparr>];
         params = \<lparr>epoch_length = im_epoch_length msg,
           staking_coin_denom = im_staking_coin_denom msg,
           unstaking_period = im_unstaking_period msg, paused = False\<rparr>;
         batch = \<lparr>cb_id = 1, requested_lst_token_amount = 0\<rparr>;
         pd = \<lparr>staking_epoch_length_blocks = im_staking_epoch_length_blocks msg,
           staking_epoch_start_block_height = im_staking_epoch_start_block_height msg,
           pending_staking_amount = 0, pending_unstaking_amount = 0\<rparr> in
     Inr (response_new\<lparr>events := evs\<rparr>,
          s\<lparr>s_config := Some data, s_parameters := Some params, s_current_batch := Some batch,
            s_state := Some st, s_pending_delegation := Some pd,
            s_contract_info := contract_info\<rparr>)))"

definition prepare_wrapped_begin_redelegate_msg ::
    "string \<Rightarrow> string \<Rightarrow> string \<Rightarrow> string \<Rightarrow> string \<Rightarrow> cosmos_msg" where
  "prepare_wrapped_begin_redelegate_msg denom amount delegator src dst =
     (let redelegate_msg = MsgBeginRedelegate delegator src dst (Some (ProtoCoin denom amount)) in
      to_any (MsgWrappedBeginRedelegate (Some redelegate_msg)))"

definition execute_redelegate_proxy ::
    "env \<Rightarrow> message_info \<Rightarrow> string \<Rightarrow> (string \<times> coin) list \<Rightarrow> hub_storage
     \<Rightarrow> (response \<times> hub_storage) lst_result" where
  "execute_redelegate_proxy e info src_validator redelegations s =
     and_then (load_config s) (\<lambda>config.
     and_then (ok_or (validators_registry_contract config) (Hub ValidatorRegistryNotSet))
       (\<lambda>validator_registry_addr.
     if info_sender info \<noteq> validator_registry_addr then unauthorized else
     let msgs = map (\<lambda>(dst_validator, amount). prepare_wrapped_begin_redelegate_msg
           (coin_denom amount) (to_string (coin_amount amount)) (contract_address e)
           src_validator dst_validator) redelegations in
     Inr (response_new\<lparr>messages := msgs\<rparr>, s)))"

definition receive_cw20 ::
    "deps \<Rightarrow> env \<Rightarrow> message_info \<Rightarrow> cw20_receive_msg \<Rightarrow> hub_storage
     \<Rightarrow> (response \<times> hub_storage) lst_result" where
  "receive_cw20 d e info cw20_msg s =
     and_then (load_config s) (\<lambda>config.
     and_then (ok_or (lst_token config) (Hub LstTokenNotSet)) (\<lambda>lst_token_addr.
     and_then (query_std (parse_cw20_hook d (receive_msg cw20_msg))) (\<lambda>hook.
     case hook of HookUnstake \<Rightarrow>
       if info_sender info = lst_token_addr
       then execute_unstake d e (receive_amount cw20_msg) (receive_sender cw20_msg) BurnFlow s
       else unauthorized)))"

definition withdraw_all_rewards :: "deps \<Rightarrow> string \<Rightarrow> cosmos_msg list lst_result" where
  "withdraw_all_rewards d delegator =
     and_then (query_std (query_all_delegations d delegator)) (\<lambda>delegations.
     Inr (if delegations \<noteq> [] then map (\<lambda>del. WithdrawDelegatorReward (del_validator del)) delegations
          else []))"

definition execute_update_global_index ::
    "deps \<Rightarrow> env \<Rightarrow> hub_storage \<Rightarrow> (response \<times> hub_storage) lst_result" where
  "execute_update_global_index d e s =
     and_then (load_config s) (\<lambda>config.
     and_then (ok_or (reward_dispatcher_contract config) (Hub RewardDispatcherNotSet))
       (\<lambda>reward_address.
     and_then (withdraw_all_rewards d (contract_address e)) (\<lambda>withdraw_msgs.
     and_then (load_state s) (\<lambda>last_state.
     Inr (response_new\<lparr>messages := withdraw_msgs
              @ [WasmExecute reward_address (RewardsPayload DispatchRewards) []],
            attributes := [(''action'', ''update_global_index'')]\<rparr>,
          s\<lparr>s_state := Some (last_state\<lparr>last_index_modification := block_time e\<rparr>)\<rparr>)))))"

definition hub_execute ::
    "deps \<Rightarrow> env \<Rightarrow> message_info \<Rightarrow> hub_execute_msg \<Rightarrow> hub_storage
     \<Rightarrow> (response \<times> hub_storage) lst_result" where
  "hub_execute d e info msg s =
     (case msg of
        UpdateParams pause new_epoch_length new_unstaking_period \<Rightarrow>
          execute_update_params info pause new_epoch_length new_unstaking_period s
      | _ \<Rightarrow>
          and_then (load_parameters s) (\<lambda>params.
          if paused params then hub_err Paused else
          case msg of
            Receive cw20_msg \<Rightarrow> receive_cw20 d e info cw20_msg s
          | Stake \<Rightarrow> execute_stake d e info LSTMint s
          | StakeRewards \<Rightarrow> execute_stake d e info StakeRewardsType s
          | Unstake amount \<Rightarrow> execute_unstake d e amount (info_sender info) BurnFromFlow s
          | WithdrawUnstaked \<Rightarrow> execute_withdraw_unstaked d e info s
          | WithdrawUnstakedForBatches batch_ids \<Rightarrow>
              execute_withdraw_unstaked_for_batches d e info batch_ids s
          | CheckSlashing \<Rightarrow> execute_slashing d e s
          | UpdateParams pause new_epoch_length new_unstaking_period \<Rightarrow>
              execute_update_params info pause new_epoch_length new_unstaking_period s
          | UpdateConfig new_owner token validator_registry reward_dispatcher \<Rightarrow>
              execute_update_config d info new_owner token validator_registry reward_dispatcher s
          | RedelegateProxy src_validator redelegations \<Rightarrow>
              execute_redelegate_proxy e info src_validator redelegations s
          | UpdateGlobalIndex \<Rightarrow> execute_update_global_index d e s
          | ProcessUndelegations \<Rightarrow> execute_process_undelegations d e s
          | ProcessWithdrawRequests \<Rightarrow> execute_process_withdraw_requests d e s))"

text \<open>A query's answer, before its serialisation to JSON.\<close>

datatype hub_query_answer =
    AConfig hub_config_response
  | AState hub_state
  | ACurrentBatch current_batch
  | AParameters parameters
  | AExchangeRate decimal
  | AWithdrawable uint128
  | AUnstakeRequests unstake_requests_response
  | AAllHistory "unstake_history list"
  | APendingDelegation pending_delegation

fun hub_query :: "deps \<Rightarrow> env \<Rightarrow> hub_query_msg \<Rightarrow> hub_storage \<Rightarrow> hub_query_answer lst_result" where
  "hub_query d e QConfig s = and_then (query_config s) (\<lambda>a. Inr (AConfig a))"
| "hub_query d e QExchangeRate s =
     and_then (query_state d e s) (\<lambda>st. Inr (AExchangeRate (lst_exchange_rate st)))"
| "hub_query d e QParameters s = and_then (query_parameters s) (\<lambda>a. Inr (AParameters a))"
| "hub_query d e QState s = and_then (query_state d e s) (\<lambda>a. Inr (AState a))"
| "hub_query d e QCurrentBatch s = and_then (query_current_batch s) (\<lambda>a. Inr (ACurrentBatch a))"
| "hub_query d e (QWithdrawableUnstaked address) s =
     and_then (query_withdrawable_unstaked d e address s) (\<lambda>a. Inr (AWithdrawable a))"
| "hub_query d e (QUnstakeRequests address) s =
     and_then (query_unstake_requests d address s) (\<lambda>a. Inr (AUnstakeRequests a))"
| "hub_query d e (QUnstakeRequestsLimit address start_from limit) s =
     and_then (query_unstake_requests_limit d address start_from limit s)
       (\<lambda>a. Inr (AUnstakeRequests a))"
| "hub_query d e (QAllHistory start_from limit) s =
     and_then (query_unstake_requests_limitation start_from limit s) (\<lambda>a. Inr (AAllHistory a))"
| "hub_query d e QPendingDelegation s =
     and_then (query_pending_delegation e s) (\<lambda>a. Inr (APendingDelegation a))"

definition hub_migrate :: "deps \<Rightarrow> hub_storage \<Rightarrow> (response \<times> hub_storage) lst_result" where
  "hub_migrate d s =
     and_then (query_std (ensure_from_older_version d CONTRACT_NAME CONTRACT_VERSION
       (s_contract_info s))) (\<lambda>contract_info.
     Inr (response_new, s\<lparr>s_contract_info := contract_info\<rparr>))"

end
