(* ===== verification/Hub_Invariant.thy ===== *)
theory Hub_Invariant
  imports Hub_Contract
begin

text \<open>
  The hub as a transition system: its steps are the successful executions of messages, with any
  answers from the outside world, any sender and any block. Two invariants of its reachable
  states: the unstake queue is well formed (batches, histories and wait-list entries fit
  together), and, as long as nobody repeats a batch in \<open>WithdrawUnstakedForBatches\<close>, the
  unclaimed balance covers everything the hub still owes for released batches.
\<close>

section \<open>Well-formed queues\<close>

text \<open>The tokens that wait in a batch, and what the hub owes for released entries.\<close>

definition batch_total :: "hub_storage \<Rightarrow> u64 \<Rightarrow> nat" where
  "batch_total s b =
     smap.weight (\<lambda>(_, b') v. if b' = b then unat v else 0) (s_unstake_wait_list s)"

definition claims :: "hub_storage \<Rightarrow> nat" where
  "claims s = smap.weight (\<lambda>(_, b) v. claim s b v) (s_unstake_wait_list s)"

definition queue_inv :: "hub_storage \<Rightarrow> current_batch \<Rightarrow> u64 \<Rightarrow> bool" where
  "queue_inv s cb lp \<longleftrightarrow>
     sorted_keys (s_unstake_wait_list s) \<and> sorted_keys (s_unstake_history s)
     \<and> unat lp < unat (cb_id cb)
     \<and> (\<forall>b. may_load (s_unstake_history s) b \<noteq> None \<longleftrightarrow> 1 \<le> unat b \<and> unat b < unat (cb_id cb))
     \<and> (\<forall>b h. may_load (s_unstake_history s) b = Some h \<longrightarrow>
          uh_batch_id h = b \<and> (released h \<longleftrightarrow> unat b \<le> unat lp)
          \<and> lst_applied_exchange_rate h = lst_withdraw_rate h
          \<and> batch_total s b \<le> unat (lst_token_amount h))
     \<and> (\<forall>a b. may_load (s_unstake_wait_list s) (a, b) \<noteq> None \<longrightarrow>
          1 \<le> unat b \<and> unat b \<le> unat (cb_id cb))
     \<and> batch_total s (cb_id cb) = unat (requested_lst_token_amount cb)"

definition hub_inv :: "hub_storage \<Rightarrow> bool" where
  "hub_inv s \<longleftrightarrow> (\<exists>p c cb st pd. s_parameters s = Some p \<and> params_ok p \<and> s_config s = Some c
     \<and> s_current_batch s = Some cb \<and> s_state s = Some st \<and> s_pending_delegation s = Some pd
     \<and> queue_inv s cb (last_processed_batch st))"

definition solvent :: "hub_storage \<Rightarrow> bool" where
  "solvent s \<longleftrightarrow> (\<exists>st. s_state s = Some st \<and> claims s \<le> unat (unclaimed_unstaked_balance st))"

section \<open>Sums over the wait list\<close>

lemma weight_add:
  "smap.weight (\<lambda>k v. f k v + g k v) m = smap.weight f m + smap.weight g m"
  unfolding smap.weight_def by (induction m) auto

lemma weight_add_pair:
  "smap.weight (\<lambda>(a, b) v. f a b v + g a b v) m
     = smap.weight (\<lambda>(a, b) v. f a b v) m + smap.weight (\<lambda>(a, b) v. g a b v) m"
  unfolding smap.weight_def by (induction m) auto

lemma weight_zero: "(\<And>k v. (k, v) \<in> set m \<Longrightarrow> f k v = 0) \<Longrightarrow> smap.weight f m = 0"
  unfolding smap.weight_def by (induction m) auto

text \<open>Removing a set of entries removes exactly their weight.\<close>

lemma weight_removed:
  assumes "sorted_keys m" "sorted_keys m'"
    and lookup: "may_load m' = (\<lambda>k. if k \<in> R then None else may_load m k)"
  shows "smap.weight f m' + (\<Sum>k \<in> R \<inter> dom (may_load m). smap.at f m k) = smap.weight f m"
proof -
  have fin: "finite (dom (may_load m))"
    using smap.finite_dom [OF assms(1)] .
  have dom: "dom (may_load m') = dom (may_load m) - R"
    unfolding lookup by (auto simp: dom_def)
  have "smap.weight f m' = (\<Sum>k \<in> dom (may_load m) - R. smap.at f m' k)"
    unfolding smap.weight_at [OF assms(2)] dom ..
  also have "\<dots> = (\<Sum>k \<in> dom (may_load m) - R. smap.at f m k)"
    by (rule sum.cong) (auto simp: smap.at_def lookup)
  finally show ?thesis
    using sum.Int_Diff [OF fin, of "smap.at f m" R] by (simp add: smap.weight_at [OF assms(1)] Int_commute)
qed

lemma batch_total_cong:
  "s_unstake_wait_list s' = s_unstake_wait_list s \<Longrightarrow> batch_total s' b = batch_total s b"
  by (simp add: batch_total_def)

lemma queue_inv_cong:
  assumes "s_unstake_wait_list s' = s_unstake_wait_list s" "s_unstake_history s' = s_unstake_history s"
  shows "queue_inv s' cb lp \<longleftrightarrow> queue_inv s cb lp"
  using assms by (simp add: queue_inv_def batch_total_def)

lemma claims_cong:
  assumes "s_unstake_wait_list s' = s_unstake_wait_list s" "s_unstake_history s' = s_unstake_history s"
  shows "claims s' = claims s"
  using assms by (simp add: claims_def claim_def)

lemma queue_untouched [simp]:
  "queue_inv (s\<lparr>s_state := x1\<rparr>) cb lp = queue_inv s cb lp"
  "queue_inv (s\<lparr>s_config := x2\<rparr>) cb lp = queue_inv s cb lp"
  "queue_inv (s\<lparr>s_parameters := x3\<rparr>) cb lp = queue_inv s cb lp"
  "queue_inv (s\<lparr>s_pending_delegation := x4\<rparr>) cb lp = queue_inv s cb lp"
  "queue_inv (s\<lparr>s_current_batch := x5\<rparr>) cb lp = queue_inv s cb lp"
  "claims (s\<lparr>s_state := x1\<rparr>) = claims s" "claims (s\<lparr>s_config := x2\<rparr>) = claims s"
  "claims (s\<lparr>s_parameters := x3\<rparr>) = claims s" "claims (s\<lparr>s_pending_delegation := x4\<rparr>) = claims s"
  "claims (s\<lparr>s_current_batch := x5\<rparr>) = claims s"
  by (simp_all add: queue_inv_def batch_total_def claims_def claim_def)

lemma claim_not_released: "\<not> is_released s b \<Longrightarrow> claim s b v = 0"
  by (auto simp: claim_def is_released_def split: option.splits)

lemma claim_pos: "0 < claim s b v \<Longrightarrow> is_released s b"
  using claim_not_released by fastforce

section \<open>A request\<close>

lemma queue_inv_request:
  assumes inv: "queue_inv s cb lp" and id: "1 \<le> unat (cb_id cb)"
    and s': "s' = s\<lparr>s_unstake_wait_list := save (a, cb_id cb) v (s_unstake_wait_list s)\<rparr>"
    and v: "unat v = waiting s a (cb_id cb) + amount"
    and req: "unat requested = unat (requested_lst_token_amount cb) + amount"
  shows "queue_inv s' (cb\<lparr>requested_lst_token_amount := requested\<rparr>) lp" and "claims s' = claims s"
proof -
  let ?m = "s_unstake_wait_list s" and ?k = "(a, cb_id cb)"
  have sorted: "sorted_keys ?m"
    using inv by (simp add: queue_inv_def)
  have total: "batch_total s' b = batch_total s b + (if b = cb_id cb then amount else 0)" for b
  proof -
    let ?f = "\<lambda>(_ :: addr, b') v :: uint128. if b' = b then unat v else 0"
    have "smap.at ?f ?m ?k = (if b = cb_id cb then waiting s a (cb_id cb) else 0)"
      by (auto simp: smap.at_def waiting_def split: option.splits)
    then show ?thesis
      using smap.weight_save [OF sorted, of ?f ?k v] v by (auto simp: batch_total_def s')
  qed
  have hist: "s_unstake_history s' = s_unstake_history s"
    by (simp add: s')
  have fresh: "may_load (s_unstake_history s) (cb_id cb) = None"
    using inv unfolding queue_inv_def by (metis less_irrefl)
  show "queue_inv s' (cb\<lparr>requested_lst_token_amount := requested\<rparr>) lp"
    unfolding queue_inv_def total hist
  proof (intro conjI)
    show "sorted_keys (s_unstake_wait_list s')"
      using sorted by (simp add: s' sorted_keys_save)
    show "\<forall>b h. may_load (s_unstake_history s) b = Some h \<longrightarrow>
        uh_batch_id h = b \<and> (released h = (unat b \<le> unat lp))
        \<and> lst_applied_exchange_rate h = lst_withdraw_rate h
        \<and> batch_total s b + (if b = cb_id cb then amount else 0) \<le> unat (lst_token_amount h)"
      using inv fresh unfolding queue_inv_def by auto
  qed (use inv req id in \<open>auto simp: queue_inv_def s'\<close>)
  have "claim s' b w = claim s b w" for b w
    by (simp add: claim_def hist)
  moreover have "claim s (cb_id cb) w = 0" for w
    by (simp add: claim_def fresh)
  ultimately show "claims s' = claims s"
    using smap.weight_save [OF sorted, of "\<lambda>(_, b) v. claim s b v" ?k v]
    by (simp add: claims_def s' smap.at_def claim_def fresh split: option.splits)
qed

section \<open>Closing a batch\<close>

lemma queue_inv_close:
  assumes inv: "queue_inv s cb lp"
    and hist: "s_unstake_history s' = save (cb_id cb) h (s_unstake_history s)"
    and wait: "s_unstake_wait_list s' = s_unstake_wait_list s"
    and h: "uh_batch_id h = cb_id cb" "\<not> released h" "lst_applied_exchange_rate h = lst_withdraw_rate h"
      "lst_token_amount h = requested_lst_token_amount cb"
    and cb': "unat (cb_id cb') = unat (cb_id cb) + 1" "requested_lst_token_amount cb' = 0"
  shows "queue_inv s' cb' lp" and "claims s' = claims s"
proof -
  have fresh: "may_load (s_unstake_history s) (cb_id cb) = None"
    using inv unfolding queue_inv_def by (metis less_irrefl)
  have total: "batch_total s' b = batch_total s b" for b
    by (rule batch_total_cong [OF wait])
  have empty: "batch_total s (cb_id cb') = 0"
    unfolding batch_total_def
  proof (rule weight_zero)
    fix k v assume "(k, v) \<in> set (s_unstake_wait_list s)"
    then have "may_load (s_unstake_wait_list s) k = Some v"
      using inv by (simp add: queue_inv_def sorted_keys_mem)
    then have "unat (snd k) \<le> unat (cb_id cb)"
      using inv unfolding queue_inv_def by (metis option.discI prod.collapse)
    with cb'(1) show "(case k of (_, b') \<Rightarrow> \<lambda>v. if b' = cb_id cb' then unat v else 0) v = 0"
      by (auto split: prod.splits)
  qed
  have id: "1 \<le> unat (cb_id cb)"
    using inv unfolding queue_inv_def by linarith
  show "queue_inv s' cb' lp"
    unfolding queue_inv_def total hist wait
  proof (intro conjI)
    show "\<forall>b. (may_load (save (cb_id cb) h (s_unstake_history s)) b \<noteq> None)
        = (1 \<le> unat b \<and> unat b < unat (cb_id cb'))"
    proof
      fix b
      have "unat b < unat (cb_id cb') \<longleftrightarrow> unat b < unat (cb_id cb) \<or> b = cb_id cb"
        unfolding cb'(1) word_unat_eq_iff by linarith
      then show "(may_load (save (cb_id cb) h (s_unstake_history s)) b \<noteq> None)
        = (1 \<le> unat b \<and> unat b < unat (cb_id cb'))"
        using inv id unfolding queue_inv_def by auto
    qed
    show "\<forall>b h'. may_load (save (cb_id cb) h (s_unstake_history s)) b = Some h' \<longrightarrow>
        uh_batch_id h' = b \<and> (released h' = (unat b \<le> unat lp))
        \<and> lst_applied_exchange_rate h' = lst_withdraw_rate h'
        \<and> batch_total s b \<le> unat (lst_token_amount h')"
      using inv h unfolding queue_inv_def by (auto split: if_splits)
    show "\<forall>a b. may_load (s_unstake_wait_list s) (a, b) \<noteq> None \<longrightarrow>
        1 \<le> unat b \<and> unat b \<le> unat (cb_id cb')"
      using inv unfolding queue_inv_def cb'(1) by fastforce
  qed (use inv cb' empty in \<open>auto simp: queue_inv_def sorted_keys_save\<close>)
  have "claim s' b v = claim s b v" for b v
    using h(2) fresh by (auto simp: claim_def hist)
  then show "claims s' = claims s"
    by (simp add: claims_def wait)
qed

section \<open>Releasing batches\<close>

text \<open>The value of a single entry when its batch is in the released run.\<close>

definition run_value :: "(u64 \<times> unstake_history) list \<Rightarrow> u64 \<Rightarrow> uint128 \<Rightarrow> nat" where
  "run_value run b v = (\<Sum>(b', h) \<leftarrow> run.
     if b = b' then unat v * unat (atomics (lst_applied_exchange_rate h)) div 10 ^ 18 else 0)"

lemma batch_value_le:
  "smap.weight (\<lambda>(_, b') v. if b' = b then unat v * r div n else 0) m
     \<le> smap.weight (\<lambda>(_, b') v. if b' = b then unat v else 0) m * r div n"
proof -
  have "smap.weight (\<lambda>(_, b') v. if b' = b then unat v * r div n else 0) m
      = (\<Sum>x \<leftarrow> m. (case x of ((_, b'), v) \<Rightarrow> if b' = b then unat v * r else 0) div n)"
    unfolding smap.weight_def by (rule arg_cong [where f = sum_list]) (auto split: prod.splits)
  also have "\<dots> \<le> (\<Sum>x \<leftarrow> m. case x of ((_, b'), v) \<Rightarrow> if b' = b then unat v * r else 0) div n"
    by (rule sum_div_le)
  also have "(\<Sum>x \<leftarrow> m. case x of ((_, b'), v) \<Rightarrow> if b' = b then unat v * r else 0)
      = smap.weight (\<lambda>(_, b') v. if b' = b then unat v else 0) m * r"
    unfolding smap.weight_def by (induction m) (auto simp: algebra_simps split: prod.splits)
  finally show ?thesis .
qed

lemma run_value_le:
  assumes "\<And>b h. (b, h) \<in> set run \<Longrightarrow> lst_applied_exchange_rate h = lst_withdraw_rate h
      \<and> batch_total s b \<le> unat (lst_token_amount h)"
  shows "smap.weight (\<lambda>(_, b) v. run_value run b v) (s_unstake_wait_list s) \<le> (\<Sum>(b, h) \<leftarrow> run. owed h)"
  using assms
proof (induction run)
  case Nil
  have "smap.weight (\<lambda>(_, b) v. run_value [] b v) (s_unstake_wait_list s) = 0"
    by (rule weight_zero) (auto simp: run_value_def split: prod.splits)
  then show ?case by (simp only: list.map sum_list.Nil order_refl)
next
  case (Cons bh run)
  obtain b h where bh: "bh = (b, h)" by force
  let ?r = "unat (atomics (lst_applied_exchange_rate h))" and ?m = "s_unstake_wait_list s"
  have split: "run_value (bh # run) b' v
      = (if b' = b then unat v * ?r div 10 ^ 18 else 0) + run_value run b' v" for b' v
    by (simp add: run_value_def bh)
  have "smap.weight (\<lambda>(_, b') v. run_value (bh # run) b' v) ?m
      = smap.weight (\<lambda>(_, b') v. if b' = b then unat v * ?r div 10 ^ 18 else 0) ?m
        + smap.weight (\<lambda>(_, b') v. run_value run b' v) ?m"
    unfolding split by (rule weight_add_pair)
  moreover have "smap.weight (\<lambda>(_, b') v. if b' = b then unat v * ?r div 10 ^ 18 else 0) ?m \<le> owed h"
  proof -
    have "smap.weight (\<lambda>(_, b') v. if b' = b then unat v * ?r div 10 ^ 18 else 0) ?m
        \<le> batch_total s b * ?r div 10 ^ 18"
      unfolding batch_total_def by (rule batch_value_le)
    also have "\<dots> \<le> owed h"
      using Cons.prems [of b h] by (simp add: bh owed_def div_le_mono mult_le_mono1)
    finally show ?thesis .
  qed
  moreover have "smap.weight (\<lambda>(_, b) v. run_value run b v) ?m \<le> (\<Sum>(b, h) \<leftarrow> run. owed h)"
    by (rule Cons.IH) (use Cons.prems in auto)
  ultimately have "smap.weight (\<lambda>(_, b') v. run_value (bh # run) b' v) ?m
      \<le> owed h + (\<Sum>(b, h) \<leftarrow> run. owed h)"
    by linarith
  then show ?case
    unfolding bh list.map sum_list.Cons prod.case .
qed

lemma releasable_run_stored:
  "releasable_run s c n run \<Longrightarrow> (b, h) \<in> set run \<Longrightarrow>
   may_load (s_unstake_history s) b = Some h \<and> \<not> released h"
  by (induction s c n run rule: releasable_run.induct) auto

lemma releasable_run_distinct: "releasable_run s c n run \<Longrightarrow> distinct (map fst run)"
proof (induction s c n run rule: releasable_run.induct)
  case (2 s c n b h run)
  then have "b \<notin> fst ` set run"
    using releasable_run_ge [of s c "Suc n" run] by fastforce
  with 2 show ?case by simp
qed simp

lemma run_value_member:
  assumes "distinct (map fst run)" "(b, h) \<in> set run"
  shows "run_value run b v = unat v * unat (atomics (lst_applied_exchange_rate h)) div 10 ^ 18"
proof -
  have none: "run_value run b v = 0" if "b \<notin> fst ` set run" for run
    using that unfolding run_value_def by (induction run) auto
  show ?thesis
    using assms
  proof (induction run)
    case (Cons bh run)
    then show ?case
      using none [of run] by (cases bh) (auto simp: run_value_def image_iff)
  qed simp
qed

lemma claim_after_release:
  assumes "releasable_run s c n run"
    and "\<And>b. may_load (s_unstake_history s') b =
       (if b \<in> fst ` set run then map_option (\<lambda>h. h\<lparr>released := True\<rparr>) (may_load (s_unstake_history s) b)
        else may_load (s_unstake_history s) b)"
  shows "claim s' b v = claim s b v + run_value run b v"
proof (cases "b \<in> fst ` set run")
  case True
  then obtain h where h: "(b, h) \<in> set run" by auto
  with releasable_run_stored [OF assms(1)] have "may_load (s_unstake_history s) b = Some h" "\<not> released h"
    by blast+
  with True run_value_member [OF releasable_run_distinct [OF assms(1)] h] show ?thesis
    by (simp add: claim_def assms(2))
next
  case False
  moreover from False have "run_value run b v = 0"
    unfolding run_value_def by (induction run) auto
  ultimately show ?thesis by (simp add: claim_def assms(2))
qed

lemma queue_inv_release:
  assumes inv: "queue_inv s cb lp"
    and run: "releasable_run s c (unat lp + 1) run"
    and hist: "\<And>b. may_load (s_unstake_history s') b =
       (if b \<in> fst ` set run then map_option (\<lambda>h. h\<lparr>released := True\<rparr>) (may_load (s_unstake_history s) b)
        else may_load (s_unstake_history s) b)"
    and sorted: "sorted_keys (s_unstake_history s')"
    and wait: "s_unstake_wait_list s' = s_unstake_wait_list s"
    and lp': "lp' = (if run = [] then lp else fst (last run))"
  shows "queue_inv s' cb lp'" and "claims s' \<le> claims s + (\<Sum>(b, h) \<leftarrow> run. owed h)"
proof -
  have total: "batch_total s' b = batch_total s b" for b
    by (rule batch_total_cong [OF wait])
  have stored: "may_load (s_unstake_history s) b = Some h \<and> \<not> released h" if "(b, h) \<in> set run" for b h
    using releasable_run_stored [OF run that] .
  have lp_val: "unat lp' = unat lp + length run"
    using releasable_run_last [OF run] by (simp add: lp')
  have lp_lt: "unat lp' < unat (cb_id cb)"
  proof (cases "run = []")
    case True
    with inv show ?thesis by (simp add: queue_inv_def lp')
  next
    case False
    then have "last run \<in> set run" by simp
    then have "may_load (s_unstake_history s) (fst (last run)) \<noteq> None"
      using stored [of "fst (last run)" "snd (last run)"] by simp
    with inv False show ?thesis unfolding queue_inv_def lp' by simp
  qed
  have keys: "b \<in> fst ` set run \<longleftrightarrow> unat lp + 1 \<le> unat b \<and> unat b \<le> unat lp'" for b
    using releasable_run_keys [OF run, of b] lp_val unat_less [of lp'] by auto
  show "queue_inv s' cb lp'"
    unfolding queue_inv_def total wait
  proof (intro conjI)
    show "\<forall>b. (may_load (s_unstake_history s') b \<noteq> None) = (1 \<le> unat b \<and> unat b < unat (cb_id cb))"
      using inv unfolding queue_inv_def hist by auto
    show "\<forall>b h. may_load (s_unstake_history s') b = Some h \<longrightarrow>
        uh_batch_id h = b \<and> (released h = (unat b \<le> unat lp'))
        \<and> lst_applied_exchange_rate h = lst_withdraw_rate h
        \<and> batch_total s b \<le> unat (lst_token_amount h)"
    proof (intro allI impI)
      fix b h assume h: "may_load (s_unstake_history s') b = Some h"
      show "uh_batch_id h = b \<and> (released h = (unat b \<le> unat lp'))
        \<and> lst_applied_exchange_rate h = lst_withdraw_rate h
        \<and> batch_total s b \<le> unat (lst_token_amount h)"
      proof (cases "b \<in> fst ` set run")
        case True
        with h obtain h0 where "may_load (s_unstake_history s) b = Some h0" "h = h0\<lparr>released := True\<rparr>"
          by (auto simp: hist)
        with inv True keys [of b] show ?thesis unfolding queue_inv_def by auto
      next
        case False
        with h have "may_load (s_unstake_history s) b = Some h" by (simp add: hist)
        with inv False keys [of b] lp_val show ?thesis unfolding queue_inv_def by auto
      qed
    qed
  qed (use inv sorted lp_lt in \<open>auto simp: queue_inv_def\<close>)
  have "claims s' = smap.weight (\<lambda>(a, b) v. claim s b v) (s_unstake_wait_list s)
      + smap.weight (\<lambda>(a, b) v. run_value run b v) (s_unstake_wait_list s)"
    unfolding claims_def wait claim_after_release [OF run hist] by (rule weight_add_pair)
  moreover have "smap.weight (\<lambda>(a, b) v. run_value run b v) (s_unstake_wait_list s)
      \<le> (\<Sum>(b, h) \<leftarrow> run. owed h)"
  proof (rule run_value_le)
    fix b h assume "(b, h) \<in> set run"
    with stored inv show "lst_applied_exchange_rate h = lst_withdraw_rate h
      \<and> batch_total s b \<le> unat (lst_token_amount h)"
      unfolding queue_inv_def by blast
  qed
  ultimately show "claims s' \<le> claims s + (\<Sum>(b, h) \<leftarrow> run. owed h)"
    by (simp add: claims_def)
qed

section \<open>Paying out\<close>

lemma queue_inv_payout:
  assumes inv: "queue_inv s cb lp"
    and wait: "may_load wait = (\<lambda>(a', b). if a' = a \<and> b \<in> B \<and> is_released s b then None
        else may_load (s_unstake_wait_list s) (a', b))" "sorted_keys wait"
    and s': "s_unstake_wait_list s' = wait" "s_unstake_history s' = s_unstake_history s"
  shows "queue_inv s' cb lp"
    and "finite B \<Longrightarrow> claims s' + (\<Sum>b \<in> B. user_claim s a b) = claims s"
proof -
  let ?m = "s_unstake_wait_list s" and ?R = "{(a', b). a' = a \<and> b \<in> B \<and> is_released s b}"
  have sorted: "sorted_keys ?m"
    using inv by (simp add: queue_inv_def)
  have lookup: "may_load wait = (\<lambda>k. if k \<in> ?R then None else may_load ?m k)"
    by (simp add: wait(1) fun_eq_iff)
  note removed = weight_removed [OF sorted wait(2) lookup]
  have le: "batch_total s' b \<le> batch_total s b" for b
    using removed [of "\<lambda>(_, b') v. if b' = b then unat v else 0"] by (simp add: batch_total_def s')
  have "batch_total s' (cb_id cb) = batch_total s (cb_id cb)"
  proof -
    have "may_load (s_unstake_history s) (cb_id cb) = None"
      using inv unfolding queue_inv_def by (metis less_irrefl)
    then have open_batch: "\<not> is_released s (cb_id cb)"
      by (simp add: is_released_def)
    have "(\<Sum>k \<in> ?R \<inter> dom (may_load ?m). smap.at (\<lambda>(_, b') v. if b' = cb_id cb then unat v else 0) ?m k) = 0"
      by (rule sum.neutral) (use open_batch in \<open>auto simp: smap.at_def split: option.splits\<close>)
    with removed [of "\<lambda>(_, b') v. if b' = cb_id cb then unat v else 0"] show ?thesis
      by (simp add: batch_total_def s')
  qed
  then show "queue_inv s' cb lp"
    using inv wait(2) le unfolding queue_inv_def s'
    by (auto simp: wait(1) split: if_splits intro: order_trans [OF le])
  assume fin: "finite B"
  have "(\<Sum>k \<in> ?R \<inter> dom (may_load ?m). smap.at (\<lambda>(_, b) v. claim s b v) ?m k)
      = (\<Sum>b \<in> {b \<in> B. is_released s b \<and> may_load ?m (a, b) \<noteq> None}. user_claim s a b)"
    by (rule sum.reindex_cong [where l = "\<lambda>b. (a, b)"])
      (auto simp: inj_on_def image_iff user_claim_def smap.at_def split: option.splits)
  also have "\<dots> = (\<Sum>b \<in> B. user_claim s a b)"
    by (rule sum.mono_neutral_left [OF fin])
      (auto simp: user_claim_def dest: claim_pos split: option.splits)
  finally show "claims s' + (\<Sum>b \<in> B. user_claim s a b) = claims s"
    using removed [of "\<lambda>(_, b) v. claim s b v"] by (simp add: claims_def s' claim_def)
qed

section \<open>Every handler keeps the invariants\<close>

text \<open>\<open>keeps s s'\<close>: the well-formedness carries over, and so does solvency.\<close>

definition keeps :: "hub_storage \<Rightarrow> hub_storage \<Rightarrow> bool" where
  "keeps s s' \<longleftrightarrow> (hub_inv s \<longrightarrow> hub_inv s' \<and> (solvent s \<longrightarrow> solvent s'))"

lemma keeps_refl [simp]: "keeps s s"
  by (simp add: keeps_def)

lemma hub_invE:
  assumes "hub_inv s"
  obtains p c cb st pd where "s_parameters s = Some p" "params_ok p" "s_config s = Some c"
    "s_current_batch s = Some cb" "s_state s = Some st" "s_pending_delegation s = Some pd"
    "queue_inv s cb (last_processed_batch st)"
  using assms by (auto simp: hub_inv_def)

text \<open>Handlers that leave the queue alone.\<close>

lemma keeps_frame:
  assumes "s_unstake_wait_list s' = s_unstake_wait_list s" "s_unstake_history s' = s_unstake_history s"
    "s_current_batch s' = s_current_batch s"
    and "s_state s = Some st" "s_state s' = Some st'"
    and "last_processed_batch st' = last_processed_batch st"
    and "unclaimed_unstaked_balance st' = unclaimed_unstaked_balance st"
    and "s_config s' \<noteq> None" "s_pending_delegation s' \<noteq> None"
    and "\<And>p. s_parameters s = Some p \<Longrightarrow> params_ok p \<Longrightarrow> \<exists>p'. s_parameters s' = Some p' \<and> params_ok p'"
  shows "keeps s s'"
  using assms queue_inv_cong [OF assms(1,2)] claims_cong [OF assms(1,2)]
  by (fastforce simp: keeps_def hub_inv_def solvent_def)

lemma update_pending_has_record:
  "update_pending_delegation_amount e st un s = Inr s' \<Longrightarrow>
   \<exists>pd pd'. s_pending_delegation s = Some pd \<and> s' = s\<lparr>s_pending_delegation := Some pd'\<rparr>"
  by (auto simp: update_pending_delegation_amount_def outcome_simps Let_def)

lemma stake_keeps:
  assumes "execute_stake d e info kind s = Inr (r, s')"
  shows "keeps s s'"
  using assms
proof (rule execute_stake_InrD)
  fix config st0 st st' s2 and payment :: coin and issued minted :: uint128 and batch :: current_batch
  assume run: "s_config s = Some config" "s_state s = Some st0" "query_actual_state d e s st0 = Inr st"
    and rate: "\<exists>total_supply total. unat total_supply = unat issued + unat minted
       \<and> unat total = unat (total_staked_amount st) + unat (coin_amount payment)
       \<and> update_lst_exchange_rate d (st\<lparr>total_staked_amount := total\<rparr>) total_supply
           (requested_lst_token_amount batch) = Inr st'"
    and pend: "update_pending_delegation_amount e (Some (coin_amount payment)) None
       (s\<lparr>s_state := Some st\<rparr>) = Inr s2"
    and s': "s' = s2\<lparr>s_state := Some st'\<rparr>"
  obtain total rate' where st: "st = st0\<lparr>total_staked_amount := total, lst_exchange_rate := rate'\<rparr>"
    using run(3) by (rule query_actual_state_frame)
  obtain pd' where s2: "s2 = s\<lparr>s_state := Some st, s_pending_delegation := Some pd'\<rparr>"
    using update_pending_has_record [OF pend] by auto
  show ?thesis
    by (rule keeps_frame [OF _ _ _ run(2), of _ st'])
      (use run(1) rate s' s2 in \<open>auto simp: st dest!: update_lst_exchange_rate_InrD\<close>)
qed

lemma slashing_keeps:
  assumes "execute_slashing d e s = Inr (r, s')"
  shows "keeps s s'"
  using assms
proof (rule execute_slashing_InrD)
  fix st st' assume run: "s_state s = Some st" "query_actual_state d e s st = Inr st'"
    "s' = s\<lparr>s_state := Some st'\<rparr>"
  obtain total rate where "st' = st\<lparr>total_staked_amount := total, lst_exchange_rate := rate\<rparr>"
    using run(2) by (rule query_actual_state_frame)
  with run show ?thesis
    unfolding keeps_def hub_inv_def solvent_def
    by auto
qed

lemma update_params_keeps:
  assumes "execute_update_params info pause el up s = Inr (r, s')"
  shows "keeps s s'"
  using assms
proof (rule execute_update_params_InrD)
  fix p assume run: "s_parameters s = Some p" "validate_periods p el up = Inr ()"
    and s': "s' = s\<lparr>s_parameters := Some (p\<lparr>paused := unwrap_or pause (paused p),
       epoch_length := unwrap_or el (epoch_length p),
       unstaking_period := unwrap_or up (unstaking_period p)\<rparr>)\<rparr>"
  have "params_ok p \<Longrightarrow> params_ok (p\<lparr>paused := unwrap_or pause (paused p),
       epoch_length := unwrap_or el (epoch_length p),
       unstaking_period := unwrap_or up (unstaking_period p)\<rparr>)"
    using validate_periods_Inr run(2) by blast
  with run(1) show ?thesis
    unfolding keeps_def hub_inv_def solvent_def s'
    by auto
qed

lemma update_config_keeps:
  assumes "execute_update_config d info no token reg disp s = Inr (r, s')"
  shows "keeps s s'"
  using assms
proof (rule execute_update_config_InrD)
  fix c c' assume "s_config s = Some c" and s': "s' = s\<lparr>s_config := Some c'\<rparr>"
  then show ?thesis
    unfolding keeps_def hub_inv_def solvent_def s'
    by auto
qed

lemma global_index_keeps:
  assumes "execute_update_global_index d e s = Inr (r, s')"
  shows "keeps s s'"
proof -
  from assms obtain st where "s_state s = Some st"
    and s': "s' = s\<lparr>s_state := Some (st\<lparr>last_index_modification := block_time e\<rparr>)\<rparr>"
    by (auto simp: execute_update_global_index_def outcome_simps)
  then show ?thesis
    unfolding keeps_def hub_inv_def solvent_def s'
    by auto
qed

text \<open>The batch check, from a queue whose open batch is the one in the caller's hands.\<close>

lemma epoch_completion_keeps:
  assumes run: "check_for_unstake_batch_epoch_completion d e batch s = Inr (msgs, evs, batch', s')"
    and "s_parameters s = Some p" "params_ok p" "s_config s \<noteq> None" "s_pending_delegation s \<noteq> None"
    and st: "s_state s = Some st" and inv: "queue_inv s batch (last_processed_batch st)"
  shows "hub_inv s' \<and> (claims s \<le> unat (unclaimed_unstaked_balance st) \<longrightarrow> solvent s')"
  using run
proof (cases rule: epoch_completion_cases)
  case (waiting params st0 st1)
  obtain total rate where st1: "st1 = st\<lparr>total_staked_amount := total, lst_exchange_rate := rate\<rparr>"
    using waiting(2,3) st by (auto elim!: query_actual_state_frame)
  have same: "queue_inv s' batch lp = queue_inv s batch lp" "claims s' = claims s" for lp
    by (simp_all add: waiting)
  show ?thesis
    using assms(2-5) inv same st1 unfolding hub_inv_def solvent_def
    by (auto simp: waiting(8))
next
  case (closed params st0 st1 st2 s2)
  obtain total rate where st1: "st1 = st\<lparr>total_staked_amount := total, lst_exchange_rate := rate\<rparr>"
    using closed(2,3) st by (auto elim!: query_actual_state_frame)
  obtain total' next_id pd' where out:
    "st2 = st1\<lparr>total_staked_amount := total', last_unbonded_time := block_time e\<rparr>"
    "unat next_id = unat (cb_id batch) + 1"
    "batch' = batch\<lparr>cb_id := next_id, requested_lst_token_amount := 0\<rparr>"
    "s2 = s\<lparr>s_state := Some st1, s_pending_delegation := Some pd',
       s_unstake_history := save (cb_id batch)
         \<lparr>uh_batch_id = cb_id batch, uh_time = block_time e,
          lst_token_amount = requested_lst_token_amount batch,
          lst_applied_exchange_rate = lst_exchange_rate st1,
          lst_withdraw_rate = lst_exchange_rate st1, released = False\<rparr> (s_unstake_history s)\<rparr>"
    using closed(6) by (rule process_undelegations_for_batch_InrD) simp
  let ?h = "\<lparr>uh_batch_id = cb_id batch, uh_time = block_time e,
    lst_token_amount = requested_lst_token_amount batch,
    lst_applied_exchange_rate = lst_exchange_rate st1,
    lst_withdraw_rate = lst_exchange_rate st1, released = False\<rparr>"
  have hist: "s_unstake_history s' = save (cb_id batch) ?h (s_unstake_history s)"
    and wait: "s_unstake_wait_list s' = s_unstake_wait_list s"
    by (simp_all add: closed(7) out)
  have "queue_inv s' batch' (last_processed_batch st) \<and> claims s' = claims s"
    using queue_inv_close [OF inv hist wait, of batch'] out(2,3) by simp
  then show ?thesis
    using assms(2-5) st1 unfolding hub_inv_def solvent_def
    by (auto simp: closed(7) out)
qed

lemma unstake_keeps:
  assumes "execute_unstake d e amount sender flow s = Inr (r, s')"
  shows "keeps s s'"
  unfolding keeps_def
proof (intro impI)
  assume "hub_inv s"
  then obtain p c cb st pd where items: "s_parameters s = Some p" "params_ok p" "s_config s = Some c"
    "s_current_batch s = Some cb" "s_state s = Some st" "s_pending_delegation s = Some pd"
    and inv: "queue_inv s cb (last_processed_batch st)"
    by (rule hub_invE)
  from assms obtain cb1 s1 msgs evs cb2 where
    request: "update_unstake_batch_wait_list d cb sender amount s = Inr (cb1, s1)"
    and check: "check_for_unstake_batch_epoch_completion d e cb1 s1 = Inr (msgs, evs, cb2, s')"
    using items(4) by (auto elim!: execute_unstake_InrD)
  from request obtain a requested v where
    cb1: "cb1 = cb\<lparr>requested_lst_token_amount := requested\<rparr>"
      "unat requested = unat (requested_lst_token_amount cb) + unat amount"
    and s1: "s1 = s\<lparr>s_unstake_wait_list := save (a, cb_id cb) v (s_unstake_wait_list s)\<rparr>"
    and v: "unat v = waiting s a (cb_id cb) + unat amount"
    by (rule update_unstake_batch_wait_list_InrD) blast
  have id: "1 \<le> unat (cb_id cb)"
    using inv unfolding queue_inv_def by linarith
  note requested = queue_inv_request [OF inv id s1 v cb1(2)]
  from epoch_completion_keeps [OF check, of p st] items s1 requested cb1(1)
  show "hub_inv s' \<and> (solvent s \<longrightarrow> solvent s')"
    by (auto simp: solvent_def)
qed

lemma process_undelegations_keeps:
  assumes "execute_process_undelegations d e s = Inr (r, s')"
  shows "keeps s s'"
  unfolding keeps_def
proof (intro impI)
  assume "hub_inv s"
  then obtain p c cb st pd where items: "s_parameters s = Some p" "params_ok p" "s_config s = Some c"
    "s_current_batch s = Some cb" "s_state s = Some st" "s_pending_delegation s = Some pd"
    and inv: "queue_inv s cb (last_processed_batch st)"
    by (rule hub_invE)
  from assms items(4) consider "s' = s" | msgs evs cb2 where
    "check_for_unstake_batch_epoch_completion d e cb s = Inr (msgs, evs, cb2, s')"
    by (auto simp: execute_process_undelegations_def outcome_simps split: if_splits)
  then show "hub_inv s' \<and> (solvent s \<longrightarrow> solvent s')"
  proof cases
    case 1
    with \<open>hub_inv s\<close> show ?thesis by simp
  next
    case 2
    from epoch_completion_keeps [OF this, of p st] items inv show ?thesis
      by (auto simp: solvent_def)
  qed
qed

text \<open>Releases and withdrawals.\<close>

lemma release_loop_sorted:
  assumes "for_each release_batch run (st, s) = (Inr (st', s') :: _ lst_result)"
    and "sorted_keys (s_unstake_history s)"
  shows "sorted_keys (s_unstake_history s')"
  using assms
proof (induction run arbitrary: st s)
  case (Cons bh run)
  obtain b h where bh: "bh = (b, h)" by force
  from Cons.prems(1) have "for_each release_batch run (st\<lparr>last_processed_batch := b\<rparr>,
      s\<lparr>s_unstake_history := save b (h\<lparr>released := True\<rparr>) (s_unstake_history s)\<rparr>)
      = (Inr (st', s') :: _ lst_result)"
    by (simp add: bh release_batch_def)
  from Cons.IH [OF this] Cons.prems(2) show ?case by (simp add: sorted_keys_save)
qed simp

lemma withdraw_rate_queue:
  assumes rate: "process_withdraw_rate d cutoff free s = Inr (evs, left, s1)"
    and st: "s_state s = Some st" and inv: "queue_inv s cb (last_processed_batch st)"
  obtains st1 grown where "s_state s1 = Some st1" "queue_inv s1 cb (last_processed_batch st1)"
    "claims s1 \<le> claims s + grown"
    "unat free = unat (unclaimed_unstaked_balance st) + grown + unat left"
    "s1\<lparr>s_state := s_state s, s_unstake_history := s_unstake_history s\<rparr> = s"
proof -
  obtain run st1 where run: "releasable_run s cutoff (unat (last_processed_batch st) + 1) run"
    and free: "unat free = unat (unclaimed_unstaked_balance st) + (\<Sum>(b, h) \<leftarrow> run. owed h) + unat left"
    and st1: "s_state s1 = Some st1"
      "st1 = st\<lparr>last_processed_batch := (if run = [] then last_processed_batch st else fst (last run))\<rparr>"
    and hist: "\<And>b. may_load (s_unstake_history s1) b =
       (if b \<in> fst ` set run then map_option (\<lambda>h. h\<lparr>released := True\<rparr>) (may_load (s_unstake_history s) b)
        else may_load (s_unstake_history s) b)"
    and frame: "s1\<lparr>s_state := s_state s, s_unstake_history := s_unstake_history s\<rparr> = s"
    by (rule process_withdraw_rate_effect [OF rate st], rule that)
  have "sorted_keys (s_unstake_history s1)"
    using rate
  proof (rule process_withdraw_rate_InrD)
    fix st0 hs st' assume "for_each release_batch hs (st0, s)
      = (Inr (st', s1\<lparr>s_state := Some st0\<rparr>) :: _ lst_result)"
    from release_loop_sorted [OF this] inv show ?thesis by (simp add: queue_inv_def)
  qed
  moreover have "s_unstake_wait_list s1 = s_unstake_wait_list s"
    using arg_cong [OF frame, of s_unstake_wait_list] by simp
  ultimately have "queue_inv s1 cb (last_processed_batch st1)"
    "claims s1 \<le> claims s + (\<Sum>(b, h) \<leftarrow> run. owed h)"
    using queue_inv_release [OF inv run hist] st1(2) by simp_all
  with st1(1) free frame show ?thesis by (intro that) auto
qed

lemma frame_items:
  assumes "s1\<lparr>s_state := x, s_unstake_history := y\<rparr> = s"
  shows "s_parameters s1 = s_parameters s" "s_config s1 = s_config s"
    "s_current_batch s1 = s_current_batch s" "s_pending_delegation s1 = s_pending_delegation s"
  using assms by auto

lemma process_withdraw_requests_keeps:
  assumes "execute_process_withdraw_requests d e s = Inr (r, s')"
  shows "keeps s s'"
  unfolding keeps_def
proof (intro impI)
  assume "hub_inv s"
  then obtain p c cb st pd where items: "s_parameters s = Some p" "params_ok p" "s_config s = Some c"
    "s_current_batch s = Some cb" "s_state s = Some st" "s_pending_delegation s = Some pd"
    and inv: "queue_inv s cb (last_processed_batch st)"
    by (rule hub_invE)
  from assms obtain evs s1 st1 free cutoff left unclaimed where
    rate: "process_withdraw_rate d cutoff free s = Inr (evs, left, s1)"
    and sum: "unat free = unat left + unat unclaimed" "s_state s1 = Some st1"
    and s': "s' = s1\<lparr>s_state := Some (st1\<lparr>unclaimed_unstaked_balance := unclaimed\<rparr>)\<rparr>"
    by (rule execute_process_withdraw_requests_InrD)
  obtain grown where q: "queue_inv s1 cb (last_processed_batch st1)" "claims s1 \<le> claims s + grown"
    "unat free = unat (unclaimed_unstaked_balance st) + grown + unat left"
    and frame: "s1\<lparr>s_state := s_state s, s_unstake_history := s_unstake_history s\<rparr> = s"
    using withdraw_rate_queue [OF rate items(5) inv] sum(2) by (metis option.inject)
  show "hub_inv s' \<and> (solvent s \<longrightarrow> solvent s')"
    using items q sum frame_items [OF frame] by (auto simp: hub_inv_def solvent_def s')
qed

lemma withdraw_keeps:
  assumes run: "execute_withdraw_unstaked_impl d e info ids s = Inr (r, s')" and "hub_inv s"
  shows "hub_inv s' \<and> (solvent s \<and> distinct (chosen_batches s (info_sender info) ids) \<longrightarrow> solvent s')"
proof -
  from assms(2) obtain p c cb st pd where items: "s_parameters s = Some p" "params_ok p" "s_config s = Some c"
    "s_current_batch s = Some cb" "s_state s = Some st" "s_pending_delegation s = Some pd"
    and inv: "queue_inv s cb (last_processed_batch st)"
    by (rule hub_invE)
  let ?a = "info_sender info"
  let ?B = "chosen_batches s ?a ids"
  have sorted: "sorted_keys (s_unstake_wait_list s)"
    using inv by (simp add: queue_inv_def)
  from run sorted obtain evs s1 wait st1 cutoff and free left paid unclaimed :: uint128 where
    rate: "process_withdraw_rate d cutoff free s = Inr (evs, left, s1)"
    and same: "s_unstake_wait_list s1 = s_unstake_wait_list s"
    and paid: "unat paid = (\<Sum>b \<leftarrow> ?B. user_claim s1 ?a b)"
    and sum: "unat free = unat paid + unat left + unat unclaimed" "s_state s1 = Some st1"
    and s': "s' = s1\<lparr>s_unstake_wait_list := wait,
       s_state := Some (st1\<lparr>unclaimed_unstaked_balance := unclaimed\<rparr>)\<rparr>"
    and wait: "sorted_keys wait" "may_load wait = (\<lambda>(a, b). if a = ?a \<and> b \<in> set ?B
         \<and> is_released s1 b then None else may_load (s_unstake_wait_list s) (a, b))"
    by (rule execute_withdraw_unstaked_impl_InrD) (rule that)
  obtain grown where q: "queue_inv s1 cb (last_processed_batch st1)" "claims s1 \<le> claims s + grown"
    "unat free = unat (unclaimed_unstaked_balance st) + grown + unat left"
    and frame: "s1\<lparr>s_state := s_state s, s_unstake_history := s_unstake_history s\<rparr> = s"
    using withdraw_rate_queue [OF rate items(5) inv] sum(2) by (metis option.inject)
  have s'_parts: "s_unstake_wait_list s' = wait" "s_unstake_history s' = s_unstake_history s1"
    by (simp_all add: s')
  note payout = queue_inv_payout [OF q(1) _ wait(1) s'_parts, of ?a "set ?B", unfolded same, OF wait(2)]
  have "claims s' + unat paid = claims s1" if "distinct ?B"
    using payout(2) that by (simp add: paid sum_list_distinct_conv_sum_set)
  moreover have "queue_inv s' cb (last_processed_batch st1)"
    by (rule payout(1))
  ultimately show ?thesis
    using items q sum frame_items [OF frame] by (auto simp: hub_inv_def solvent_def s')
qed

section \<open>The transition system\<close>

definition repeats_no_batch :: "hub_execute_msg \<Rightarrow> bool" where
  "repeats_no_batch msg = (case msg of WithdrawUnstakedForBatches ids \<Rightarrow> distinct ids | _ \<Rightarrow> True)"

inductive hub_initial :: "hub_storage \<Rightarrow> bool" where
  "hub_instantiate d e info msg empty_hub_storage = Inr (r, s) \<Longrightarrow> hub_initial s"

inductive hub_step :: "hub_storage \<Rightarrow> hub_storage \<Rightarrow> bool" where
  step_execute: "hub_execute d e info msg s = Inr (r, s') \<Longrightarrow> hub_step s s'"
| step_migrate: "hub_migrate d s = Inr (r, s') \<Longrightarrow> hub_step s s'"

inductive careful_step :: "hub_storage \<Rightarrow> hub_storage \<Rightarrow> bool" where
  careful_execute: "hub_execute d e info msg s = Inr (r, s') \<Longrightarrow> repeats_no_batch msg \<Longrightarrow> careful_step s s'"
| careful_migrate: "hub_migrate d s = Inr (r, s') \<Longrightarrow> careful_step s s'"

inductive_cases hub_stepE: "hub_step s s'"
inductive_cases careful_stepE: "careful_step s s'"

lemma migrate_keeps:
  assumes "hub_migrate d s = Inr (r, s')"
  shows "keeps s s'"
proof -
  from assms obtain ci where s': "s' = s\<lparr>s_contract_info := ci\<rparr>"
    by (auto simp: hub_migrate_def outcome_simps)
  have "queue_inv s' cb lp = queue_inv s cb lp" "claims s' = claims s" for cb lp
    by (simp_all add: s' queue_inv_def batch_total_def claims_def claim_def)
  then show ?thesis by (simp add: keeps_def hub_inv_def solvent_def s')
qed

lemma only_hook [simp]: "h = HookUnstake"
  by (cases h) simp

lemma hub_execute_cases:
  assumes "hub_execute d e info msg s = Inr (r, s')"
  obtains pause el up where "msg = UpdateParams pause el up"
      "execute_update_params info pause el up s = Inr (r, s')"
  | ids where "msg = WithdrawUnstakedForBatches ids"
      "execute_withdraw_unstaked_impl d e info (Some ids) s = Inr (r, s')"
  | "msg = WithdrawUnstaked" "execute_withdraw_unstaked_impl d e info None s = Inr (r, s')"
  | kind where "msg = Stake \<or> msg = StakeRewards" "execute_stake d e info kind s = Inr (r, s')"
  | amount sender flow where "execute_unstake d e amount sender flow s = Inr (r, s')"
      "(\<exists>m. msg = Receive m) \<or> msg = Unstake amount"
  | "msg = CheckSlashing" "execute_slashing d e s = Inr (r, s')"
  | no token reg disp where "msg = UpdateConfig no token reg disp"
      "execute_update_config d info no token reg disp s = Inr (r, s')"
  | src reds where "msg = RedelegateProxy src reds" "s' = s"
  | "msg = UpdateGlobalIndex" "execute_update_global_index d e s = Inr (r, s')"
  | "msg = ProcessUndelegations" "execute_process_undelegations d e s = Inr (r, s')"
  | "msg = ProcessWithdrawRequests" "execute_process_withdraw_requests d e s = Inr (r, s')"
  using assms
  by (cases msg) (auto simp: hub_execute_def outcome_simps receive_cw20_def
      execute_withdraw_unstaked_def execute_withdraw_unstaked_for_batches_def
      execute_redelegate_proxy_def Let_def split: cw20_hook_msg.splits if_splits)

lemma execute_keeps:
  assumes "hub_execute d e info msg s = Inr (r, s')" and "hub_inv s"
  shows "hub_inv s'" and "solvent s \<Longrightarrow> repeats_no_batch msg \<Longrightarrow> solvent s'"
proof -
  have "hub_inv s' \<and> (solvent s \<and> repeats_no_batch msg \<longrightarrow> solvent s')"
    using assms(1)
  proof (cases rule: hub_execute_cases)
    case (1 pause el up)
    then show ?thesis using update_params_keeps assms(2) by (auto simp: keeps_def)
  next
    case (2 ids)
    from withdraw_keeps [OF 2(2) assms(2)] show ?thesis
      by (auto simp: 2(1) repeats_no_batch_def chosen_batches_def)
  next
    case 3
    have "distinct (all_batches s (info_sender info))"
      using assms(2) by (auto simp: hub_inv_def queue_inv_def intro: distinct_all_batches)
    with withdraw_keeps [OF 3(2) assms(2)] show ?thesis
      by (auto simp: chosen_batches_def)
  next
    case (4 kind)
    then show ?thesis using stake_keeps assms(2) by (auto simp: keeps_def)
  next
    case (5 amount sender flow)
    from unstake_keeps [OF 5(1)] assms(2) show ?thesis by (auto simp: keeps_def)
  next
    case 6
    from slashing_keeps [OF 6(2)] assms(2) show ?thesis by (auto simp: keeps_def)
  next
    case (7 no token reg disp)
    from update_config_keeps [OF 7(2)] assms(2) show ?thesis by (auto simp: keeps_def)
  next
    case (8 src reds)
    with assms(2) show ?thesis by simp
  next
    case 9
    from global_index_keeps [OF 9(2)] assms(2) show ?thesis by (auto simp: keeps_def)
  next
    case 10
    from process_undelegations_keeps [OF 10(2)] assms(2) show ?thesis by (auto simp: keeps_def)
  next
    case 11
    from process_withdraw_requests_keeps [OF 11(2)] assms(2) show ?thesis by (auto simp: keeps_def)
  qed
  then show "hub_inv s'" "solvent s \<Longrightarrow> repeats_no_batch msg \<Longrightarrow> solvent s'"
    by blast+
qed

lemma initial_inv:
  assumes "hub_initial s"
  shows "hub_inv s \<and> solvent s"
  using assms
proof (cases rule: hub_initial.cases)
  case (1 d e info msg r)
  then show ?thesis
    unfolding hub_instantiate_def
    by (elim outcome_elims)
      (auto simp: hub_inv_def solvent_def params_ok_def queue_inv_def batch_total_def claims_def
        smap.weight_def empty_hub_storage_def word_le_nat_alt word_less_nat_alt not_less not_le)
qed

interpretation hub: invariant_of hub_initial hub_step hub_inv
proof
  show "hub_inv s" if "hub_initial s" for s
    using initial_inv [OF that] by simp
  show "hub_inv t" if "hub_inv s" "hub_step s t" for s t
    using that(2)
  proof cases
    case step_execute
    from execute_keeps(1) [OF this that(1)] show ?thesis .
  next
    case step_migrate
    from migrate_keeps [OF this] that(1) show ?thesis by (simp add: keeps_def)
  qed
qed

interpretation careful_hub: invariant_of hub_initial careful_step "\<lambda>s. hub_inv s \<and> solvent s"
proof
  show "hub_inv s \<and> solvent s" if "hub_initial s" for s
    using initial_inv [OF that] .
  show "hub_inv t \<and> solvent t" if "hub_inv s \<and> solvent s" "careful_step s t" for s t
    using that(2)
  proof cases
    case careful_execute
    from execute_keeps [OF careful_execute(1)] careful_execute(2) that(1) show ?thesis by blast
  next
    case careful_migrate
    from migrate_keeps [OF this] that(1) show ?thesis by (simp add: keeps_def)
  qed
qed

end
