(* ===== verification/Hub_Safety.thy ===== *)
theory Hub_Safety
  imports Hub_Invariant
begin

text \<open>
  What holds of the whole staking hub: the invariants of its reachable states, who may do what,
  that users are paid as long as the hub is solvent, and the two ways found to break it: repeated
  batch identifiers, and a staking epoch of length zero.
\<close>

section \<open>Enough funds means withdrawals succeed\<close>

lemma finish_loop_total:
  assumes "unat w + (\<Sum>(b, v) \<leftarrow> wl. claim s b v) < 2 ^ 128"
  shows "\<exists>w' dep'. for_each (finish_entry s) wl (w, dep) = Inr (w', dep')"
  using assms
proof (induction wl arbitrary: w dep)
  case (Cons bv wl)
  obtain b v where bv: "bv = (b, v)" by force
  have fits: "unat w + claim s b v < 2 ^ 128"
    using Cons.prems by (simp add: bv)
  obtain w1 dep1 where first: "finish_entry s (b, v) (w, dep) = Inr (w1, dep1)"
  proof (cases "may_load (s_unstake_history s) b")
    case None
    then show ?thesis using that by (simp add: finish_entry_def read_unstake_history_def)
  next
    case (Some h)
    show ?thesis
    proof (cases "released h")
      case False
      with Some show ?thesis using that by (simp add: finish_entry_def read_unstake_history_def)
    next
      case True
      with Some fits have "unat v * unat (atomics (lst_applied_exchange_rate h)) div 10 ^ 18 < 2 ^ 128"
        by (simp add: claim_def)
      then obtain amount where
        amount: "decimal_multiplication v (lst_applied_exchange_rate h) = (Inr amount :: uint128 lst_result)"
        "unat amount = claim s b v"
        using decimal_multiplication_fits Some True by (fastforce simp: claim_def)
      with fits have "uadd w amount = (Inr (w + amount) :: uint128 lst_result)"
        by (intro uadd_fits) simp
      with amount Some True show ?thesis
        using that by (simp add: finish_entry_def read_unstake_history_def)
    qed
  qed
  moreover have "unat w1 + (\<Sum>(b, v) \<leftarrow> wl. claim s b v) < 2 ^ 128"
    using finish_entry_Inr [OF first] Cons.prems by (simp add: bv)
  ultimately show ?case
    using Cons.IH [of w1 dep1] by (simp add: bv)
qed simp

lemma user_claims_le:
  assumes "sorted_keys (s_unstake_wait_list s)" "distinct ids"
  shows "(\<Sum>b \<leftarrow> ids. user_claim s a b) \<le> claims s"
proof -
  let ?m = "s_unstake_wait_list s" and ?f = "\<lambda>(_ :: addr, b) v. claim s b v"
  let ?K = "(\<lambda>b. (a, b)) ` set ids \<inter> dom (may_load ?m)"
  have "(\<Sum>b \<leftarrow> ids. user_claim s a b) = (\<Sum>b \<in> set ids. smap.at ?f ?m (a, b))"
    using assms(2) by (auto simp: sum_list_distinct_conv_sum_set user_claim_def smap.at_def
        split: option.splits intro!: sum.cong)
  also have "\<dots> = (\<Sum>k \<in> (\<lambda>b. (a, b)) ` set ids. smap.at ?f ?m k)"
    by (subst sum.reindex) (auto simp: inj_on_def)
  also have "\<dots> = (\<Sum>k \<in> ?K. smap.at ?f ?m k)"
    by (rule sum.mono_neutral_right) (auto simp: smap.at_def split: option.splits)
  also have "\<dots> \<le> (\<Sum>k \<in> dom (may_load ?m). smap.at ?f ?m k)"
    by (rule sum_mono2 [OF smap.finite_dom [OF assms(1)]]) auto
  finally show ?thesis by (simp add: claims_def smap.weight_at [OF assms(1)])
qed

lemma process_finished_total:
  assumes "sorted_keys (s_unstake_wait_list s)" "(\<Sum>b \<leftarrow> all_batches s a. user_claim s a b) < 2 ^ 128"
  obtains w dep where "get_finished_amount s a = Inr (w, dep)"
    "unat w = (\<Sum>b \<leftarrow> all_batches s a. user_claim s a b)"
proof -
  have "unat (0 :: uint128) + (\<Sum>(b, v) \<leftarrow> entries_for s a (all_batches s a). claim s b v) < 2 ^ 128"
    using assms(2) by (simp add: sum_entries_for)
  from finish_loop_total [OF this] obtain w dep where
    "get_finished_amount_for_batches s a (all_batches s a) = Inr (w, dep)"
    unfolding get_finished_amount_for_batches_def process_finished_amount_def entries_for_def Let_def
    by blast
  with get_finished_amount_for_batches_Inr(1) [OF this] get_finished_amount_all [OF assms(1)]
  show ?thesis by (intro that) simp_all
qed

text \<open>A solvent hub that can process its withdraw requests pays what it then owes.\<close>

lemma solvent_withdrawal:
  assumes "hub_inv s" and "solvent s"
    and "execute_process_withdraw_requests d e s = Inr (r, s')"
    and "a = info_sender info"
    and "due = (\<Sum>b \<leftarrow> all_batches s' a. user_claim s' a b)" and "0 < due"
  shows "\<exists>r' s'' denom paid. execute_withdraw_unstaked d e info s = Inr (r', s'')
    \<and> messages r' = [BankSend a [\<lparr>coin_denom = denom, coin_amount = paid\<rparr>]] \<and> unat paid = due"
proof -
  obtain cb st where st: "s_state s = Some st"
    and inv: "queue_inv s cb (last_processed_batch st)"
    using assms(1) by (auto elim: hub_invE)
  from assms(3) obtain params :: parameters and free left unclaimed :: uint128 and cutoff evs s1 st1 where
    cut: "free_balance_and_cutoff d e s = Inr (params, free, cutoff)"
    and rate: "process_withdraw_rate d cutoff free s = Inr (evs, left, s1)"
    and s': "s' = s1\<lparr>s_state := Some (st1\<lparr>unclaimed_unstaked_balance := unclaimed\<rparr>)\<rparr>"
    by (rule execute_process_withdraw_requests_InrD) (rule that)
  obtain st1' grown where s1: "s_state s1 = Some st1'" "queue_inv s1 cb (last_processed_batch st1')"
    "claims s1 \<le> claims s + grown"
    "unat free = unat (unclaimed_unstaked_balance st) + grown + unat left"
    using withdraw_rate_queue [OF rate st inv] by metis
  have sorted: "sorted_keys (s_unstake_wait_list s1)"
    using s1(2) by (simp add: queue_inv_def)
  have due: "due = (\<Sum>b \<leftarrow> all_batches s1 a. user_claim s1 a b)"
  proof -
    have "user_claim s' = user_claim s1"
      by (simp add: fun_eq_iff user_claim_def claim_def s' cong: option.case_cong)
    then show ?thesis by (simp add: assms(5) all_batches_def) (simp add: s')
  qed
  have covered: "due + unat left \<le> unat free"
  proof -
    have "claims s \<le> unat (unclaimed_unstaked_balance st)"
      using assms(2) st by (simp add: solvent_def)
    with user_claims_le [OF sorted distinct_all_batches [OF sorted], of a a] s1(3,4)
    show ?thesis by (simp only: due)
  qed
  moreover have "unat free < 2 ^ 128" using unat_less [of free] by simp
  ultimately have "(\<Sum>b \<leftarrow> all_batches s1 a. user_claim s1 a b) < 2 ^ 128"
    by (simp add: due)
  from process_finished_total [OF sorted this] obtain w dep where
    fin: "get_finished_amount s1 a = Inr (w, dep)" and w: "unat w = due"
    unfolding due by metis
  have "w \<noteq> 0" using w assms(6) by auto
  obtain m where rem: "remove_unstake_wait_list dep a s1 = Inr (s1\<lparr>s_unstake_wait_list := m\<rparr>)"
    using remove_unstake_wait_list_Inr by blast
  have "w \<le> free" using covered w by (simp add: word_le_nat_alt)
  moreover from this have "left \<le> free - w"
    using covered w by (simp add: word_le_nat_alt unat_sub_exact)
  ultimately show ?thesis
    using cut rate fin \<open>w \<noteq> 0\<close> rem s1(1) w
    by (auto simp: execute_withdraw_unstaked_def execute_withdraw_unstaked_impl_def assms(4)
        checked_sub_or_overflow_def checked_sub_fits save_unclaimed_balance_def load_state_def)
qed

lemma sum_set_le_sum_list: "(\<Sum>x \<in> set xs. f x) \<le> (\<Sum>x \<leftarrow> xs. f x)" for f :: "'a \<Rightarrow> nat"
proof (induction xs)
  case (Cons x xs)
  then show ?case by (cases "x \<in> set xs") (simp_all add: insert_absorb)
qed simp

section \<open>Who changes the settings\<close>

definition same_settings :: "hub_storage \<Rightarrow> hub_storage \<Rightarrow> bool" where
  "same_settings s s' \<longleftrightarrow> s_config s' = s_config s \<and> s_parameters s' = s_parameters s"

lemma same_settings_refl [simp]: "same_settings s s"
  by (simp add: same_settings_def)

lemma stake_settings: "execute_stake d e info kind s = Inr (r, s') \<Longrightarrow> same_settings s s'"
  by (erule execute_stake_InrD) (auto simp: same_settings_def elim!: update_pending_frame)

lemma epoch_completion_settings:
  "check_for_unstake_batch_epoch_completion d e batch s = Inr (msgs, evs, batch', s')
   \<Longrightarrow> same_settings s s'"
  by (erule epoch_completion_cases)
    (auto simp: same_settings_def elim!: process_undelegations_for_batch_InrD)

lemma unstake_settings:
  assumes "execute_unstake d e amount sender flow s = Inr (r, s')"
  shows "same_settings s s'"
  using assms
proof (rule execute_unstake_InrD)
  fix batch batch1 s1 msgs evs batch2
  assume request: "update_unstake_batch_wait_list d batch sender amount s = Inr (batch1, s1)"
    and check: "check_for_unstake_batch_epoch_completion d e batch1 s1 = Inr (msgs, evs, batch2, s')"
  from request have "same_settings s s1"
    by (rule update_unstake_batch_wait_list_InrD) (simp add: same_settings_def)
  with epoch_completion_settings [OF check] show ?thesis
    by (simp add: same_settings_def)
qed

lemma process_undelegations_settings:
  "execute_process_undelegations d e s = Inr (r, s') \<Longrightarrow> same_settings s s'"
  by (auto simp: execute_process_undelegations_def outcome_simps
      dest: epoch_completion_settings split: if_splits)

lemma withdraw_rate_settings:
  "process_withdraw_rate d cutoff balance s = Inr (evs, left, s') \<Longrightarrow> same_settings s s'"
  by (erule process_withdraw_rate_frame) (simp add: same_settings_def)

lemma process_withdraw_requests_settings:
  "execute_process_withdraw_requests d e s = Inr (r, s') \<Longrightarrow> same_settings s s'"
  by (erule execute_process_withdraw_requests_InrD)
    (drule withdraw_rate_settings, simp add: same_settings_def)

lemma withdraw_settings:
  assumes "execute_withdraw_unstaked_impl d e info ids s = Inr (r, s')"
  shows "same_settings s s'"
  using assms unfolding execute_withdraw_unstaked_impl_def
proof (elim outcome_elims, goal_cases)
  case (1 _ params _ free cutoff _ evs _ left s1 _ paid dep s2 after unclaimed s3)
  have rate: "process_withdraw_rate d cutoff free s = Inr (evs, left, s1)"
    and rem: "remove_unstake_wait_list dep (info_sender info) s1 = Inr s2"
    and save: "save_unclaimed_balance unclaimed s2 = Inr s3" and "s' = s3"
    using 1 by simp_all
  have "same_settings s1 s2"
    using remove_unstake_wait_list_Inr [of dep "info_sender info" s1] rem
    by (auto simp: same_settings_def)
  with withdraw_rate_settings [OF rate] save \<open>s' = s3\<close> show ?case
    by (auto simp: same_settings_def save_unclaimed_balance_def outcome_simps)
qed

lemma global_index_settings:
  "execute_update_global_index d e s = Inr (r, s') \<Longrightarrow> same_settings s s'"
  by (auto simp: execute_update_global_index_def outcome_simps same_settings_def)

lemma slashing_settings: "execute_slashing d e s = Inr (r, s') \<Longrightarrow> same_settings s s'"
  by (erule execute_slashing_InrD) (simp add: same_settings_def)

lemmas settings = stake_settings unstake_settings process_undelegations_settings
  process_withdraw_requests_settings withdraw_settings global_index_settings slashing_settings

lemma execute_settings:
  assumes "hub_execute d e info msg s = Inr (r, s')"
  shows "same_settings s s' \<or> (\<exists>c. s_config s = Some c \<and> info_sender info = hc_owner c)"
  using assms
  by (cases rule: hub_execute_cases)
    (auto dest: settings elim: execute_update_params_InrD execute_update_config_InrD)

section \<open>Two users who share a batch\<close>

definition bob :: addr where "bob = ''bob''"

text \<open>Alice and Bob each wait for 50 tokens of the released batch 1, for which 100 coins are set
  aside; the hub holds exactly these. Afterwards it holds what Alice left.\<close>

definition shared_hub :: hub_storage where
  "shared_hub = sample_hub\<lparr>s_unstake_wait_list := [((alice, 1), 50), ((bob, 1), 50)],
     s_unstake_history := [(1, sample_history 1 100 True)],
     s_current_batch := Some \<lparr>cb_id = 2, requested_lst_token_amount = 0\<rparr>,
     s_state := Some (sample_state\<lparr>unclaimed_unstaked_balance := 100\<rparr>)\<rparr>"

definition holding :: "uint128 \<Rightarrow> deps" where
  "holding a = sample_deps\<lparr>query_balance := (\<lambda>_ _. Inr (bbn a))\<rparr>"

lemma shared_hub_inv: "hub_inv shared_hub" and shared_hub_solvent: "solvent shared_hub"
proof -
  have one: "b = 1" if "Suc 0 \<le> unat b" "unat b < 2" for b :: u64
    using that by (auto simp: word_unat_eq_iff)
  show "hub_inv shared_hub"
    by (auto simp: hub_inv_def queue_inv_def shared_hub_def sample_defs params_ok_def may_load_def
        MAX_EPOCH_LENGTH_def MAX_UNSTAKING_PERIOD_def batch_total_def smap.weight_def sorted_keys_def
        bob_def dest: one split: if_splits)
  show "solvent shared_hub"
    by (simp add: solvent_def shared_hub_def claims_def claim_def smap.weight_def sample_defs
        may_load_def decimal_one_def)
qed

section \<open>Properties\<close>

text \<open>
  C6: In every reachable state of the hub, whatever messages were executed in whatever blocks and
  whatever the outside world answered, all items are present, the periods are within their
  bounds, and the unstake queue is well formed: there is a history for exactly the closed batches
  \<open>1 .. current - 1\<close>, it is released exactly up to the last processed batch, wait-list entries
  belong to batches that exist, the entries of the open batch sum to what it requested, and
  those of a closed batch never exceed what it recorded.
\<close>

theorem hub_reachable_inv:
  assumes "reachable hub_initial hub_step s"
  shows "\<exists>p c cb st pd. s_parameters s = Some p \<and> params_ok p \<and> s_config s = Some c
    \<and> s_current_batch s = Some cb \<and> s_state s = Some st \<and> s_pending_delegation s = Some pd
    \<and> queue_inv s cb (last_processed_batch st)"
  using hub.inv_reachable [OF assms] by (simp add: hub_inv_def)

text \<open>
  C2: As long as no message \<open>WithdrawUnstakedForBatches\<close> repeats a batch, the unclaimed balance
  that the hub sets aside covers, in every reachable state, everything it owes to all users for
  released batches.
\<close>

theorem hub_reachable_solvent:
  assumes "reachable hub_initial careful_step s"
  shows "\<exists>st. s_state s = Some st \<and> claims s \<le> unat (unclaimed_unstaked_balance st)"
  using careful_hub.inv_reachable [OF assms] by (simp add: solvent_def)

text \<open>
  In a solvent, well-formed state nobody is locked out: whenever the withdraw requests can be
  processed, a withdrawal of a user to whom the released batches then owe something succeeds,
  and it sends the user exactly that.
\<close>

theorem solvent_withdrawal_succeeds:
  assumes "hub_inv s" and "solvent s"
    and "execute_process_withdraw_requests d e s = Inr (r, s')"
    and "a = info_sender info"
    and "due = (\<Sum>b \<leftarrow> all_batches s' a. user_claim s' a b)" and "0 < due"
  shows "\<exists>r' s'' denom paid. execute_withdraw_unstaked d e info s = Inr (r', s'')
    \<and> messages r' = [BankSend a [\<lparr>coin_denom = denom, coin_amount = paid\<rparr>]] \<and> unat paid = due"
  by (rule solvent_withdrawal [OF assms])

text \<open>
  C26: Access control of every message. The configuration and the parameters change only in a
  message of the owner; redelegations are sent only for the registry, cw20 hooks accepted only
  from the token, staked rewards only from the dispatcher; and while the hub is paused nothing
  but an update of the parameters succeeds.
\<close>

theorem hub_access_control:
  assumes "hub_execute d e info msg s = Inr (r, s')" and "s_config s = Some c"
  shows "(info_sender info = hc_owner c
       \<or> s_config s' = s_config s \<and> s_parameters s' = s_parameters s)
    \<and> (case msg of
         UpdateConfig _ _ _ _ \<Rightarrow> info_sender info = hc_owner c
       | UpdateParams _ _ _ \<Rightarrow> info_sender info = hc_owner c
       | RedelegateProxy _ _ \<Rightarrow> validators_registry_contract c = Some (info_sender info)
       | Receive _ \<Rightarrow> lst_token c = Some (info_sender info)
       | StakeRewards \<Rightarrow> reward_dispatcher_contract c = Some (info_sender info)
       | _ \<Rightarrow> True)
    \<and> (case msg of UpdateParams _ _ _ \<Rightarrow> True
       | _ \<Rightarrow> \<exists>p. s_parameters s = Some p \<and> \<not> paused p)"
proof -
  have "info_sender info = hc_owner c \<or> s_config s' = s_config s \<and> s_parameters s' = s_parameters s"
    using execute_settings [OF assms(1)] assms(2) by (auto simp: same_settings_def)
  moreover have "case msg of
         UpdateConfig _ _ _ _ \<Rightarrow> info_sender info = hc_owner c
       | UpdateParams _ _ _ \<Rightarrow> info_sender info = hc_owner c
       | RedelegateProxy _ _ \<Rightarrow> validators_registry_contract c = Some (info_sender info)
       | Receive _ \<Rightarrow> lst_token c = Some (info_sender info)
       | StakeRewards \<Rightarrow> reward_dispatcher_contract c = Some (info_sender info)
       | _ \<Rightarrow> True"
    using assms
    by (cases msg) (auto simp: hub_execute_def outcome_simps receive_cw20_def
        execute_redelegate_proxy_def elim!: execute_update_params_InrD execute_update_config_InrD
        execute_stake_InrD split: cw20_hook_msg.splits if_splits)
  moreover have "case msg of UpdateParams _ _ _ \<Rightarrow> True
      | _ \<Rightarrow> \<exists>p. s_parameters s = Some p \<and> \<not> paused p"
    using assms(1) by (cases msg) (auto simp: hub_execute_def outcome_simps split: if_splits)
  ultimately show ?thesis by blast
qed

text \<open>
  Instantiation accepts exactly the settings whose periods are in order: the epoch covers the
  chain's staking epoch at 20 seconds a block (a product of two 64-bit integers, which must not
  overflow), both periods are within their maxima, and the epoch is the shorter one. It then
  stores the sender as owner, rate one, nothing staked and an empty first batch.
\<close>

theorem hub_instantiate_accepts:
  assumes "set_contract_version d CONTRACT_NAME CONTRACT_VERSION (s_contract_info s) = Inr ci"
  shows "if unat (im_staking_epoch_length_blocks msg) * 20 \<le> unat (im_epoch_length msg)
      \<and> unat (im_epoch_length msg) < unat (im_unstaking_period msg)
      \<and> unat (im_epoch_length msg) \<le> 7 * 24 * 60 * 60
      \<and> unat (im_unstaking_period msg) \<le> 4 * 7 * 24 * 60 * 60
    then \<exists>r s' st. hub_instantiate d e info msg s = Inr (r, s')
      \<and> s_config s' = Some \<lparr>hc_owner = info_sender info, reward_dispatcher_contract = None,
          validators_registry_contract = None, lst_token = None\<rparr>
      \<and> s_current_batch s' = Some \<lparr>cb_id = 1, requested_lst_token_amount = 0\<rparr>
      \<and> s_state s' = Some st \<and> lst_exchange_rate st = decimal_one \<and> total_staked_amount st = 0
    else \<not> (\<exists>r s'. hub_instantiate d e info msg s = Inr (r, s'))"
proof (cases "unat (im_staking_epoch_length_blocks msg) * 20 < 2 ^ 64")
  case True
  have "umul (im_staking_epoch_length_blocks msg) AVERAGE_BLOCK_TIME
      = (Inr (im_staking_epoch_length_blocks msg * 20) :: u64 lst_result)"
    using True by (simp add: umul_def AVERAGE_BLOCK_TIME_def)
  moreover have "unat (im_staking_epoch_length_blocks msg * 20)
      = unat (im_staking_epoch_length_blocks msg) * 20"
    using True by (simp add: unat_mult_exact)
  ultimately show ?thesis
    using assms
    by (auto simp: hub_instantiate_def query_std_def from_err_def hub_err_def Let_def
        MAX_EPOCH_LENGTH_def MAX_UNSTAKING_PERIOD_def word_le_nat_alt word_less_nat_alt)
next
  case False
  then have "umul (im_staking_epoch_length_blocks msg) AVERAGE_BLOCK_TIME
      = (Inl (Panic ArithmeticOverflow) :: u64 lst_result)"
    by (simp add: umul_def AVERAGE_BLOCK_TIME_def)
  then have "\<not> (\<exists>r s'. hub_instantiate d e info msg s = Inr (r, s'))"
    using assms by (auto simp: hub_instantiate_def query_std_def from_err_def hub_err_def)
  moreover have "unat (im_epoch_length msg) < 2 ^ 64" using unat_less [of "im_epoch_length msg"] by simp
  ultimately show ?thesis using False by simp
qed

text \<open>
  C40: A staking epoch of zero blocks passes instantiation, and the hub it makes is dead: every
  stake, whoever sends it and whatever else was configured in the meantime, fails, because
  recording a pending amount divides by the length of the epoch.
\<close>

theorem zero_staking_epoch_blocks_stakes:
  assumes "hub_instantiate d e info msg s = Inr (r, s1)"
    and "im_staking_epoch_length_blocks msg = 0"
    and "s_pending_delegation s2 = s_pending_delegation s1"
  shows "\<exists>failure. execute_stake d' e' info' kind s2 = Inl failure"
proof -
  have "\<exists>pd. s_pending_delegation s1 = Some pd \<and> staking_epoch_length_blocks pd = 0"
    using assms(1,2) unfolding hub_instantiate_def by (elim outcome_elims) auto
  then obtain pd where pd: "s_pending_delegation s2 = Some pd" "staking_epoch_length_blocks pd = 0"
    using assms(3) by auto
  have fails: "update_pending_delegation_amount e' st un s3 \<noteq> Inr s4"
    if "s_pending_delegation s3 = Some pd" for st un s3 s4
    using that pd(2) by (auto simp: update_pending_delegation_amount_def outcome_simps udiv_Inr Let_def)
  have "execute_stake d' e' info' kind s2 \<noteq> Inr (r', s')" for r' s'
    using fails pd(1) by (auto elim!: execute_stake_InrD)
  then show ?thesis
    by (cases "execute_stake d' e' info' kind s2") auto
qed

text \<open>
  C13: What repeated batch identifiers cost. \<open>WithdrawUnstakedForBatches\<close> on a well-formed, solvent
  hub pays the value of the sender's released entries once per mention, while what is owed falls
  by each value once; so the hub stays solvent exactly when the excess paid for the repetitions
  is no more than the surplus of the unclaimed balance (after the releases) over everything owed.
  Without repetitions there is no excess; with a repetition and no surplus the hub is insolvent
  and the other users bear the loss.
\<close>

theorem repeated_claims_cost_others:
  assumes "hub_execute d e info (WithdrawUnstakedForBatches ids) s = Inr (r, s')"
    and "hub_inv s" and "solvent s" and "s_state s = Some st" and "s_parameters s = Some params"
  shows "\<exists>run paid st'. marks run (s_unstake_history s) (s_unstake_history s')
    \<and> messages r = [BankSend (info_sender info)
        [\<lparr>coin_denom = staking_coin_denom params, coin_amount = paid\<rparr>]]
    \<and> s_state s' = Some st' \<and> hub_inv s'
    \<and> (let released = s\<lparr>s_unstake_history := s_unstake_history s'\<rparr>;
           due = (\<Sum>b \<in> set ids. user_claim released (info_sender info) b);
           unclaimed = unat (unclaimed_unstaked_balance st) + (\<Sum>(b, h) \<leftarrow> run. owed h) in
         claims released \<le> unclaimed
       \<and> unat paid = (\<Sum>b \<leftarrow> ids. user_claim released (info_sender info) b) \<and> due \<le> unat paid
       \<and> (distinct ids \<longrightarrow> unat paid = due)
       \<and> claims s' + due = claims released
       \<and> unat (unclaimed_unstaked_balance st') + unat paid = unclaimed
       \<and> (solvent s' \<longleftrightarrow> unat paid - due \<le> unclaimed - claims released))"
proof -
  have "execute_withdraw_unstaked_impl d e info (Some ids) s = Inr (r, s')"
    using assms(1) by (auto simp: hub_execute_def execute_withdraw_unstaked_for_batches_def
        outcome_simps split: if_splits)
  note withdrawal = this
  obtain cb where cb: "s_current_batch s = Some cb" and inv: "queue_inv s cb (last_processed_batch st)"
    using assms(2,4) by (auto elim!: hub_invE)
  let ?a = "info_sender info"
  have sorted: "sorted_keys (s_unstake_wait_list s)"
    using inv by (simp add: queue_inv_def)
  from withdrawal sorted obtain params' evs s1 wait st1 cutoff and free left paid unclaimed :: uint128 where
    cut: "free_balance_and_cutoff d e s = Inr (params', free, cutoff)"
    and rate: "process_withdraw_rate d cutoff free s = Inr (evs, left, s1)"
    and same: "s_unstake_wait_list s1 = s_unstake_wait_list s"
    and paid: "unat paid = (\<Sum>b \<leftarrow> ids. user_claim s1 ?a b)"
    and sum: "unat free = unat paid + unat left + unat unclaimed" "s_state s1 = Some st1"
    and s': "s' = s1\<lparr>s_unstake_wait_list := wait,
       s_state := Some (st1\<lparr>unclaimed_unstaked_balance := unclaimed\<rparr>)\<rparr>"
    and wait: "sorted_keys wait" "may_load wait = (\<lambda>(a, b). if a = ?a \<and> b \<in> set ids
         \<and> is_released s1 b then None else may_load (s_unstake_wait_list s) (a, b))"
    and msgs: "messages r = [BankSend ?a
       [\<lparr>coin_denom = staking_coin_denom params', coin_amount = paid\<rparr>]]"
    by (rule execute_withdraw_unstaked_impl_InrD [of d e info "Some ids" s r s'])
      (auto simp: chosen_batches_def)
  obtain run where run:
    "unat free = unat (unclaimed_unstaked_balance st) + (\<Sum>(b, h) \<leftarrow> run. owed h) + unat left"
    "marks run (s_unstake_history s) (s_unstake_history s1)"
    using rate assms(4) by (elim process_withdraw_rate_effect) (auto simp: marks_def)
  obtain st2 grown where q: "s_state s1 = Some st2" "queue_inv s1 cb (last_processed_batch st2)"
    "claims s1 \<le> claims s + grown"
    "unat free = unat (unclaimed_unstaked_balance st) + grown + unat left"
    by (rule withdraw_rate_queue [OF rate assms(4) inv])
  have parts: "s_unstake_wait_list s' = wait" "s_unstake_history s' = s_unstake_history s1"
    by (simp_all add: s')
  let ?rel = "s\<lparr>s_unstake_history := s_unstake_history s'\<rparr>"
  have rel: "claims ?rel = claims s1" "user_claim ?rel a b = user_claim s1 a b" for a b
    by (simp_all add: claims_def user_claim_def claim_def same parts split: option.split)
  have payout: "claims s' + (\<Sum>b \<in> set ids. user_claim s1 ?a b) = claims s1"
    using queue_inv_payout(2) [OF q(2) _ wait(1) parts, of ?a "set ids", unfolded same, OF wait(2)] by simp
  have due: "(\<Sum>b \<in> set ids. user_claim s1 ?a b) \<le> (\<Sum>b \<leftarrow> ids. user_claim s1 ?a b)"
    by (rule sum_set_le_sum_list)
  have enough: "claims s1 \<le> unat (unclaimed_unstaked_balance st) + (\<Sum>(b, h) \<leftarrow> run. owed h)"
    using assms(3,4) q(3,4) run(1) by (simp add: solvent_def)
  have st': "s_state s' = Some (st1\<lparr>unclaimed_unstaked_balance := unclaimed\<rparr>)"
    by (simp add: s')
  have "hub_inv s'" by (rule execute_keeps(1) [OF assms(1,2)])
  moreover have "params' = params"
    using free_balance_and_cutoff_InrD(1) [OF cut] assms(5) by simp
  moreover have "solvent s' \<longleftrightarrow> claims s' \<le> unat unclaimed"
    by (simp add: solvent_def st')
  moreover have "distinct ids \<Longrightarrow> (\<Sum>b \<in> set ids. user_claim s1 ?a b) = unat paid"
    by (simp add: paid sum_list_distinct_conv_sum_set)
  ultimately show ?thesis
    unfolding Let_def rel
    by (intro exI [of _ run] exI [of _ paid] exI [of _ "st1\<lparr>unclaimed_unstaked_balance := unclaimed\<rparr>"] conjI)
      (use run sum payout due enough st' msgs paid parts in auto)
qed

section \<open>Witnesses\<close>

text \<open>Alice names batch 1 twice: she is sent all 100 coins, of which 50 were Bob's, and Bob's
  withdrawal then fails with an overflow.\<close>

lemma repeated_claims_cost_others_witness:
  "\<exists>r s'. hub_execute (holding 100) now (by_user alice []) (WithdrawUnstakedForBatches [1, 1]) shared_hub
      = Inr (r, s')
    \<and> messages r = [BankSend alice [bbn 100]]
    \<and> hub_inv shared_hub \<and> solvent shared_hub \<and> hub_inv s' \<and> \<not> solvent s'
    \<and> hub_execute (holding 0) now (by_user bob []) WithdrawUnstaked s'
        = Inl (Err (Overflow OverflowSub))"
proof -
  obtain r s' where run: "hub_execute (holding 100) now (by_user alice [])
      (WithdrawUnstakedForBatches [1, 1]) shared_hub = Inr (r, s')"
    and out: "messages r = [BankSend alice [bbn 100]]"
      "s_unstake_history s' = s_unstake_history shared_hub"
      "hub_execute (holding 0) now (by_user bob []) WithdrawUnstaked s'
        = Inl (Err (Overflow OverflowSub))"
      "s_state s' = Some (sample_state\<lparr>unclaimed_unstaked_balance := 0\<rparr>)"
    by (simp add: hub_execute_def withdraw_eval stake_eval slashing_eval storage_eval sample_defs
        shared_hub_def holding_def bob_def eval_simps cong: eval_cong)
  have alice: "info_sender (by_user alice []) = alice" by (simp add: by_user_def)
  have hub: "s_state shared_hub = Some (sample_state\<lparr>unclaimed_unstaked_balance := 100\<rparr>)"
    "s_parameters shared_hub = Some sample_params"
    "user_claim shared_hub alice 1 = 50" "claims shared_hub = 100"
    by (simp_all add: shared_hub_def sample_defs user_claim_def claim_def claims_def smap.weight_def
        may_load_def decimal_one_def bob_def)
  have same: "shared_hub\<lparr>s_unstake_history := s_unstake_history s'\<rparr> = shared_hub"
    by (simp add: out(2))
  from repeated_claims_cost_others [OF run shared_hub_inv shared_hub_solvent hub(1,2), unfolded same alice]
  have "hub_inv s' \<and> \<not> solvent s'"
    using out(1,4) hub(3,4) by (auto simp: Let_def bbn_def simp del: sum_list_eq_0_iff)
  with run out(1,3) shared_hub_inv shared_hub_solvent show ?thesis by blast
qed

definition sample_instantiate :: "u64 \<Rightarrow> hub_instantiate_msg" where
  "sample_instantiate blocks = \<lparr>im_epoch_length = 1000, im_staking_coin_denom = ''ubbn'',
     im_unstaking_period = 2000, im_staking_epoch_start_block_height = 100,
     im_staking_epoch_length_blocks = blocks\<rparr>"

lemmas instantiate_eval = hub_instantiate_def sample_instantiate_def MAX_EPOCH_LENGTH_def
  MAX_UNSTAKING_PERIOD_def AVERAGE_BLOCK_TIME_def

lemma instantiate_runs:
  obtains r s r' s' where "hub_instantiate sample_deps now (by_user sample_owner [])
      (sample_instantiate 10) empty_hub_storage = Inr (r, s)"
    "hub_execute sample_deps now (by_user sample_owner [])
       (UpdateConfig None (Some sample_token) (Some sample_registry) (Some sample_dispatcher)) s
     = Inr (r', s')"
    "s_config s' = Some sample_config"
  by (simp add: hub_execute_def execute_update_config_def is_authorized_sender_def
      to_checked_address_def instantiate_eval storage_eval sample_defs eval_simps)

lemma hub_reachable_inv_witness:
  "\<exists>s p cb st pd. reachable hub_initial hub_step s
    \<and> s_parameters s = Some p \<and> params_ok p \<and> s_config s = Some sample_config
    \<and> s_current_batch s = Some cb \<and> s_state s = Some st \<and> s_pending_delegation s = Some pd
    \<and> queue_inv s cb (last_processed_batch st)"
proof -
  obtain s where "reachable hub_initial hub_step s" "s_config s = Some sample_config"
    by (rule instantiate_runs) (blast intro: reachable.intros hub_initial.intros step_execute)
  with hub_reachable_inv [OF this(1)] show ?thesis by auto
qed

lemma hub_reachable_solvent_witness:
  "\<exists>s st. reachable hub_initial careful_step s \<and> s_config s = Some sample_config
    \<and> s_state s = Some st \<and> claims s \<le> unat (unclaimed_unstaked_balance st)"
proof -
  have "repeats_no_batch (UpdateConfig a b c d)" for a b c d
    by (simp add: repeats_no_batch_def)
  then obtain s where "reachable hub_initial careful_step s" "s_config s = Some sample_config"
    by (rule_tac instantiate_runs) (blast intro: reachable.intros hub_initial.intros careful_execute)
  with hub_reachable_solvent [OF this(1)] show ?thesis by blast
qed

lemma solvent_withdrawal_succeeds_witness:
  "\<exists>r' s'' denom paid. execute_withdraw_unstaked (holding 100) now (by_user bob []) shared_hub
      = Inr (r', s'')
    \<and> messages r' = [BankSend bob [\<lparr>coin_denom = denom, coin_amount = paid\<rparr>]] \<and> unat paid = 50"
proof -
  obtain r s' where run: "execute_process_withdraw_requests (holding 100) now shared_hub = Inr (r, s')"
    and due: "50 = (\<Sum>b \<leftarrow> all_batches s' bob. user_claim s' bob b)"
    by (simp add: withdraw_eval stake_eval slashing_eval storage_eval sample_defs shared_hub_def
        holding_def bob_def eval_simps all_batches_def user_claim_def claim_def
        cong: eval_cong)
  have bob: "bob = info_sender (by_user bob [])" by (simp add: by_user_def)
  from solvent_withdrawal_succeeds [OF shared_hub_inv shared_hub_solvent run bob due]
  show ?thesis by simp
qed

lemma hub_access_control_witness:
  "\<exists>r s'. hub_execute (holding 100) now (by_user bob []) WithdrawUnstaked shared_hub = Inr (r, s')
    \<and> s_config s' = s_config shared_hub"
proof -
  obtain r s' where run: "hub_execute (holding 100) now (by_user bob []) WithdrawUnstaked shared_hub
      = Inr (r, s')"
    by (simp add: hub_execute_def withdraw_eval stake_eval slashing_eval storage_eval sample_defs
        shared_hub_def holding_def bob_def eval_simps cong: eval_cong)
  have "s_config shared_hub = Some sample_config" by (simp add: shared_hub_def)
  from hub_access_control [OF run this] run show ?thesis
    by (auto simp: by_user_def bob_def sample_config_def sample_owner_def)
qed

lemma hub_instantiate_accepts_witness:
  "(\<exists>r s st. hub_instantiate sample_deps now (by_user alice []) (sample_instantiate 10)
      empty_hub_storage = Inr (r, s)
    \<and> s_current_batch s = Some \<lparr>cb_id = 1, requested_lst_token_amount = 0\<rparr>
    \<and> s_state s = Some st \<and> total_staked_amount st = 0)
   \<and> \<not> (\<exists>r s. hub_instantiate sample_deps now (by_user alice []) (sample_instantiate 51)
      empty_hub_storage = Inr (r, s))"
proof -
  have version: "set_contract_version sample_deps CONTRACT_NAME CONTRACT_VERSION
      (s_contract_info empty_hub_storage) = Inr (Some (CONTRACT_NAME, CONTRACT_VERSION))"
    by (simp add: sample_deps_def)
  note accepts = hub_instantiate_accepts [OF version, of "sample_instantiate n" now "by_user alice []" for n]
  from accepts [of 10] accepts [of 51] show ?thesis
    by (auto simp: sample_instantiate_def)
qed

lemma zero_staking_epoch_blocks_stakes_witness:
  "\<exists>r s failure. hub_instantiate sample_deps now (by_user sample_owner []) (sample_instantiate 0)
      empty_hub_storage = Inr (r, s)
    \<and> execute_stake sample_deps now (by_user alice [bbn 100]) LSTMint
        (sample_hub\<lparr>s_pending_delegation := s_pending_delegation s\<rparr>) = Inl failure"
proof -
  obtain r s where run: "hub_instantiate sample_deps now (by_user sample_owner [])
      (sample_instantiate 0) empty_hub_storage = Inr (r, s)"
    by (simp add: instantiate_eval storage_eval sample_defs eval_simps)
  have "im_staking_epoch_length_blocks (sample_instantiate 0) = 0"
    by (simp add: sample_instantiate_def)
  from zero_staking_epoch_blocks_stakes [OF run this, of "sample_hub\<lparr>s_pending_delegation :=
      s_pending_delegation s\<rparr>"] run
  show ?thesis by auto
qed

text \<open>A hub as instantiated and configured, and after a stake of 90 coins.\<close>

definition fresh_state :: hub_state where
  "fresh_state = \<lparr>lst_exchange_rate = decimal_one, total_staked_amount = 0,
     last_index_modification = 1000000, unclaimed_unstaked_balance = 0,
     last_unbonded_time = 1000000, last_processed_batch = 0\<rparr>"

definition fresh_hub :: hub_storage where
  "fresh_hub = \<lparr>s_config = Some sample_config, s_parameters = Some sample_params,
     s_current_batch = Some \<lparr>cb_id = 1, requested_lst_token_amount = 0\<rparr>, s_state = Some fresh_state,
     s_unstake_wait_list = [], s_unstake_history = [],
     s_pending_delegation = Some \<lparr>staking_epoch_length_blocks = 10,
       staking_epoch_start_block_height = 100, pending_staking_amount = 0,
       pending_unstaking_amount = 0\<rparr>,
     s_contract_info = Some (CONTRACT_NAME, CONTRACT_VERSION)\<rparr>"

lemma fresh_hub_runs:
  "\<exists>h0 r r'. hub_instantiate sample_deps now (by_user sample_owner []) (sample_instantiate 10)
      empty_hub_storage = Inr (r, h0)
    \<and> hub_execute sample_deps now (by_user sample_owner []) (UpdateConfig None (Some sample_token)
        (Some sample_registry) (Some sample_dispatcher)) h0 = Inr (r', fresh_hub)"
  by (simp add: hub_execute_def execute_update_config_def is_authorized_sender_def fresh_hub_def
      to_checked_address_def instantiate_eval storage_eval sample_defs eval_simps fresh_state_def
      empty_hub_storage_def)

definition staked_hub :: hub_storage where
  "staked_hub = fresh_hub\<lparr>s_state := Some (fresh_state\<lparr>total_staked_amount := 90\<rparr>),
       s_pending_delegation := Some \<lparr>staking_epoch_length_blocks = 10,
         staking_epoch_start_block_height = 110, pending_staking_amount = 90,
         pending_unstaking_amount = 0\<rparr>\<rparr>"

end
