(* ===== verification/Hub_Messages.thy ===== *)
theory Hub_Messages
  imports Hub_Safety
begin

text \<open>
  What the hub tells the token: which of its messages mint or burn, and how much.
\<close>

section \<open>What the hub tells the token\<close>

fun to_token :: "cosmos_msg list \<Rightarrow> (addr \<times> cw20_execute_msg) list" where
  "to_token [] = []"
| "to_token (WasmExecute t (Cw20Payload p) _ # ms) = (t, p) # to_token ms"
| "to_token (_ # ms) = to_token ms"

lemma to_token_append [simp]: "to_token (ms @ ms') = to_token ms @ to_token ms'"
  by (induction ms rule: to_token.induct) auto

lemma to_token_prepared [simp]:
  "to_token (map (\<lambda>(v, a). prepare_wrapped_delegate_msg denom (f a) x v) shares) = []"
  "to_token (map (\<lambda>(v, a). prepare_wrapped_undelegate_msg denom (f a) x v) shares) = []"
  "to_token (map (\<lambda>(v, c). prepare_wrapped_begin_redelegate_msg (g c) (h c) x y v) reds) = []"
  "to_token (map (\<lambda>del. WithdrawDelegatorReward (del_validator del)) dels) = []"
  by (induction shares, simp_all add: prepare_wrapped_delegate_msg_def prepare_wrapped_undelegate_msg_def
      to_any_def Let_def split_beta)
    (induction reds, auto simp: prepare_wrapped_begin_redelegate_msg_def to_any_def, induction dels, auto)

lemma stake_to_token:
  assumes "execute_stake d e info kind s = Inr (r, s')"
  shows "case kind of
      LSTMint \<Rightarrow> \<exists>c token n. s_config s = Some c \<and> lst_token c = Some token
        \<and> to_token (messages r) = [(token, Mint (info_sender info) n)]
    | StakeRewardsType \<Rightarrow> to_token (messages r) = []"
  using assms unfolding execute_stake_def
proof (elim outcome_elims, goal_cases)
  case (1 params config st0 dispatcher batch payment _ evs _ st s1 issued minted supp total st'
      s2 _ evs' s3 registry vs ds msgs)
  have "to_token msgs = []"
    using 1(24) by (auto simp: delegate_messages_def outcome_simps)
  with 1(2,25) show ?case
    by (cases kind) (auto simp: load_items_Inr outcome_simps)
qed

lemma undelegations_to_token:
  assumes "process_undelegations_for_batch d e batch st s = Inr (msgs, batch', st', s')"
  shows "to_token msgs = []"
  using assms
  by (auto simp: process_undelegations_for_batch_def pick_validator_for_undelegation_def
      outcome_simps Let_def)

lemma epoch_completion_to_token:
  "check_for_unstake_batch_epoch_completion d e batch s = Inr (msgs, evs, batch', s') \<Longrightarrow>
   to_token msgs = []"
  by (erule epoch_completion_cases) (auto dest: undelegations_to_token)

lemma unstake_to_token:
  assumes "execute_unstake d e amount sender flow s = Inr (r, s')"
  shows "\<exists>c token. s_config s = Some c \<and> lst_token c = Some token \<and> to_token (messages r) =
    [(token, case flow of BurnFlow \<Rightarrow> Burn amount | BurnFromFlow \<Rightarrow> BurnFrom sender amount)]"
proof -
  have same: "s_config s' = s_config s"
    using unstake_settings [OF assms] by (simp add: same_settings_def)
  obtain msgs config token burn batch1 evs batch2 s1 where
    check: "check_for_unstake_batch_epoch_completion d e batch1 s1 = Inr (msgs, evs, batch2, s')"
    and out: "s_config s' = Some config" "lst_token config = Some token"
      "messages r = msgs @ [WasmExecute token (Cw20Payload burn) []]"
    and burn: "burn_message d e token sender amount flow = Inr burn"
    by (rule execute_unstake_InrD [OF assms])
  from out(1) same have "s_config s = Some config" by simp
  with out epoch_completion_to_token [OF check] burn_message_Inr [OF burn] show ?thesis by simp
qed

lemma hub_token_silent:
  "execute_update_config d info no token reg disp s = Inr (r, s') \<Longrightarrow> to_token (messages r) = []"
  "execute_update_params info pause el up s = Inr (r, s') \<Longrightarrow> to_token (messages r) = []"
  "execute_slashing d e s = Inr (r, s') \<Longrightarrow> to_token (messages r) = []"
  "execute_redelegate_proxy e info src reds s = Inr (r, s') \<Longrightarrow> to_token (messages r) = []"
  "execute_update_global_index d e s = Inr (r, s') \<Longrightarrow> to_token (messages r) = []"
  "execute_process_undelegations d e s = Inr (r, s') \<Longrightarrow> to_token (messages r) = []"
  "execute_process_withdraw_requests d e s = Inr (r, s') \<Longrightarrow> to_token (messages r) = []"
  "execute_withdraw_unstaked_impl d e info ids s = Inr (r, s') \<Longrightarrow> to_token (messages r) = []"
proof -
  show "execute_update_config d info no token reg disp s = Inr (r, s') \<Longrightarrow> to_token (messages r) = []"
    by (erule execute_update_config_InrD) (simp split: option.splits)
  show "execute_update_params info pause el up s = Inr (r, s') \<Longrightarrow> to_token (messages r) = []"
    "execute_slashing d e s = Inr (r, s') \<Longrightarrow> to_token (messages r) = []"
    "execute_redelegate_proxy e info src reds s = Inr (r, s') \<Longrightarrow> to_token (messages r) = []"
    "execute_update_global_index d e s = Inr (r, s') \<Longrightarrow> to_token (messages r) = []"
    by (auto simp: execute_update_params_def execute_slashing_def execute_redelegate_proxy_def
        execute_update_global_index_def withdraw_all_rewards_def outcome_simps response_new_def Let_def
        split: if_splits)
  show "execute_process_undelegations d e s = Inr (r, s') \<Longrightarrow> to_token (messages r) = []"
    by (auto simp: execute_process_undelegations_def outcome_simps response_new_def
        dest: epoch_completion_to_token split: if_splits)
  show "execute_process_withdraw_requests d e s = Inr (r, s') \<Longrightarrow> to_token (messages r) = []"
    unfolding execute_process_withdraw_requests_def
    by (elim outcome_elims) (auto simp: response_new_def)
  show "execute_withdraw_unstaked_impl d e info ids s = Inr (r, s') \<Longrightarrow> to_token (messages r) = []"
    unfolding execute_withdraw_unstaked_impl_def by (elim outcome_elims) auto
qed

lemma hub_to_token:
  assumes "hub_execute d e info msg s = Inr (r, s')" and "s_config s = Some c"
  shows "case msg of
      Stake \<Rightarrow> \<exists>token n payment. lst_token c = Some token
        \<and> to_token (messages r) = [(token, Mint (info_sender info) n)]
        \<and> info_funds info = [payment] \<and> 0 < coin_amount payment
    | Unstake amount \<Rightarrow> \<exists>token. lst_token c = Some token
        \<and> to_token (messages r) = [(token, BurnFrom (info_sender info) amount)]
    | Receive m \<Rightarrow> lst_token c = Some (info_sender info)
        \<and> to_token (messages r) = [(info_sender info, Burn (receive_amount m))]
    | _ \<Rightarrow> to_token (messages r) = []"
proof (cases msg)
  case (Receive m)
  with assms show ?thesis
    by (auto simp: hub_execute_def outcome_simps receive_cw20_def
        dest!: unstake_to_token split: cw20_hook_msg.splits if_splits)
next
  case Stake
  with assms have run: "execute_stake d e info LSTMint s = Inr (r, s')"
    by (auto simp: hub_execute_def outcome_simps split: if_splits)
  obtain payment where "info_funds info = [payment]" "0 < coin_amount payment"
    using run by (rule execute_stake_InrD) (auto simp: word_less_nat_alt)
  with stake_to_token [OF run] assms(2) Stake show ?thesis by auto
next
  case StakeRewards
  with assms have run: "execute_stake d e info StakeRewardsType s = Inr (r, s')"
    by (auto simp: hub_execute_def outcome_simps split: if_splits)
  with stake_to_token [OF run] StakeRewards show ?thesis by simp
next
  case (Unstake amount)
  with assms show ?thesis
    by (auto simp: hub_execute_def outcome_simps dest!: unstake_to_token split: if_splits)
qed (use assms(1) hub_token_silent in \<open>auto simp: hub_execute_def outcome_simps
    execute_withdraw_unstaked_def execute_withdraw_unstaked_for_batches_def split: if_splits\<close>)

section \<open>Properties\<close>

text \<open>
  Over all messages of the hub, the token is told nothing but: to mint for the sender of a
  stake of one positive coin, to burn the hub's own tokens after a cw20 hook (exactly the amount
  received), and to burn from the sender of an unstake (exactly its amount). In particular the
  hub never names another minter, and no other message mints.
\<close>

theorem hub_token_messages:
  assumes "hub_execute d e info msg s = Inr (r, s')" and "s_config s = Some c"
  shows "case msg of
      Stake \<Rightarrow> \<exists>token n payment. lst_token c = Some token
        \<and> to_token (messages r) = [(token, Mint (info_sender info) n)]
        \<and> info_funds info = [payment] \<and> 0 < coin_amount payment
    | Unstake amount \<Rightarrow> \<exists>token. lst_token c = Some token
        \<and> to_token (messages r) = [(token, BurnFrom (info_sender info) amount)]
    | Receive m \<Rightarrow> lst_token c = Some (info_sender info)
        \<and> to_token (messages r) = [(info_sender info, Burn (receive_amount m))]
    | _ \<Rightarrow> to_token (messages r) = []"
  by (rule hub_to_token [OF assms])

section \<open>Witnesses\<close>

lemma stake_runs:
  "\<exists>r s'. hub_execute sample_deps now (by_user alice [bbn 90]) Stake sample_hub = Inr (r, s')"
  by (simp add: hub_execute_def stake_eval slashing_eval storage_eval sample_defs split_eval cong: eval_cong)

lemma hub_token_messages_witness:
  "\<exists>r s' n. hub_execute sample_deps now (by_user alice [bbn 90]) Stake sample_hub = Inr (r, s')
    \<and> to_token (messages r) = [(sample_token, Mint alice n)]"
proof -
  obtain r s' where run: "hub_execute sample_deps now (by_user alice [bbn 90]) Stake sample_hub
      = Inr (r, s')"
    using stake_runs by blast
  from hub_token_messages [OF run sample_hub_items(1)] run show ?thesis
    by (auto simp: sample_config_def by_user_def)
qed

end
