(* ===== verification/Hub_Backing.thy ===== *)
theory Hub_Backing
  imports Hub_Messages
begin

text \<open>
  The value of the tokens against the recorded stake. The tokens of the holders and of the open
  batch, at the recorded rate, are never worth more than what is recorded as staked: every message
  of the hub keeps this, once the token has executed what the hub tells it. It follows that the
  rate can only fall by slashing.
\<close>

section \<open>Backing\<close>

text \<open>
  \<open>n\<close> tokens are held and \<open>q\<close> wait in the open batch. When everything was slashed the code sets
  the rate to one, although nothing backs the tokens.
\<close>

definition backs :: "nat \<Rightarrow> nat \<Rightarrow> hub_state \<Rightarrow> bool" where
  "backs n q st \<longleftrightarrow>
     unat (atomics (lst_exchange_rate st)) * (n + q) \<le> unat (total_staked_amount st) * 10 ^ 18
   \<or> unat (total_staked_amount st) = 0 \<and> lst_exchange_rate st = decimal_one"

definition backed :: "nat \<Rightarrow> hub_storage \<Rightarrow> bool" where
  "backed n s \<longleftrightarrow> (\<forall>st cb. s_state s = Some st \<longrightarrow> s_current_batch s = Some cb \<longrightarrow>
     backs n (unat (requested_lst_token_amount cb)) st)"

text \<open>What a message to the token does to its supply, when it succeeds.\<close>

fun supply_after :: "(addr \<times> cw20_execute_msg) list \<Rightarrow> nat \<Rightarrow> nat" where
  "supply_after [] n = n"
| "supply_after ((_, Mint _ a) # ms) n = supply_after ms (n + unat a)"
| "supply_after ((_, Burn a) # ms) n = supply_after ms (n - unat a)"
| "supply_after ((_, BurnFrom _ a) # ms) n = supply_after ms (n - unat a)"
| "supply_after (_ # ms) n = supply_after ms n"

fun burned :: "(addr \<times> cw20_execute_msg) list \<Rightarrow> nat" where
  "burned [] = 0"
| "burned ((_, Burn a) # ms) = unat a + burned ms"
| "burned ((_, BurnFrom _ a) # ms) = unat a + burned ms"
| "burned (_ # ms) = burned ms"

lemma backs_fields:
  assumes "backs n q st" and "total_staked_amount st' = total_staked_amount st"
    and "lst_exchange_rate st' = lst_exchange_rate st"
  shows "backs n q st'"
  using assms by (simp add: backs_def)

lemma decimal_ext: "unat (atomics a) = unat (atomics b) \<Longrightarrow> a = b"
  by (cases a, cases b) (simp add: word_unat_eq_iff)

lemma update_rate_backs:
  assumes "decimal_ratio_law d" and "update_lst_exchange_rate d st issued requested = Inr st'"
  shows "backs (unat issued) (unat requested) st'"
proof -
  have total: "total_staked_amount st' = total_staked_amount st"
    using update_lst_exchange_rate_InrD [OF assms(2)] by auto
  note rate = update_lst_exchange_rate_value [OF assms]
  show ?thesis
  proof (cases "unat (total_staked_amount st) = 0")
    case True
    with rate have "lst_exchange_rate st' = decimal_one"
      by (intro decimal_ext) (simp add: decimal_one_def)
    with True total show ?thesis by (simp add: backs_def)
  next
    case False
    with rate total show ?thesis
      by (auto simp: backs_def div_times_less_eq_dividend)
  qed
qed

lemma actual_state_backs:
  assumes "decimal_ratio_law d" and "query_actual_state d e s st = Inr st'"
    and "query_total_lst_token_issued d s = Inr issued" and "s_current_batch s = Some cb"
    and "backs (unat issued) (unat (requested_lst_token_amount cb)) st"
  shows "backs (unat issued) (unat (requested_lst_token_amount cb)) st'"
  using assms(2)
proof (cases rule: query_actual_state_cases)
  case (compared dels params ps pu issued' cb' total)
  with assms(3,4) update_rate_backs [OF assms(1) compared(12)] show ?thesis by simp
qed (use assms(5) in simp_all)

text \<open>Closing the batch takes its tokens and, rounded down, their value away.\<close>

lemma close_backs:
  assumes "backs n q st" and "unat u = q * unat (atomics (lst_exchange_rate st)) div 10 ^ 18"
    and "unat (total_staked_amount st) = unat u + unat tot"
  shows "backs n 0 (st\<lparr>total_staked_amount := tot, last_unbonded_time := t\<rparr>)"
  using assms(1) unfolding backs_def
proof (elim disjE conjE)
  let ?r = "unat (atomics (lst_exchange_rate st))"
  assume "?r * (n + q) \<le> unat (total_staked_amount st) * 10 ^ 18"
  moreover have "unat u * 10 ^ 18 \<le> q * ?r"
    unfolding assms(2) by (rule div_times_less_eq_dividend)
  ultimately have "?r * n \<le> unat tot * 10 ^ 18"
    unfolding assms(3) by (simp add: algebra_simps)
  then show "unat (atomics (lst_exchange_rate (st\<lparr>total_staked_amount := tot, last_unbonded_time := t\<rparr>)))
      * (n + 0) \<le> unat (total_staked_amount (st\<lparr>total_staked_amount := tot, last_unbonded_time := t\<rparr>)) * 10 ^ 18
    \<or> unat (total_staked_amount (st\<lparr>total_staked_amount := tot, last_unbonded_time := t\<rparr>)) = 0
      \<and> lst_exchange_rate (st\<lparr>total_staked_amount := tot, last_unbonded_time := t\<rparr>) = decimal_one"
    by simp
qed (use assms(3) in simp)

section \<open>Every message keeps it\<close>

lemma stake_backed:
  assumes law: "decimal_ratio_law d" and run: "execute_stake d e info kind s = Inr (r, s')"
    and issued: "query_total_lst_token_issued d s = Inr issued"
  shows "backed (supply_after (to_token (messages r)) (unat issued)) s'
    \<and> burned (to_token (messages r)) = 0"
  using run
proof (rule execute_stake_InrD)
  fix config st0 st st' s2 msgs batch and payment :: coin and issued' minted :: uint128
  assume batch: "s_current_batch s = Some batch"
    and issued': "query_total_lst_token_issued d s = Inr issued'"
    and mint: "case kind of
        LSTMint \<Rightarrow> decimal_division (coin_amount payment) (lst_exchange_rate st)
          = (Inr minted :: uint128 lst_result)
      | StakeRewardsType \<Rightarrow> minted = 0"
    and rate: "\<exists>total_supply total. unat total_supply = unat issued' + unat minted
       \<and> unat total = unat (total_staked_amount st) + unat (coin_amount payment)
       \<and> update_lst_exchange_rate d (st\<lparr>total_staked_amount := total\<rparr>) total_supply
           (requested_lst_token_amount batch) = Inr st'"
    and pend: "update_pending_delegation_amount e (Some (coin_amount payment)) None
       (s\<lparr>s_state := Some st\<rparr>) = Inr s2"
    and s': "s' = s2\<lparr>s_state := Some st'\<rparr>"
    and msgs: "case kind of
        LSTMint \<Rightarrow> \<exists>token. lst_token config = Some token
          \<and> messages r = msgs @ [WasmExecute token (Cw20Payload (Mint (info_sender info) minted)) []]
      | StakeRewardsType \<Rightarrow> messages r = msgs"
  from rate obtain total_supply total where sup: "unat total_supply = unat issued + unat minted"
    and upd: "update_lst_exchange_rate d (st\<lparr>total_staked_amount := total\<rparr>) total_supply
      (requested_lst_token_amount batch) = Inr st'"
    using issued issued' by auto
  have "s_current_batch s' = Some batch"
    using batch by (auto simp: s' intro: update_pending_frame [OF pend])
  then have "backed (unat issued + unat minted) s'"
    using update_rate_backs [OF law upd] by (simp add: backed_def s' sup)
  moreover have "to_token (messages r) = [] \<and> minted = 0
    \<or> (\<exists>t. to_token (messages r) = [(t, Mint (info_sender info) minted)])"
    using stake_to_token [OF run] msgs mint by (cases kind) auto
  ultimately show ?thesis by auto
qed

lemma epoch_completion_backed:
  assumes law: "decimal_ratio_law d"
    and check: "check_for_unstake_batch_epoch_completion d e batch s = Inr (msgs, evs, batch', s')"
    and issued: "query_total_lst_token_issued d s = Inr issued" and cb: "s_current_batch s = Some cb"
    and pre: "backed (unat issued) s"
    and sum: "n + unat (requested_lst_token_amount batch)
      = unat issued + unat (requested_lst_token_amount cb)"
  shows "backed n s'"
  using check
proof (cases rule: epoch_completion_cases)
  case (waiting params st0 st)
  have "backs (unat issued) (unat (requested_lst_token_amount cb)) st"
    using actual_state_backs [OF law waiting(3) issued cb] pre waiting(2) cb
    by (simp add: backed_def)
  then show ?thesis
    by (simp add: backed_def backs_def waiting(8) sum)
next
  case (closed params st0 st st' s2)
  have "backs (unat issued) (unat (requested_lst_token_amount cb)) st"
    using actual_state_backs [OF law closed(3) issued cb] pre closed(2) cb
    by (simp add: backed_def)
  then have "backs n (unat (requested_lst_token_amount batch)) st"
    by (simp add: backs_def sum)
  from closed(6) this show ?thesis
    by (elim process_undelegations_for_batch_InrD)
      (auto simp: backed_def closed(7) intro: close_backs)
qed

lemma unstake_backed:
  assumes law: "decimal_ratio_law d" and run: "execute_unstake d e amount sender flow s = Inr (r, s')"
    and issued: "query_total_lst_token_issued d s = Inr issued" and pre: "backed (unat issued) s"
    and enough: "burned (to_token (messages r)) \<le> unat issued"
  shows "backed (supply_after (to_token (messages r)) (unat issued)) s'"
proof -
  have burn: "supply_after (to_token (messages r)) (unat issued) = unat issued - unat amount
      \<and> burned (to_token (messages r)) = unat amount"
    using unstake_to_token [OF run] by (cases flow) auto
  show ?thesis
    using run
  proof (rule execute_unstake_InrD)
    fix batch batch1 s1 msgs evs batch2
    assume batch: "s_current_batch s = Some batch"
      and request: "update_unstake_batch_wait_list d batch sender amount s = Inr (batch1, s1)"
      and check: "check_for_unstake_batch_epoch_completion d e batch1 s1 = Inr (msgs, evs, batch2, s')"
    from request obtain m where
      requested: "unat (requested_lst_token_amount batch1)
        = unat (requested_lst_token_amount batch) + unat amount"
      and s1: "s1 = s\<lparr>s_unstake_wait_list := m\<rparr>"
      by (rule update_unstake_batch_wait_list_InrD) auto
    have "query_total_lst_token_issued d s1 = Inr issued"
      using issued by (simp add: s1 query_total_lst_token_issued_def load_config_def)
    moreover have "backed (unat issued) s1" using pre by (simp add: backed_def s1)
    ultimately show ?thesis
      using epoch_completion_backed [OF law check] batch requested burn enough
      by (simp add: s1)
  qed
qed

text \<open>The other messages leave stake, rate and open batch alone.\<close>

definition same_value :: "hub_storage \<Rightarrow> hub_storage \<Rightarrow> bool" where
  "same_value s s' \<longleftrightarrow> s_current_batch s' = s_current_batch s
     \<and> map_option total_staked_amount (s_state s') = map_option total_staked_amount (s_state s)
     \<and> map_option lst_exchange_rate (s_state s') = map_option lst_exchange_rate (s_state s)"

lemma same_value_backed: "same_value s s' \<Longrightarrow> backed n s \<Longrightarrow> backed n s'"
  unfolding same_value_def backed_def by (cases "s_state s") (auto simp: backs_def)

lemma withdraw_rate_value:
  assumes "process_withdraw_rate d cutoff free s = Inr (evs, left, s1)"
  shows "same_value s s1"
proof -
  obtain st where st: "s_state s = Some st"
    using assms by (rule process_withdraw_rate_InrD)
  show ?thesis
    by (rule process_withdraw_rate_effect [OF assms st])
      (auto simp: same_value_def st dest: frame_items)
qed

lemma withdraw_value:
  assumes "execute_withdraw_unstaked_impl d e info ids s = Inr (r, s')"
  shows "same_value s s'"
  using assms unfolding execute_withdraw_unstaked_impl_def
proof (elim outcome_elims, goal_cases)
  case (1 _ params _ free cutoff _ evs _ left s1 _ paid dep s2 after unclaimed s3)
  have rate: "process_withdraw_rate d cutoff free s = Inr (evs, left, s1)"
    and rem: "remove_unstake_wait_list dep (info_sender info) s1 = Inr s2"
    and save: "save_unclaimed_balance unclaimed s2 = Inr s3" and "s' = s3"
    using 1 by simp_all
  have "same_value s1 s2"
    using remove_unstake_wait_list_Inr [of dep "info_sender info" s1] rem
    by (auto simp: same_value_def)
  with withdraw_rate_value [OF rate] save \<open>s' = s3\<close> show ?case
    by (auto simp: same_value_def save_unclaimed_balance_def outcome_simps)
qed

lemma process_withdraw_requests_value:
  assumes "execute_process_withdraw_requests d e s = Inr (r, s')"
  shows "same_value s s'"
  using assms
  by (rule execute_process_withdraw_requests_InrD)
    (auto dest!: withdraw_rate_value simp: same_value_def)

lemma settings_value:
  "execute_update_params info pause el up s = Inr (r, s') \<Longrightarrow> same_value s s'"
  "execute_update_config d info no token reg disp s = Inr (r, s') \<Longrightarrow> same_value s s'"
  "execute_update_global_index d e s = Inr (r, s') \<Longrightarrow> same_value s s'"
  by (auto simp: same_value_def execute_update_global_index_def outcome_simps
      elim: execute_update_params_InrD execute_update_config_InrD)

lemma execute_backed:
  assumes law: "decimal_ratio_law d" and run: "hub_execute d e info msg s = Inr (r, s')"
    and issued: "query_total_lst_token_issued d s = Inr issued" and pre: "backed (unat issued) s"
    and enough: "burned (to_token (messages r)) \<le> unat issued"
  shows "backed (supply_after (to_token (messages r)) (unat issued)) s'"
  using run
proof (cases rule: hub_execute_cases)
  case (4 kind)
  with stake_backed [OF law 4(2) issued] show ?thesis by simp
next
  case (5 amount sender flow)
  with unstake_backed [OF law 5(1) issued pre enough] show ?thesis by simp
next
  case 6
  then obtain st st' where "s_state s = Some st" "query_actual_state d e s st = Inr st'"
      "s' = s\<lparr>s_state := Some st'\<rparr>"
    by (auto elim: execute_slashing_InrD)
  then show ?thesis
    using hub_token_silent(3) [OF 6(2)] actual_state_backs [OF law _ issued] pre
    by (auto simp: backed_def)
next
  case 10
  have "backed (unat issued) s'"
    using 10(2) pre epoch_completion_backed [OF law _ issued _ pre]
    by (auto simp: execute_process_undelegations_def outcome_simps split: if_splits)
  then show ?thesis using hub_token_silent(6) [OF 10(2)] by simp
next
  case (8 src reds)
  then have "to_token (messages r) = []"
    using run hub_token_silent(4) by (auto simp: hub_execute_def outcome_simps split: if_splits)
  with 8 pre show ?thesis by simp
qed (use pre in \<open>auto simp: hub_token_silent dest!: settings_value withdraw_value
    process_withdraw_requests_value elim: same_value_backed\<close>)

section \<open>The rate\<close>

text \<open>The chain holds at least what the hub has recorded, up to the pending amounts.\<close>

definition no_shortfall :: "deps \<Rightarrow> env \<Rightarrow> hub_storage \<Rightarrow> bool" where
  "no_shortfall d e s \<longleftrightarrow> (\<forall>dels params ps pu st.
     query_all_delegations d (contract_address e) = Inr dels \<longrightarrow> s_parameters s = Some params \<longrightarrow>
     get_pending_delegation_amount e s = Inr (ps, pu) \<longrightarrow> s_state s = Some st \<longrightarrow>
     unat (total_staked_amount st) + unat pu \<le> bonded (staking_coin_denom params) dels + unat ps)"

lemma rate_leI:
  assumes "decimal_ratio_law d" and "update_lst_exchange_rate d st issued requested = Inr st'"
    and "unat r * (unat issued + unat requested) \<le> unat (total_staked_amount st) * 10 ^ 18"
    and "0 < unat (total_staked_amount st)" and "0 < unat issued + unat requested"
  shows "Decimal r \<le> lst_exchange_rate st'"
proof -
  have "unat (atomics (lst_exchange_rate st'))
      = unat (total_staked_amount st) * 10 ^ 18 div (unat issued + unat requested)"
    using update_lst_exchange_rate_value [OF assms(1,2)] assms(4,5) by auto
  then show ?thesis
    using assms(3,5) by (simp add: less_eq_decimal_def word_le_nat_alt less_eq_div_iff_mult_less_eq)
qed

lemma actual_state_rate:
  assumes law: "decimal_ratio_law d" and run: "query_actual_state d e s st = Inr st'"
    and "query_total_lst_token_issued d s = Inr issued" and "s_current_batch s = Some cb"
    and backs: "backs (unat issued) (unat (requested_lst_token_amount cb)) st"
    and st: "s_state s = Some st" and enough: "no_shortfall d e s"
    and pos: "0 < unat (total_staked_amount st)"
      "0 < unat issued + unat (requested_lst_token_amount cb)"
  shows "lst_exchange_rate st \<le> lst_exchange_rate st' \<and> total_staked_amount st' = total_staked_amount st"
  using run
proof (cases rule: query_actual_state_cases)
  case (compared dels params ps pu issued' cb' tot)
  have "unat (total_staked_amount st) + unat pu
      \<le> bonded (staking_coin_denom params) dels + unat ps"
    using enough compared(1,3,4) st unfolding no_shortfall_def by blast
  then have tot: "tot = total_staked_amount st"
    using compared(11) by (simp add: word_unat_eq_iff)
  have upd: "update_lst_exchange_rate d st issued (requested_lst_token_amount cb) = Inr st'"
    using compared(5,6,12) assms(3,4) tot by simp
  have "Decimal (atomics (lst_exchange_rate st)) \<le> lst_exchange_rate st'"
    by (rule rate_leI [OF law upd]) (use backs pos in \<open>simp_all add: backs_def\<close>)
  moreover have "Decimal (atomics (lst_exchange_rate st)) = lst_exchange_rate st"
    by (cases "lst_exchange_rate st") simp
  ultimately show ?thesis using update_lst_exchange_rate_InrD [OF upd] by auto
qed simp_all

definition rate_rises :: "hub_state \<Rightarrow> hub_storage \<Rightarrow> bool" where
  "rate_rises st s' \<longleftrightarrow> (\<exists>st'. s_state s' = Some st' \<and> lst_exchange_rate st \<le> lst_exchange_rate st')"

lemma epoch_completion_rate:
  assumes "check_for_unstake_batch_epoch_completion d e batch s = Inr (msgs, evs, batch', s')"
    and "\<And>st'. query_actual_state d e s st = Inr st' \<Longrightarrow> lst_exchange_rate st \<le> lst_exchange_rate st'"
    and "s_state s = Some st"
  shows "rate_rises st s'"
  using assms(1)
proof (cases rule: epoch_completion_cases)
  case (closed params st0 st1 st2 s2)
  from closed(6) show ?thesis
    by (rule process_undelegations_for_batch_InrD)
      (use closed(2,3,7) assms(2,3) in \<open>simp add: rate_rises_def\<close>)
qed (use assms(2,3) in \<open>simp add: rate_rises_def\<close>)

lemma same_value_rate:
  "same_value s s' \<Longrightarrow> s_state s = Some st \<Longrightarrow> rate_rises st s'"
  by (auto simp: same_value_def rate_rises_def)

text \<open>As long as there are tokens and a stake, and the chain holds what is recorded.\<close>

lemma execute_rate:
  assumes law: "decimal_ratio_law d" and run: "hub_execute d e info msg s = Inr (r, s')"
    and issued: "query_total_lst_token_issued d s = Inr issued" and pre: "backed (unat issued) s"
    and st: "s_state s = Some st" and cb: "s_current_batch s = Some cb"
    and enough: "no_shortfall d e s"
    and pos: "0 < unat (total_staked_amount st)"
      "0 < unat issued + unat (requested_lst_token_amount cb)"
  shows "rate_rises st s'"
proof -
  have backs: "backs (unat issued) (unat (requested_lst_token_amount cb)) st"
    using pre st cb by (simp add: backed_def)
  note check = actual_state_rate [OF law _ issued cb backs st enough pos]
  from run show ?thesis
  proof (cases rule: hub_execute_cases)
    case (4 kind)
    then obtain st1 where st1: "query_actual_state d e s st = Inr st1" and new: "s_state s' \<noteq> None"
      using st by (auto elim!: execute_stake_InrD)
    have "lst_exchange_rate st1 \<le> lst_exchange_rate (the (s_state s'))"
      using stake_rate [OF law 4(2) st st1 issued cb pos(2)]
        actual_state_backs [OF law st1 issued cb backs] check [OF st1] pos(1)
      by (auto simp: backs_def)
    with check [OF st1] new show ?thesis by (auto simp: rate_rises_def)
  next
    case (5 amount sender flow)
    from 5(1) show ?thesis
    proof (rule execute_unstake_InrD)
      fix batch batch1 s1 msgs evs batch2
      assume request: "update_unstake_batch_wait_list d batch sender amount s = Inr (batch1, s1)"
        and comp: "check_for_unstake_batch_epoch_completion d e batch1 s1 = Inr (msgs, evs, batch2, s')"
      from request obtain m where s1: "s1 = s\<lparr>s_unstake_wait_list := m\<rparr>"
        by (rule update_unstake_batch_wait_list_InrD) auto
      have "query_actual_state d e s1 st = query_actual_state d e s st"
        by (rule query_actual_state_cong) (simp_all add: s1)
      then show ?thesis
        using epoch_completion_rate [OF comp, of st] check st by (simp add: s1)
    qed
  next
    case 6
    then obtain st' where "query_actual_state d e s st = Inr st'" "s' = s\<lparr>s_state := Some st'\<rparr>"
      using st by (auto elim!: execute_slashing_InrD)
    with check show ?thesis by (simp add: rate_rises_def)
  next
    case 10
    then show ?thesis
      using epoch_completion_rate [OF _ _ st] check st
      by (auto simp: execute_process_undelegations_def outcome_simps rate_rises_def split: if_splits)
  next
    case (8 src reds)
    with st show ?thesis by (simp add: rate_rises_def)
  qed (use st in \<open>auto dest!: settings_value withdraw_value process_withdraw_requests_value
      elim: same_value_rate\<close>)
qed

end
