(* ===== verification/Registry.thy ===== *)
theory Registry
  imports Sample_World Delegation "HOL-Library.Multiset"
begin

text \<open>
  The validators registry (\<open>contracts/lst_validators_registry/src\<close>): the whitelisted validators,
  the excluded ones whose stake has to move, and the messages that move it.
\<close>

section \<open>The code\<close>

definition REGISTRY_CONTRACT_NAME :: string where
  "REGISTRY_CONTRACT_NAME = ''crates.io:lst_validators_registry''"
definition REGISTRY_CONTRACT_VERSION :: string where
  "REGISTRY_CONTRACT_VERSION = ''1.0.0''"

record registry_storage =
  r_config :: "registry_config option"
  r_registry :: "(string, validator) smap"
  r_exclude :: "(string, bool) smap"
  r_contract_info :: "(string \<times> string) option"

definition empty_registry_storage :: registry_storage where
  "empty_registry_storage = \<lparr>r_config = None, r_registry = [], r_exclude = [],
     r_contract_info = None\<rparr>"

definition load_registry_config :: "registry_storage \<Rightarrow> registry_config lst_result" where
  "load_registry_config s = load ''config'' (r_config s)"

definition fetch_validator_info :: "deps \<Rightarrow> string \<Rightarrow> string option lst_result" where
  "fetch_validator_info d val_address = query_std (query_validator d val_address)"

text \<open>The closure of \<open>instantiate\<close>: an answer that is an error or names no validator is skipped,
  a malformed address panics.\<close>

definition register_initial ::
    "deps \<Rightarrow> validator \<Rightarrow> registry_storage \<Rightarrow> registry_storage lst_result" where
  "register_initial d validator s =
     and_then (convert_addr_by_prefix d (validator_address validator) VALIDATOR_ADDR_PREFIX)
       (\<lambda>validator_addr.
     case fetch_validator_info d validator_addr of
       Inl (Panic p) \<Rightarrow> Inl (Panic p)
     | Inl (Err _) \<Rightarrow> Inr s
     | Inr None \<Rightarrow> Inr s
     | Inr (Some address) \<Rightarrow>
         Inr (s\<lparr>r_registry := save address (ValidatorEntry address) (r_registry s)\<rparr>))"

definition registry_instantiate ::
    "deps \<Rightarrow> message_info \<Rightarrow> validator_instantiate_msg \<Rightarrow> registry_storage
     \<Rightarrow> (response \<times> registry_storage) lst_result" where
  "registry_instantiate d info msg s =
     and_then (from_err (\<lambda>_. FailedToInitContract)
       (set_contract_version d REGISTRY_CONTRACT_NAME REGISTRY_CONTRACT_VERSION
          (r_contract_info s))) (\<lambda>contract_info.
     and_then (to_checked_address d (vim_hub_contract msg)) (\<lambda>hub_contract.
     and_then (for_each (register_initial d) (vim_validators msg)
       (s\<lparr>r_contract_info := contract_info,
          r_config := Some \<lparr>vc_owner = info_sender info, vc_hub_contract = hub_contract\<rparr>\<rparr>)) (\<lambda>s'.
     Inr (response_new, s'))))"

definition registry_migrate ::
    "deps \<Rightarrow> registry_storage \<Rightarrow> (response \<times> registry_storage) lst_result" where
  "registry_migrate d s =
     and_then (query_std (ensure_from_older_version d REGISTRY_CONTRACT_NAME
       REGISTRY_CONTRACT_VERSION (r_contract_info s))) (\<lambda>contract_info.
     Inr (response_new, s\<lparr>r_contract_info := contract_info\<rparr>))"

definition add_validator ::
    "deps \<Rightarrow> message_info \<Rightarrow> validator \<Rightarrow> registry_storage
     \<Rightarrow> (response \<times> registry_storage) lst_result" where
  "add_validator d info validator s =
     and_then (load_registry_config s) (\<lambda>config.
     if info_sender info \<noteq> vc_owner config then unauthorized else
     and_then (convert_addr_by_prefix d (validator_address validator) VALIDATOR_ADDR_PREFIX)
       (\<lambda>validator_addr.
     and_then (fetch_validator_info d validator_addr) (\<lambda>validator_info.
     let s' = (case validator_info of
           Some address \<Rightarrow> s\<lparr>r_registry := save address validator (r_registry s),
                             r_exclude := remove address (r_exclude s)\<rparr>
         | None \<Rightarrow> s) in
     Inr (response_new\<lparr>attributes := [(''action'', ''add_validator''),
            (''validator'', validator_address validator)]\<rparr>, s'))))"

definition remove_validator ::
    "deps \<Rightarrow> message_info \<Rightarrow> string \<Rightarrow> registry_storage
     \<Rightarrow> (response \<times> registry_storage) lst_result" where
  "remove_validator d info validator_addr s =
     and_then (load_registry_config s) (\<lambda>config.
     if info_sender info \<noteq> vc_owner config then unauthorized else
     and_then (convert_addr_by_prefix d validator_addr VALIDATOR_ADDR_PREFIX)
       (\<lambda>validator_operator_addr.
     Inr (response_new\<lparr>attributes := [(''action'', ''remove_validator''),
            (''validator'', validator_addr)]\<rparr>,
          s\<lparr>r_registry := remove validator_operator_addr (r_registry s),
            r_exclude := save validator_operator_addr True (r_exclude s)\<rparr>)))"

text \<open>The \<open>HashMap\<close> of the hub's delegations: of two with one validator the later one stays.\<close>

definition delegations_by_validator :: "delegation list \<Rightarrow> string \<Rightarrow> coin option" where
  "delegations_by_validator ds =
     fold (\<lambda>del m. m(del_validator del \<mapsto> del_amount del)) ds (\<lambda>_. None)"

text \<open>The registered validators with what the hub delegates to them, in ascending order of that
  (\<open>sort_by\<close> is stable).\<close>

definition active_delegations ::
    "(string \<Rightarrow> coin option) \<Rightarrow> (string, validator) smap \<Rightarrow> validator_response list" where
  "active_delegations by_validator registry =
     sort_key total_delegated (map (\<lambda>(_, v).
       \<lparr>total_delegated = (case by_validator (validator_address v) of
            None \<Rightarrow> 0 | Some c \<Rightarrow> coin_amount c),
        vr_address = validator_address v\<rparr>) registry)"

definition redelegations_to ::
    "string \<Rightarrow> validator_response list \<Rightarrow> uint128 list \<Rightarrow> (string \<times> coin) list" where
  "redelegations_to denom active coin_distribution =
     map (\<lambda>(val, amt). (vr_address val, \<lparr>coin_denom = denom, coin_amount = amt\<rparr>))
       (filter (\<lambda>(_, amt). amt \<noteq> 0) (zip active coin_distribution))"

text \<open>The closure of \<open>for_each\<close> over the excluded validators.\<close>

definition redelegate_from ::
    "addr \<Rightarrow> (string \<Rightarrow> coin option) \<Rightarrow> validator_response list \<Rightarrow> string \<times> bool
     \<Rightarrow> cosmos_msg list \<Rightarrow> cosmos_msg list lst_result" where
  "redelegate_from hub_contract by_validator active = (\<lambda>(validator_addr, _) msgs.
     case by_validator validator_addr of
       None \<Rightarrow> Inr msgs
     | Some delegation \<Rightarrow>
         if coin_amount delegation = 0 then Inr msgs else
         and_then (unwrap (calculate_delegations (coin_amount delegation) active))
           (\<lambda>coin_distribution.
         Inr (msgs @ [WasmExecute hub_contract (HubPayload (RedelegateProxy validator_addr
           (redelegations_to (coin_denom delegation) active coin_distribution))) []])))"

definition process_redelegations ::
    "deps \<Rightarrow> registry_storage \<Rightarrow> (response \<times> registry_storage) lst_result" where
  "process_redelegations d s =
     (if r_exclude s = [] then Inr (response_new, s) else
      and_then (load_registry_config s) (\<lambda>config.
      and_then (query_std (query_all_delegations d (vc_hub_contract config))) (\<lambda>delegations.
      let by_validator = delegations_by_validator delegations;
          active = active_delegations by_validator (r_registry s) in
      and_then (for_each (redelegate_from (vc_hub_contract config) by_validator active)
        (r_exclude s) []) (\<lambda>msgs.
      Inr (response_new\<lparr>messages := msgs,
             attributes := [(''action'', ''process_redelegation'')]\<rparr>, s)))))"

definition update_registry_config ::
    "deps \<Rightarrow> message_info \<Rightarrow> string option \<Rightarrow> string option \<Rightarrow> registry_storage
     \<Rightarrow> (response \<times> registry_storage) lst_result" where
  "update_registry_config d info new_owner new_hub s =
     and_then (load_registry_config s) (\<lambda>config.
     if info_sender info \<noteq> vc_owner config then unauthorized else
     and_then
       (case new_owner of None \<Rightarrow> Inr (response_new, s)
        | Some ow \<Rightarrow>
            and_then (to_checked_address d ow) (\<lambda>owner_raw.
            and_then (load_registry_config s) (\<lambda>old_config.
            Inr (response_new\<lparr>attributes := [(''owner'', ow)]\<rparr>,
                 s\<lparr>r_config := Some (old_config\<lparr>vc_owner := owner_raw\<rparr>)\<rparr>))))
     (\<lambda>(res, s1).
     case new_hub of None \<Rightarrow> Inr (res, s1)
     | Some hub_contract \<Rightarrow>
         and_then (to_checked_address d hub_contract) (\<lambda>hub_addr_raw.
         and_then (load_registry_config s1) (\<lambda>old_config.
         Inr (res\<lparr>attributes := attributes res @ [(''hub'', hub_contract)]\<rparr>,
              s1\<lparr>r_config := Some (old_config\<lparr>vc_hub_contract := hub_addr_raw\<rparr>)\<rparr>)))))"

definition registry_execute ::
    "deps \<Rightarrow> message_info \<Rightarrow> validator_execute_msg \<Rightarrow> registry_storage
     \<Rightarrow> (response \<times> registry_storage) lst_result" where
  "registry_execute d info msg s =
     (case msg of
        AddValidator validator \<Rightarrow> add_validator d info validator s
      | RemoveValidator address \<Rightarrow> remove_validator d info address s
      | RegistryUpdateConfig ow hub_contract \<Rightarrow> update_registry_config d info ow hub_contract s
      | ProcessRedelegations \<Rightarrow> process_redelegations d s)"

definition query_validators ::
    "deps \<Rightarrow> registry_storage \<Rightarrow> validator_response list lst_result" where
  "query_validators d s =
     and_then (load_registry_config s) (\<lambda>config.
     and_then (query_std (query_all_delegations d (vc_hub_contract config))) (\<lambda>delegations.
     Inr (active_delegations (delegations_by_validator delegations) (r_registry s))))"

definition query_exclude_list :: "registry_storage \<Rightarrow> string list lst_result" where
  "query_exclude_list s = Inr (map fst (r_exclude s))"

datatype registry_answer =
    ARegistryConfig registry_config
  | AValidators "validator_response list"
  | AExcludeList "string list"

fun registry_query ::
    "deps \<Rightarrow> validator_query_msg \<Rightarrow> registry_storage \<Rightarrow> registry_answer lst_result" where
  "registry_query d RegistryConfig s =
     and_then (load_registry_config s) (\<lambda>c. Inr (ARegistryConfig c))"
| "registry_query d ValidatorsDelegation s =
     and_then (query_validators d s) (\<lambda>vs. Inr (AValidators vs))"
| "registry_query d ExcludeList s =
     and_then (query_exclude_list s) (\<lambda>as. Inr (AExcludeList as))"

section \<open>The registered and the excluded validators\<close>

lemma in_set_save: "(k, v) \<in> set (save k v m)"
  by (induction m) auto

definition disjoint_keys :: "('k, 'v) smap \<Rightarrow> ('k, 'w) smap \<Rightarrow> bool" where
  "disjoint_keys m m' \<longleftrightarrow> (\<forall>k. may_load m k = None \<or> may_load m' k = None)"

lemma disjoint_keys_move [simp]:
  "disjoint_keys m m' \<Longrightarrow> disjoint_keys (save k v m) (remove k m')"
  "disjoint_keys m m' \<Longrightarrow> disjoint_keys (remove k m) (save k w m')"
  "disjoint_keys m []"
  by (auto simp: disjoint_keys_def)

definition registry_inv :: "registry_storage \<Rightarrow> bool" where
  "registry_inv s \<longleftrightarrow> r_config s \<noteq> None \<and> sorted_keys (r_registry s) \<and> sorted_keys (r_exclude s)
     \<and> disjoint_keys (r_registry s) (r_exclude s)"

lemma load_registry_config_Inr [outcome_simps]:
  "load_registry_config s = Inr c \<longleftrightarrow> r_config s = Some c"
  by (simp add: load_registry_config_def load_Inr)

lemma register_initial_keeps:
  assumes "register_initial d v s = Inr s'"
    and "r_config s \<noteq> None \<and> sorted_keys (r_registry s) \<and> r_exclude s = []"
  shows "r_config s' \<noteq> None \<and> sorted_keys (r_registry s') \<and> r_exclude s' = []"
  using assms unfolding register_initial_def
  by (elim and_then_InrE)
    (auto simp: sorted_keys_save split: sum.splits failure.splits option.splits)

lemma registry_instantiate_inv:
  assumes "registry_instantiate d info msg empty_registry_storage = Inr (r, s)"
  shows "registry_inv s"
proof -
  from assms obtain s0 where
    loop: "for_each (register_initial d) (vim_validators msg) s0 = Inr s"
    and s0: "r_config s0 \<noteq> None" "r_registry s0 = []" "r_exclude s0 = []"
    by (auto simp: registry_instantiate_def outcome_simps empty_registry_storage_def)
  have "r_config s \<noteq> None \<and> sorted_keys (r_registry s) \<and> r_exclude s = []"
    by (rule for_each_invariant [OF loop]) (use s0 register_initial_keeps in auto)
  then show ?thesis by (simp add: registry_inv_def)
qed

lemma registry_execute_inv:
  assumes "registry_execute d info msg s = Inr (r, s')" and "registry_inv s"
  shows "registry_inv s'"
proof (cases msg)
  case (AddValidator v)
  with assms show ?thesis
    by (auto simp: registry_execute_def add_validator_def outcome_simps registry_inv_def Let_def
        sorted_keys_save sorted_keys_remove split: if_splits option.splits)
next
  case (RemoveValidator a)
  with assms show ?thesis
    by (auto simp: registry_execute_def remove_validator_def outcome_simps registry_inv_def
        sorted_keys_save sorted_keys_remove split: if_splits)
next
  case (RegistryUpdateConfig x y)
  with assms show ?thesis
    by (auto simp: registry_execute_def update_registry_config_def outcome_simps registry_inv_def
        split: if_splits option.splits)
next
  case ProcessRedelegations
  with assms show ?thesis
    by (auto simp: registry_execute_def process_redelegations_def outcome_simps Let_def
        split: if_splits)
qed

inductive registry_initial :: "registry_storage \<Rightarrow> bool" where
  "registry_instantiate d info msg empty_registry_storage = Inr (r, s) \<Longrightarrow> registry_initial s"

inductive registry_step :: "registry_storage \<Rightarrow> registry_storage \<Rightarrow> bool" where
  registry_message: "registry_execute d info msg s = Inr (r, s') \<Longrightarrow> registry_step s s'"
| registry_migration: "registry_migrate d s = Inr (r, s') \<Longrightarrow> registry_step s s'"

inductive_cases registry_initialE: "registry_initial s"
inductive_cases registry_stepE: "registry_step s s'"

interpretation registry: invariant_of registry_initial registry_step registry_inv
proof
  show "registry_inv s" if "registry_initial s" for s
    using that by (auto elim!: registry_initialE intro: registry_instantiate_inv)
  show "registry_inv t" if "registry_inv s" "registry_step s t" for s t
    using that(2)
  proof cases
    case registry_message
    from registry_execute_inv [OF this that(1)] show ?thesis .
  next
    case registry_migration
    then obtain ci where "t = s\<lparr>r_contract_info := ci\<rparr>"
      by (auto simp: registry_migrate_def outcome_simps)
    with that(1) show ?thesis by (simp add: registry_inv_def)
  qed
qed

section \<open>Redelegation\<close>

lemma active_addresses:
  "vr_address ` set (active_delegations m reg) = (\<lambda>(_, v). validator_address v) ` set reg"
  by (auto simp: active_delegations_def image_iff split: prod.splits) force+

lemma mset_active_delegations:
  "mset (active_delegations m reg) = image_mset (\<lambda>(_, v).
     \<lparr>total_delegated = (case m (validator_address v) of None \<Rightarrow> 0 | Some c \<Rightarrow> coin_amount c),
      vr_address = validator_address v\<rparr>) (mset reg)"
  by (simp add: active_delegations_def)

lemma sorted_active_delegations: "sorted (map total_delegated (active_delegations m reg))"
  by (simp add: active_delegations_def)

lemma redelegations_to_total:
  "length ds = length vs \<Longrightarrow>
   (\<Sum>(_, c) \<leftarrow> redelegations_to denom vs ds. unat (coin_amount c)) = total_of ds"
  by (induction ds vs rule: list_induct2) (simp_all add: redelegations_to_def)

lemma redelegations_to_mem:
  assumes "(dst, c) \<in> set (redelegations_to denom vs ds)"
  shows "dst \<in> vr_address ` set vs \<and> coin_amount c \<noteq> 0 \<and> coin_denom c = denom"
  using assms by (auto simp: redelegations_to_def dest: set_zip_leftD)

text \<open>The delegations that have to move: of the excluded validators, in their order, those with a
  positive delegation.\<close>

definition moving :: "(string \<Rightarrow> coin option) \<Rightarrow> (string, bool) smap \<Rightarrow> (string \<times> coin) list" where
  "moving m excl = List.map_filter (\<lambda>(a, _). case m a of None \<Rightarrow> None
     | Some c \<Rightarrow> if coin_amount c = 0 then None else Some (a, c)) excl"

lemma moving_simps [simp]:
  "moving m [] = []"
  "moving m ((a, b) # excl) = (case m a of None \<Rightarrow> moving m excl
     | Some c \<Rightarrow> if coin_amount c = 0 then moving m excl else (a, c) # moving m excl)"
  by (auto simp: moving_def List.map_filter_def split: option.splits)

definition split_of :: "validator_response list \<Rightarrow> uint128 \<Rightarrow> uint128 list" where
  "split_of vs amt = projr (calculate_delegations amt vs)"

lemma redelegate_loop:
  assumes "for_each (redelegate_from hub m active) excl msgs = Inr msgs'"
  shows "msgs' = msgs @ map (\<lambda>(a, c). WasmExecute hub (HubPayload (RedelegateProxy a
      (redelegations_to (coin_denom c) active (split_of active (coin_amount c))))) [])
      (moving m excl)
    \<and> (\<forall>(a, c) \<in> set (moving m excl).
        calculate_delegations (coin_amount c) active = Inr (split_of active (coin_amount c)))"
  using assms
proof (induction excl arbitrary: msgs)
  case (Cons ab excl)
  obtain a b where ab: "ab = (a, b)" by force
  show ?case
  proof (cases "\<exists>c. m a = Some c \<and> coin_amount c \<noteq> 0")
    case True
    then obtain c where c: "m a = Some c" "coin_amount c \<noteq> 0" by blast
    from Cons.prems c obtain ds where
      ds: "calculate_delegations (coin_amount c) active = Inr ds"
      and rest: "for_each (redelegate_from hub m active) excl (msgs @ [WasmExecute hub (HubPayload
        (RedelegateProxy a (redelegations_to (coin_denom c) active ds))) []]) = Inr msgs'"
      by (auto simp: ab redelegate_from_def outcome_simps)
    from Cons.IH [OF rest] ds c show ?thesis
      by (simp add: ab split_of_def)
  next
    case False
    with Cons show ?thesis
      by (auto simp: ab redelegate_from_def split: option.splits)
  qed
qed simp

lemma process_redelegations_InrD:
  assumes "process_redelegations d s = Inr (r, s')" and "r_exclude s \<noteq> []"
  obtains config ds m active where "r_config s = Some config"
    "query_all_delegations d (vc_hub_contract config) = Inr ds" "m = delegations_by_validator ds"
    "active = active_delegations m (r_registry s)"
    "for_each (redelegate_from (vc_hub_contract config) m active) (r_exclude s) []
      = Inr (messages r)" "s' = s"
  using assms by (auto simp: process_redelegations_def outcome_simps Let_def response_new_def)

text \<open>What the map of delegations holds.\<close>

lemma fold_delegations_other:
  "a \<notin> del_validator ` set ds \<Longrightarrow>
   fold (\<lambda>del m. m(del_validator del \<mapsto> del_amount del)) ds m a = m a"
  by (induction ds arbitrary: m) auto

lemma delegations_by_validator_None:
  "a \<notin> del_validator ` set ds \<Longrightarrow> delegations_by_validator ds a = None"
  by (simp add: delegations_by_validator_def fold_delegations_other)

lemma delegations_by_validator_last:
  "a \<notin> del_validator ` set bs \<Longrightarrow> del_validator del = a \<Longrightarrow>
   delegations_by_validator (as @ del # bs) a = Some (del_amount del)"
  by (simp add: delegations_by_validator_def fold_delegations_other)

definition delegated_to :: "delegation list \<Rightarrow> string \<Rightarrow> nat" where
  "delegated_to ds a = (\<Sum>del \<leftarrow> ds. if del_validator del = a then unat (coin_amount (del_amount del)) else 0)"

lemma delegated_to_none: "a \<notin> del_validator ` set ds \<Longrightarrow> delegated_to ds a = 0"
  unfolding delegated_to_def by (induction ds) auto

lemma delegations_by_validator_sum:
  assumes "distinct (map del_validator ds)"
  shows "(case delegations_by_validator ds a of None \<Rightarrow> 0 | Some c \<Rightarrow> unat (coin_amount c))
    = delegated_to ds a"
proof (cases "a \<in> del_validator ` set ds")
  case False
  then show ?thesis by (simp add: delegations_by_validator_None delegated_to_none)
next
  case True
  then obtain as del bs where ds: "ds = as @ del # bs" "del_validator del = a"
    by (metis image_iff in_set_conv_decomp)
  with assms have other: "a \<notin> del_validator ` set as" "a \<notin> del_validator ` set bs" by auto
  have "delegated_to ds a = delegated_to as a + unat (coin_amount (del_amount del)) + delegated_to bs a"
    using ds(2) by (simp add: delegated_to_def ds(1))
  with other ds show ?thesis
    by (simp add: delegated_to_none delegations_by_validator_last)
qed

section \<open>Properties\<close>

text \<open>
  In every reachable state of the registry the configuration is there, both maps are in key
  order, and no operator address is registered and excluded at the same time, whatever is added,
  removed and added again.
\<close>

theorem registry_reachable_inv:
  assumes "reachable registry_initial registry_step s"
  shows "r_config s \<noteq> None \<and> sorted_keys (r_registry s) \<and> sorted_keys (r_exclude s)
    \<and> (may_load (r_registry s) a = None \<or> may_load (r_exclude s) a = None)"
  using registry.inv_reachable [OF assms] by (simp add: registry_inv_def disjoint_keys_def)

text \<open>
  C30: Processing the redelegations sends the hub, for every excluded validator with a positive
  delegation and for no other, in the order of their addresses, one \<open>RedelegateProxy\<close> message
  whose amounts are positive, go to registered validators only, are in the delegation's
  denomination and sum to exactly the delegation. The registry's own state is unchanged.
\<close>

theorem redelegations_move_everything:
  assumes "process_redelegations d s = Inr (r, s')" and "r_config s = Some config"
    and "query_all_delegations d (vc_hub_contract config) = Inr ds"
  shows "s' = s \<and> (\<exists>reds. messages r = map (\<lambda>(a, c). WasmExecute (vc_hub_contract config)
        (HubPayload (RedelegateProxy a (reds a c))) [])
        (moving (delegations_by_validator ds) (r_exclude s))
    \<and> (\<forall>(a, c) \<in> set (moving (delegations_by_validator ds) (r_exclude s)).
        (\<Sum>(_, c') \<leftarrow> reds a c. unat (coin_amount c')) = unat (coin_amount c)
        \<and> (\<forall>(dst, c') \<in> set (reds a c). coin_amount c' \<noteq> 0 \<and> coin_denom c' = coin_denom c
            \<and> dst \<in> (\<lambda>(_, v). validator_address v) ` set (r_registry s))))"
proof (cases "r_exclude s = []")
  case True
  with assms(1) have "s' = s" "messages r = []"
    by (auto simp: process_redelegations_def response_new_def)
  then show ?thesis by (simp add: True)
next
  case False
  let ?m = "delegations_by_validator ds"
  let ?active = "active_delegations ?m (r_registry s)"
  let ?reds = "\<lambda>a c. redelegations_to (coin_denom c) ?active (split_of ?active (coin_amount c))"
  have loop: "for_each (redelegate_from (vc_hub_contract config) ?m ?active) (r_exclude s) []
      = Inr (messages r)" and "s' = s"
    by (rule process_redelegations_InrD [OF assms(1) False]; use assms(2,3) in simp)+
  note loop = redelegate_loop [OF loop]
  have each: "(\<Sum>(_, c') \<leftarrow> ?reds a c. unat (coin_amount c')) = unat (coin_amount c)
      \<and> (\<forall>(dst, c') \<in> set (?reds a c). coin_amount c' \<noteq> 0 \<and> coin_denom c' = coin_denom c
          \<and> dst \<in> (\<lambda>(_, v). validator_address v) ` set (r_registry s))"
    if "(a, c) \<in> set (moving ?m (r_exclude s))" for a c
  proof -
    from loop that have "calculate_delegations (coin_amount c) ?active
        = Inr (split_of ?active (coin_amount c))" by blast
    with delegations.split_length [OF this] delegations.split_total [OF this] show ?thesis
      unfolding active_addresses [of ?m, symmetric]
      by (auto simp: redelegations_to_total dest: redelegations_to_mem)
  qed
  show ?thesis
  proof (intro conjI exI [of _ ?reds] ballI)
    show "messages r = map (\<lambda>(a, c). WasmExecute (vc_hub_contract config)
        (HubPayload (RedelegateProxy a (?reds a c))) []) (moving ?m (r_exclude s))"
      using loop by simp
    fix x assume mem: "x \<in> set (moving ?m (r_exclude s))"
    obtain a c where x: "x = (a, c)" by force
    show "case x of (a, c) \<Rightarrow>
        (\<Sum>(_, c') \<leftarrow> ?reds a c. unat (coin_amount c')) = unat (coin_amount c)
        \<and> (\<forall>(dst, c') \<in> set (?reds a c). coin_amount c' \<noteq> 0 \<and> coin_denom c' = coin_denom c
            \<and> dst \<in> (\<lambda>(_, v). validator_address v) ` set (r_registry s))"
      unfolding x prod.case by (rule each) (use mem x in simp)
  qed (rule \<open>s' = s\<close>)
qed

text \<open>
  The registry reports to the hub exactly its validators, each once, with what the hub has
  delegated to it (nothing for a validator the chain's answer does not mention), in ascending
  order of the delegated amount.
\<close>

theorem registry_reports_delegations:
  assumes "query_validators d s = Inr vs" and "r_config s = Some config"
    and "query_all_delegations d (vc_hub_contract config) = Inr ds"
    and "distinct (map del_validator ds)"
  shows "sorted (map total_delegated vs)
    \<and> image_mset vr_address (mset vs) = image_mset (\<lambda>(_, v). validator_address v) (mset (r_registry s))
    \<and> (\<forall>v \<in> set vs. unat (total_delegated v) = delegated_to ds (vr_address v))"
proof -
  let ?m = "delegations_by_validator ds"
  have vs: "vs = active_delegations ?m (r_registry s)"
    using assms(1-3) by (auto simp: query_validators_def outcome_simps)
  have "unat (case ?m a of None \<Rightarrow> 0 | Some c \<Rightarrow> coin_amount c) = delegated_to ds a" for a
    using delegations_by_validator_sum [OF assms(4), of a] by (simp split: option.splits)
  then have "\<forall>v \<in> set vs. unat (total_delegated v) = delegated_to ds (vr_address v)"
    unfolding vs active_delegations_def by auto
  moreover have "image_mset vr_address (mset vs)
      = image_mset (\<lambda>(_, v). validator_address v) (mset (r_registry s))"
    unfolding vs mset_active_delegations image_mset.compositionality
    by (rule image_mset_cong) auto
  ultimately show ?thesis
    using sorted_active_delegations vs by blast
qed


text \<open>
  Removing the last validator is not refused (the error \<open>LastValidatorRemovalNotAllowed\<close> is
  never raised): afterwards the registry is empty, the hub is told of no validator, and while a
  delegation to the removed one is left every attempt to process the redelegations panics.
\<close>

theorem last_validator_removable:
  assumes "r_config s = Some config" and "info_sender info = vc_owner config"
    and "convert_addr_by_prefix d a VALIDATOR_ADDR_PREFIX = (Inr op :: string lst_result)"
    and "r_registry s = [(op, v)]" and "r_exclude s = []"
    and "query_all_delegations d (vc_hub_contract config) = Inr ds"
    and "delegations_by_validator ds op = Some c" and "coin_amount c \<noteq> 0"
  shows "\<exists>r s'. registry_execute d info (RemoveValidator a) s = Inr (r, s')
    \<and> query_validators d s' = Inr []
    \<and> registry_execute d info' ProcessRedelegations s' = Inl (Panic UnwrapFailed)"
proof -
  let ?s' = "s\<lparr>r_registry := [], r_exclude := [(op, True)]\<rparr>"
  have "\<exists>r. registry_execute d info (RemoveValidator a) s = Inr (r, ?s')"
    using assms by (simp add: registry_execute_def remove_validator_def load_registry_config_def
        remove_def)
  moreover have "query_validators d ?s' = Inr []"
    using assms by (simp add: query_validators_def load_registry_config_def query_std_def
        from_err_def active_delegations_def)
  moreover have "registry_execute d info' ProcessRedelegations ?s' = Inl (Panic UnwrapFailed)"
    using assms by (simp add: registry_execute_def process_redelegations_def
        load_registry_config_def query_std_def from_err_def active_delegations_def
        redelegate_from_def validator_err_def)
  ultimately show ?thesis by blast
qed

text \<open>
  A validator that is added by its account address is invisible. \<open>AddValidator\<close> stores the
  validator as it was given under the operator address the chain answered, where instantiation
  stores the operator address itself; the hub's delegations name operator addresses, so the
  added validator is reported with nothing delegated, under an address that is not the chain's.
\<close>

theorem added_account_address_unseen:
  assumes "registry_execute d info (AddValidator (ValidatorEntry account)) s = Inr (r, s')"
    and "convert_addr_by_prefix d account VALIDATOR_ADDR_PREFIX = (Inr op :: string lst_result)"
    and "query_validator d op = Inr (Some op)"
    and "query_validators d s' = Inr vs" and "r_config s = Some config"
    and "query_all_delegations d (vc_hub_contract config) = Inr ds"
    and "account \<notin> del_validator ` set ds"
  shows "\<lparr>total_delegated = 0, vr_address = account\<rparr> \<in> set vs
    \<and> (\<exists>s''. register_initial d (ValidatorEntry account) s = Inr s''
        \<and> may_load (r_registry s'') op = Some (ValidatorEntry op))"
proof -
  have s': "r_registry s' = save op (ValidatorEntry account) (r_registry s)" "r_config s' = Some config"
    using assms(1-3,5) by (auto simp: registry_execute_def add_validator_def outcome_simps
        fetch_validator_info_def split: if_splits)
  have "(op, ValidatorEntry account) \<in> set (r_registry s')"
    by (simp add: s'(1) in_set_save)
  moreover have "vs = active_delegations (delegations_by_validator ds) (r_registry s')"
    using assms(4,6) s'(2) by (auto simp: query_validators_def outcome_simps)
  ultimately have "\<lparr>total_delegated = 0, vr_address = account\<rparr> \<in> set vs"
    using delegations_by_validator_None [OF assms(7)]
    by (auto simp: active_delegations_def image_iff intro!: bexI [of _ "(op, ValidatorEntry account)"])
  moreover have "\<exists>s''. register_initial d (ValidatorEntry account) s = Inr s''
      \<and> may_load (r_registry s'') op = Some (ValidatorEntry op)"
    using assms(2,3) by (simp add: register_initial_def fetch_validator_info_def query_std_def from_err_def)
  ultimately show ?thesis by blast
qed

section \<open>Witnesses\<close>

text \<open>The chain knows both validators by their operator addresses; the account addresses have
  another prefix. One validator is registered, the other was removed and still holds 500.\<close>

definition sample_chain :: deps where
  "sample_chain = sample_deps\<lparr>
     bech32_encode := (\<lambda>h a. Some (if a = ''acct1'' then ''val1'' else a)),
     query_validator := (\<lambda>a. Inr (if a = ''val1'' \<or> a = ''val2'' then Some a else None))\<rparr>"

definition sample_registry_config :: registry_config where
  "sample_registry_config = \<lparr>vc_owner = sample_owner, vc_hub_contract = sample_hub_addr\<rparr>"

definition sample_registered :: registry_storage where
  "sample_registered = \<lparr>r_config = Some sample_registry_config,
     r_registry = [(''val2'', ValidatorEntry ''val2'')], r_exclude = [(''val1'', True)],
     r_contract_info = None\<rparr>"

definition sample_alone :: registry_storage where
  "sample_alone = sample_registered\<lparr>r_exclude := []\<rparr>"

lemmas registry_eval = registry_execute_def add_validator_def remove_validator_def
  process_redelegations_def update_registry_config_def load_registry_config_def
  convert_addr_by_prefix_def expect_def fetch_validator_info_def query_validators_def
  registry_instantiate_def register_initial_def to_checked_address_def
  active_delegations_def delegations_by_validator_def redelegate_from_def redelegations_to_def
  sample_chain_def sample_registry_config_def sample_registered_def sample_alone_def
  empty_registry_storage_def remove_def fold_simps from_err_def

lemma registry_runs:
  obtains r s r' s' where "registry_instantiate sample_chain (by_user sample_owner [])
      \<lparr>vim_validators = [ValidatorEntry ''val1'', ValidatorEntry ''val2'', ValidatorEntry ''val3''],
       vim_hub_contract = sample_hub_addr\<rparr> empty_registry_storage = Inr (r, s)"
    "registry_execute sample_chain (by_user sample_owner []) (RemoveValidator ''val1'') s = Inr (r', s')"
    "r_registry s' = [(''val2'', ValidatorEntry ''val2'')]" "r_exclude s' = [(''val1'', True)]"
  by (simp add: registry_eval storage_eval sample_defs)

lemma registry_reachable_inv_witness:
  "\<exists>s. reachable registry_initial registry_step s \<and> may_load (r_exclude s) ''val1'' = Some True
    \<and> may_load (r_registry s) ''val1'' = None"
proof -
  obtain s where "reachable registry_initial registry_step s" "r_exclude s = [(''val1'', True)]"
    by (rule registry_runs) (blast intro: reachable.intros registry_initial.intros registry_message)
  with registry_reachable_inv [OF this(1), of "''val1''"] show ?thesis
    by (auto simp: may_load_def)
qed

lemma redelegations_move_everything_witness:
  "\<exists>r reds. process_redelegations sample_chain sample_registered = Inr (r, sample_registered)
    \<and> messages r = [WasmExecute sample_hub_addr (HubPayload (RedelegateProxy ''val1'' reds)) []]
    \<and> (\<Sum>(_, c) \<leftarrow> reds. unat (coin_amount c)) = 500"
proof -
  obtain r s' where run: "process_redelegations sample_chain sample_registered = Inr (r, s')"
    by (simp add: registry_eval storage_eval sample_defs split_eval cong: eval_cong)
  have items: "r_config sample_registered = Some sample_registry_config"
    "query_all_delegations sample_chain (vc_hub_contract sample_registry_config)
      = Inr [\<lparr>del_validator = ''val1'', del_amount = bbn 500\<rparr>,
             \<lparr>del_validator = ''val2'', del_amount = bbn 400\<rparr>]"
    by (simp_all add: registry_eval sample_deps_def)
  have moving: "moving (delegations_by_validator [\<lparr>del_validator = ''val1'', del_amount = bbn 500\<rparr>,
      \<lparr>del_validator = ''val2'', del_amount = bbn 400\<rparr>]) (r_exclude sample_registered)
      = [(''val1'', bbn 500)]"
    by (simp add: registry_eval bbn_def)
  from redelegations_move_everything [OF run items, unfolded moving] run
  show ?thesis by (auto simp: sample_registry_config_def bbn_def)
qed

lemma registry_reports_delegations_witness:
  "\<exists>vs. query_validators sample_chain sample_registered = Inr vs
    \<and> image_mset vr_address (mset vs) = {#''val2''#} \<and> sorted (map total_delegated vs)"
proof -
  obtain vs where vs: "query_validators sample_chain sample_registered = Inr vs"
    by (simp add: registry_eval storage_eval sample_defs)
  have items: "r_config sample_registered = Some sample_registry_config"
    "query_all_delegations sample_chain (vc_hub_contract sample_registry_config)
      = Inr [\<lparr>del_validator = ''val1'', del_amount = bbn 500\<rparr>,
             \<lparr>del_validator = ''val2'', del_amount = bbn 400\<rparr>]"
    by (simp_all add: registry_eval sample_deps_def)
  from registry_reports_delegations [OF vs items] vs show ?thesis
    by (simp add: sample_registered_def)
qed

lemma last_validator_removable_witness:
  "\<exists>r s'. registry_execute sample_chain (by_user sample_owner []) (RemoveValidator ''val2'') sample_alone
      = Inr (r, s')
    \<and> query_validators sample_chain s' = Inr []
    \<and> registry_execute sample_chain (by_user alice []) ProcessRedelegations s' = Inl (Panic UnwrapFailed)"
proof -
  let ?ds = "[\<lparr>del_validator = ''val1'', del_amount = bbn 500\<rparr>,
    \<lparr>del_validator = ''val2'', del_amount = bbn 400\<rparr>]"
  have "r_config sample_alone = Some sample_registry_config"
    "info_sender (by_user sample_owner []) = vc_owner sample_registry_config"
    "convert_addr_by_prefix sample_chain ''val2'' VALIDATOR_ADDR_PREFIX = (Inr ''val2'' :: string lst_result)"
    "r_registry sample_alone = [(''val2'', ValidatorEntry ''val2'')]" "r_exclude sample_alone = []"
    "query_all_delegations sample_chain (vc_hub_contract sample_registry_config) = Inr ?ds"
    "delegations_by_validator ?ds ''val2'' = Some (bbn 400)" "coin_amount (bbn 400) \<noteq> 0"
    by (simp_all add: registry_eval sample_defs)
  from last_validator_removable [OF this] show ?thesis .
qed

lemma added_account_address_unseen_witness:
  "\<exists>r s' vs. registry_execute sample_chain (by_user sample_owner [])
      (AddValidator (ValidatorEntry ''acct1'')) sample_registered = Inr (r, s')
    \<and> query_validators sample_chain s' = Inr vs
    \<and> \<lparr>total_delegated = 0, vr_address = ''acct1''\<rparr> \<in> set vs"
proof -
  obtain r s' vs where run: "registry_execute sample_chain (by_user sample_owner [])
      (AddValidator (ValidatorEntry ''acct1'')) sample_registered = Inr (r, s')"
    and vs: "query_validators sample_chain s' = Inr vs"
    by (simp add: registry_eval storage_eval sample_defs)
  have conv: "convert_addr_by_prefix sample_chain ''acct1'' VALIDATOR_ADDR_PREFIX
      = (Inr ''val1'' :: string lst_result)" "query_validator sample_chain ''val1'' = Inr (Some ''val1'')"
    by (simp_all add: registry_eval sample_defs)
  have items: "r_config sample_registered = Some sample_registry_config"
    "query_all_delegations sample_chain (vc_hub_contract sample_registry_config)
      = Inr [\<lparr>del_validator = ''val1'', del_amount = bbn 500\<rparr>,
             \<lparr>del_validator = ''val2'', del_amount = bbn 400\<rparr>]"
    by (simp_all add: registry_eval sample_deps_def)
  from added_account_address_unseen [OF run conv vs items] run vs show ?thesis by auto
qed

end
