(* ===== verification/Dispatcher.thy ===== *)
theory Dispatcher
  imports Sample_World
begin

text \<open>
  The reward dispatcher (\<open>contracts/lst_reward_dispatcher/src\<close>): it holds the rewards of the hub,
  takes a fee and sends the rest back to the hub to be staked.
\<close>

section \<open>The code\<close>

definition DISPATCHER_CONTRACT_NAME :: string where
  "DISPATCHER_CONTRACT_NAME = ''crates.io:lst_reward_dispatcher''"
definition DISPATCHER_CONTRACT_VERSION :: string where
  "DISPATCHER_CONTRACT_VERSION = ''1.0.0''"

definition MAX_FEE_RATE :: decimal where
  "MAX_FEE_RATE = Decimal 300000000000000000"

record dispatcher_storage =
  d_config :: "rewards_config option"
  d_contract_info :: "(string \<times> string) option"

definition empty_dispatcher_storage :: dispatcher_storage where
  "empty_dispatcher_storage = \<lparr>d_config = None, d_contract_info = None\<rparr>"

definition dispatcher_instantiate ::
    "deps \<Rightarrow> message_info \<Rightarrow> rewards_instantiate_msg \<Rightarrow> dispatcher_storage
     \<Rightarrow> (response \<times> dispatcher_storage) lst_result" where
  "dispatcher_instantiate d info msg s =
     and_then (from_err (\<lambda>_. FailedToInitContract)
       (set_contract_version d DISPATCHER_CONTRACT_NAME DISPATCHER_CONTRACT_VERSION
          (d_contract_info s))) (\<lambda>contract_info.
     if MAX_FEE_RATE < rim_fee_rate msg then Inl (Err InvalidFeeRate) else
     and_then (to_checked_address d (rim_hub_contract msg)) (\<lambda>hub_contract.
     and_then (to_checked_address d (rim_fee_addr msg)) (\<lambda>fee_addr.
     let config = \<lparr>rc_owner = info_sender info, rc_hub_contract = hub_contract,
           rc_reward_denom = rim_reward_denom msg, rc_fee_addr = fee_addr,
           rc_fee_rate = rim_fee_rate msg\<rparr> in
     Inr (response_new, s\<lparr>d_config := Some config, d_contract_info := contract_info\<rparr>))))"

definition query_rewards_config :: "dispatcher_storage \<Rightarrow> rewards_config lst_result" where
  "query_rewards_config s = load ''config'' (d_config s)"

definition is_authorized_owner :: "dispatcher_storage \<Rightarrow> addr \<Rightarrow> unit lst_result" where
  "is_authorized_owner s sender =
     and_then (load ''config'' (d_config s)) (\<lambda>config.
     if sender \<noteq> rc_owner config then unauthorized else Inr ())"

text \<open>\<open>if let Some(a) = opt { field = to_checked_address(a)?; }\<close>\<close>

definition checked_or :: "deps \<Rightarrow> addr \<Rightarrow> string option \<Rightarrow> addr lst_result" where
  "checked_or d old new = (case new of None \<Rightarrow> Inr old | Some a \<Rightarrow> to_checked_address d a)"

definition update_rewards_config ::
    "deps \<Rightarrow> message_info \<Rightarrow> string option \<Rightarrow> string option \<Rightarrow> string option \<Rightarrow> decimal option
     \<Rightarrow> dispatcher_storage \<Rightarrow> (response \<times> dispatcher_storage) lst_result" where
  "update_rewards_config d info new_owner hub_contract fee_addr fee_rate s =
     and_then (is_authorized_owner s (info_sender info)) (\<lambda>_.
     and_then (case fee_rate of
         Some rate \<Rightarrow> if MAX_FEE_RATE < rate then Inl (Err InvalidFeeRate) else Inr ()
       | None \<Rightarrow> Inr ()) (\<lambda>_.
     and_then (query_rewards_config s) (\<lambda>config.
     and_then (checked_or d (rc_owner config) new_owner) (\<lambda>ow.
     and_then (checked_or d (rc_hub_contract config) hub_contract) (\<lambda>hub.
     and_then (checked_or d (rc_fee_addr config) fee_addr) (\<lambda>fa.
     let config' = config\<lparr>rc_owner := ow, rc_hub_contract := hub, rc_fee_addr := fa,
           rc_fee_rate := (case fee_rate of None \<Rightarrow> rc_fee_rate config | Some rate \<Rightarrow> rate)\<rparr> in
     Inr (response_new, s\<lparr>d_config := Some config'\<rparr>)))))))"

definition compute_fee :: "deps \<Rightarrow> uint128 \<Rightarrow> decimal \<Rightarrow> uint128 lst_result" where
  "compute_fee d amount fee_rate =
     and_then (or_panic (decimal_from_ratio d amount 1)) (\<lambda>ratio.
     and_then (or_panic (decimal_mul d ratio fee_rate)) (\<lambda>fee.
     or_panic (decimal_to_uint_ceil d fee)))"

definition execute_dispatch_rewards ::
    "deps \<Rightarrow> env \<Rightarrow> message_info \<Rightarrow> dispatcher_storage
     \<Rightarrow> (response \<times> dispatcher_storage) lst_result" where
  "execute_dispatch_rewards d e info s =
     and_then (query_rewards_config s) (\<lambda>config.
     let hub_addr = rc_hub_contract config in
     and_then (is_paused d hub_addr) (\<lambda>is_hub_paused.
     if is_hub_paused then Inl (Err HubPaused) else
     if hub_addr \<noteq> info_sender info then unauthorized else
     and_then (query_std (query_balance d (contract_address e) (rc_reward_denom config))) (\<lambda>rewards.
     and_then (compute_fee d (coin_amount rewards) (rc_fee_rate config)) (\<lambda>reward_fee_amt.
     let fee_coin = \<lparr>coin_denom = rc_reward_denom config, coin_amount = reward_fee_amt\<rparr>;
         fee_msgs = (if reward_fee_amt \<noteq> 0 then [BankSend (rc_fee_addr config) [fee_coin]] else []);
         attrs = (if reward_fee_amt \<noteq> 0 then [(''fee'', coin_to_string d fee_coin)] else []) in
     and_then (checked_sub_or_overflow (coin_amount rewards) reward_fee_amt) (\<lambda>left.
     let rewards' = rewards\<lparr>coin_amount := left\<rparr>;
         msgs = fee_msgs @ (if left \<noteq> 0
           then [WasmExecute hub_addr (HubPayload StakeRewards) [rewards']] else []) in
     Inr (response_new\<lparr>messages := msgs, attributes :=
            [(''action'', ''claim_rewards''), (''reward_amt'', coin_to_string d rewards')] @ attrs\<rparr>,
          s))))))"

definition dispatcher_execute ::
    "deps \<Rightarrow> env \<Rightarrow> message_info \<Rightarrow> rewards_execute_msg \<Rightarrow> dispatcher_storage
     \<Rightarrow> (response \<times> dispatcher_storage) lst_result" where
  "dispatcher_execute d e info msg s =
     (case msg of
        DispatchRewards \<Rightarrow> execute_dispatch_rewards d e info s
      | RewardsUpdateConfig ow hub_contract fee_addr fee_rate \<Rightarrow>
          update_rewards_config d info ow hub_contract fee_addr fee_rate s)"

fun dispatcher_query :: "rewards_query_msg \<Rightarrow> dispatcher_storage \<Rightarrow> rewards_config lst_result" where
  "dispatcher_query RewardsConfig s = query_rewards_config s"

definition dispatcher_migrate ::
    "deps \<Rightarrow> dispatcher_storage \<Rightarrow> (response \<times> dispatcher_storage) lst_result" where
  "dispatcher_migrate d s =
     and_then (query_std (ensure_from_older_version d DISPATCHER_CONTRACT_NAME
       DISPATCHER_CONTRACT_VERSION (d_contract_info s))) (\<lambda>contract_info.
     Inr (response_new, s\<lparr>d_contract_info := contract_info\<rparr>))"

section \<open>The fee\<close>

text \<open>The least integer not below \<open>amount * rate\<close>.\<close>

definition fee_of :: "uint128 \<Rightarrow> decimal \<Rightarrow> nat" where
  "fee_of amount rate = (unat amount * unat (atomics rate) + (10 ^ 18 - 1)) div 10 ^ 18"

lemma compute_fee_exact:
  assumes laws: "decimal_ratio_law d" "decimal_mul_law d" "decimal_ceil_law d"
    and rate: "rate \<le> decimal_one"
  shows "if unat amount * 10 ^ 18 < 2 ^ 128
    then \<exists>fee. compute_fee d amount rate = Inr fee \<and> unat fee = fee_of amount rate
      \<and> unat fee \<le> unat amount
    else compute_fee d amount rate = Inl (Panic ArithmeticOverflow)"
proof (cases "unat amount * 10 ^ 18 < 2 ^ 128")
  case True
  let ?p = "unat amount * unat (atomics rate)"
  have rate: "unat (atomics rate) \<le> 10 ^ 18"
    using rate by (simp add: less_eq_decimal_def decimal_one_def word_le_nat_alt)
  then have p: "?p \<le> unat amount * 10 ^ 18"
    by (rule mult_le_mono2)
  obtain r where ratio: "decimal_from_ratio d amount 1 = Inr r"
    using laws(1) True by (simp add: decimal_ratio_law_def)
  have "unat (atomics r) = unat amount * 10 ^ 18"
    using decimal_ratioD(2) [OF laws(1) ratio] by simp
  then have prod: "unat (atomics r) * unat (atomics rate) div 10 ^ 18 = ?p"
    by (simp only: mult.assoc mult.left_commute [of _ "10 ^ 18"]) simp
  have fits: "?p < 2 ^ 128"
    using p True by linarith
  obtain q where mul: "decimal_mul d r rate = Inr q"
    using laws(2) fits unfolding decimal_mul_law_def prod [symmetric] by metis
  have q: "unat (atomics q) = ?p"
    using decimal_mulD [OF laws(2) mul] prod by simp
  have le: "(?p + (10 ^ 18 - 1)) div 10 ^ 18 \<le> unat amount"
  proof -
    have "(?p + (10 ^ 18 - 1)) div 10 ^ 18 \<le> (unat amount * 10 ^ 18 + (10 ^ 18 - 1)) div 10 ^ 18"
      using p by (intro div_le_mono) simp
    also have "\<dots> = unat amount" by simp
    finally show ?thesis .
  qed
  have "compute_fee d amount rate = Inr (of_nat ((?p + (10 ^ 18 - 1)) div 10 ^ 18))"
    using laws(3) by (simp add: compute_fee_def ratio mul or_panic_def decimal_ceil_law_def q)
  moreover have "(?p + (10 ^ 18 - 1)) div 10 ^ 18 < 2 ^ 128"
    using le unat_less128 [of amount] by linarith
  ultimately show ?thesis
    using True le by (simp add: fee_of_def unat_of_nat)
next
  case False
  with laws(1) show ?thesis
    by (simp add: compute_fee_def decimal_ratio_law_def or_panic_def)
qed

section \<open>The fee rate stays bounded\<close>

definition fee_bounded :: "dispatcher_storage \<Rightarrow> bool" where
  "fee_bounded s \<longleftrightarrow> (\<exists>c. d_config s = Some c \<and> rc_fee_rate c \<le> MAX_FEE_RATE)"

inductive dispatcher_initial :: "dispatcher_storage \<Rightarrow> bool" where
  "dispatcher_instantiate d info msg empty_dispatcher_storage = Inr (r, s) \<Longrightarrow> dispatcher_initial s"

inductive dispatcher_step :: "dispatcher_storage \<Rightarrow> dispatcher_storage \<Rightarrow> bool" where
  dispatcher_message: "dispatcher_execute d e info msg s = Inr (r, s') \<Longrightarrow> dispatcher_step s s'"
| dispatcher_migration: "dispatcher_migrate d s = Inr (r, s') \<Longrightarrow> dispatcher_step s s'"

inductive_cases dispatcher_initialE: "dispatcher_initial s"
inductive_cases dispatcher_stepE: "dispatcher_step s s'"

lemma dispatch_keeps_state: "execute_dispatch_rewards d e info s = Inr (r, s') \<Longrightarrow> s' = s"
  unfolding execute_dispatch_rewards_def by (elim outcome_elims) (auto simp: Let_def outcome_simps split: if_splits)

lemma update_rewards_config_bounded:
  assumes "update_rewards_config d info ow hub fa rate s = Inr (r, s')" and "fee_bounded s"
  shows "fee_bounded s'"
  using assms unfolding update_rewards_config_def
  by (elim outcome_elims)
    (auto simp: fee_bounded_def query_rewards_config_def outcome_simps split: option.splits if_splits)

interpretation dispatcher: invariant_of dispatcher_initial dispatcher_step fee_bounded
proof
  show "fee_bounded s" if "dispatcher_initial s" for s
    using that
    by (auto elim!: dispatcher_initialE simp: dispatcher_instantiate_def outcome_simps fee_bounded_def
        Let_def not_less split: if_splits)
  show "fee_bounded t" if "fee_bounded s" "dispatcher_step s t" for s t
    using that(2)
  proof cases
    case (dispatcher_message d e info msg r)
    with that(1) show ?thesis
      by (cases msg) (auto simp: dispatcher_execute_def dest: dispatch_keeps_state
          update_rewards_config_bounded)
  next
    case dispatcher_migration
    with that(1) show ?thesis
      by (auto simp: dispatcher_migrate_def outcome_simps fee_bounded_def)
  qed
qed

lemma fee_of_mono: "rate \<le> rate' \<Longrightarrow> fee_of a rate \<le> fee_of a rate'"
  by (simp add: fee_of_def less_eq_decimal_def word_le_nat_alt div_le_mono)

lemma fee_of_max: "fee_of a MAX_FEE_RATE = (3 * unat a + 9) div 10"
proof -
  have "unat a * 300000000000000000 + (10 ^ 18 - 1) = (3 * unat a + 9) * 10 ^ 17 + (10 ^ 17 - 1)"
    by simp
  then have "fee_of a MAX_FEE_RATE = ((3 * unat a + 9) * 10 ^ 17 + (10 ^ 17 - 1)) div 10 ^ 17 div 10"
    by (simp add: fee_of_def MAX_FEE_RATE_def div_mult2_eq [symmetric])
  also have "((3 * unat a + 9) * 10 ^ 17 + (10 ^ 17 - 1)) div 10 ^ 17 = 3 * unat a + 9"
    by simp
  finally show ?thesis .
qed

section \<open>Properties\<close>

text \<open>
  C32: In every reachable state of the dispatcher the fee rate is at most 30 per cent, whatever the
  owner sets, so the fee on any amount is at most 30 per cent of it, rounded up. (Exactly 30 per
  cent is accepted, although the error text asks for less.)
\<close>

theorem dispatcher_fee_bounded:
  assumes "reachable dispatcher_initial dispatcher_step s"
  shows "\<exists>c. d_config s = Some c \<and> unat (atomics (rc_fee_rate c)) \<le> 3 * 10 ^ 17
    \<and> (\<forall>amount. fee_of amount (rc_fee_rate c) \<le> (3 * unat amount + 9) div 10)"
proof -
  obtain c where c: "d_config s = Some c" "rc_fee_rate c \<le> MAX_FEE_RATE"
    using dispatcher.inv_reachable [OF assms] by (auto simp: fee_bounded_def)
  moreover have "unat (atomics (rc_fee_rate c)) \<le> 3 * 10 ^ 17"
    using c(2) by (simp add: less_eq_decimal_def MAX_FEE_RATE_def word_le_nat_alt)
  ultimately show ?thesis
    using fee_of_mono [OF c(2)] by (simp add: fee_of_max)
qed

text \<open>
  C31: What dispatching does, completely. A paused hub is an error, another sender than the hub is
  unauthorised, and a balance of \<open>2^128 / 10^18\<close> or more panics (its ratio to one does not fit a
  decimal). Otherwise it succeeds: the fee is the balance times the rate rounded up, it goes to
  the fee address, the rest goes to the hub as staked rewards, the two add up to the balance
  exactly, and zero amounts are not sent.
\<close>

theorem dispatch_rewards_exact:
  assumes "decimal_ratio_law d" and "decimal_mul_law d" and "decimal_ceil_law d"
    and "d_config s = Some c" and "rc_fee_rate c \<le> MAX_FEE_RATE"
    and "query_hub_parameters d (rc_hub_contract c) = Inr params"
    and "query_balance d (contract_address e) (rc_reward_denom c) = Inr rewards"
  shows "if paused params then dispatcher_execute d e info DispatchRewards s = Inl (Err HubPaused)
    else if info_sender info \<noteq> rc_hub_contract c
      then dispatcher_execute d e info DispatchRewards s = Inl (Err Unauthorized)
    else if 2 ^ 128 \<le> unat (coin_amount rewards) * 10 ^ 18
      then dispatcher_execute d e info DispatchRewards s = Inl (Panic ArithmeticOverflow)
    else \<exists>r fee left. dispatcher_execute d e info DispatchRewards s = Inr (r, s)
      \<and> unat fee = fee_of (coin_amount rewards) (rc_fee_rate c)
      \<and> unat fee + unat left = unat (coin_amount rewards)
      \<and> messages r =
          (if fee = 0 then [] else [BankSend (rc_fee_addr c)
             [\<lparr>coin_denom = rc_reward_denom c, coin_amount = fee\<rparr>]])
          @ (if left = 0 then [] else [WasmExecute (rc_hub_contract c) (HubPayload StakeRewards)
             [rewards\<lparr>coin_amount := left\<rparr>]])"
proof -
  have "MAX_FEE_RATE \<le> decimal_one"
    by (simp add: less_eq_decimal_def MAX_FEE_RATE_def decimal_one_def)
  with assms(5) have rate: "rc_fee_rate c \<le> decimal_one" by simp
  have open_hub: "is_paused d (rc_hub_contract c) = Inr (paused params)"
    using assms(6) by (simp add: is_paused_def query_std_def from_err_def)
  note fee = compute_fee_exact [OF assms(1-3) rate, of "coin_amount rewards"]
  consider (paused) "paused params" | (stranger) "\<not> paused params" "info_sender info \<noteq> rc_hub_contract c"
    | (huge) "\<not> paused params" "info_sender info = rc_hub_contract c"
        "2 ^ 128 \<le> unat (coin_amount rewards) * 10 ^ 18"
    | (fits) "\<not> paused params" "info_sender info = rc_hub_contract c"
        "unat (coin_amount rewards) * 10 ^ 18 < 2 ^ 128"
    by linarith
  then show ?thesis
  proof cases
    case fits
    with fee obtain f where f: "compute_fee d (coin_amount rewards) (rc_fee_rate c) = Inr f"
      "unat f = fee_of (coin_amount rewards) (rc_fee_rate c)" "unat f \<le> unat (coin_amount rewards)"
      by auto
    then have le: "f \<le> coin_amount rewards" by (simp add: word_le_nat_alt)
    have sum: "unat f + unat (coin_amount rewards - f) = unat (coin_amount rewards)"
      using le f(3) by (simp add: unat_sub_exact)
    have "\<exists>r. dispatcher_execute d e info DispatchRewards s = Inr (r, s) \<and> messages r =
          (if f = 0 then [] else [BankSend (rc_fee_addr c)
             [\<lparr>coin_denom = rc_reward_denom c, coin_amount = f\<rparr>]])
          @ (if coin_amount rewards - f = 0 then []
             else [WasmExecute (rc_hub_contract c) (HubPayload StakeRewards)
               [rewards\<lparr>coin_amount := coin_amount rewards - f\<rparr>]])"
      using fits assms(4,7) f(1) le
      by (simp add: dispatcher_execute_def execute_dispatch_rewards_def query_rewards_config_def
          open_hub query_std_def from_err_def Let_def checked_sub_or_overflow_def checked_sub_fits)
    moreover have "\<not> info_sender info \<noteq> rc_hub_contract c"
      "\<not> 2 ^ 128 \<le> unat (coin_amount rewards) * 10 ^ 18"
      using fits by simp_all
    ultimately show ?thesis
      unfolding if_not_P [OF fits(1)] if_not_P [OF \<open>\<not> info_sender info \<noteq> _\<close>]
        if_not_P [OF \<open>\<not> 2 ^ 128 \<le> _\<close>]
      using f(2) sum by blast
  next
    case huge
    with fee assms(4,7) show ?thesis
      by (simp add: dispatcher_execute_def execute_dispatch_rewards_def query_rewards_config_def
          open_hub query_std_def from_err_def)
  qed (use assms(4) in \<open>simp_all add: dispatcher_execute_def execute_dispatch_rewards_def
      query_rewards_config_def open_hub unauthorized_def\<close>)
qed

section \<open>Witnesses\<close>

definition sample_rewards_config :: rewards_config where
  "sample_rewards_config = \<lparr>rc_owner = sample_owner, rc_hub_contract = sample_hub_addr,
     rc_reward_denom = ''ubbn'', rc_fee_addr = ''fees'', rc_fee_rate = Decimal 250000000000000000\<rparr>"

definition sample_dispatcher_storage :: dispatcher_storage where
  "sample_dispatcher_storage = \<lparr>d_config = Some sample_rewards_config, d_contract_info = None\<rparr>"

lemma dispatcher_fee_bounded_witness:
  "\<exists>s c. reachable dispatcher_initial dispatcher_step s \<and> d_config s = Some c
    \<and> rc_fee_rate c = MAX_FEE_RATE \<and> fee_of 1 (rc_fee_rate c) \<le> 1"
proof -
  obtain r s r' s' where "dispatcher_instantiate sample_deps (by_user sample_owner [])
      \<lparr>rim_hub_contract = sample_hub_addr, rim_reward_denom = ''ubbn'', rim_fee_addr = ''fees'',
       rim_fee_rate = decimal_zero\<rparr> empty_dispatcher_storage = Inr (r, s)"
    "dispatcher_execute sample_deps now (by_user sample_owner [])
      (RewardsUpdateConfig None None None (Some MAX_FEE_RATE)) s = Inr (r', s')"
    "map_option rc_fee_rate (d_config s') = Some MAX_FEE_RATE"
    by (simp add: dispatcher_instantiate_def dispatcher_execute_def update_rewards_config_def
        is_authorized_owner_def query_rewards_config_def checked_or_def to_checked_address_def
        from_err_def storage_eval sample_defs empty_dispatcher_storage_def decimal_zero_def
        MAX_FEE_RATE_def less_decimal_def)
  then have "reachable dispatcher_initial dispatcher_step s'"
    by (blast intro: reachable.intros dispatcher_initial.intros dispatcher_message)
  from dispatcher_fee_bounded [OF this] obtain c where c: "d_config s' = Some c"
    "fee_of 1 (rc_fee_rate c) \<le> (3 * unat (1 :: uint128) + 9) div 10"
    by blast
  have "rc_fee_rate c = MAX_FEE_RATE"
    using c(1) \<open>map_option rc_fee_rate (d_config s') = _\<close> by simp
  with c \<open>reachable dispatcher_initial dispatcher_step s'\<close> show ?thesis
    by (intro exI [of _ s'] exI [of _ c]) simp
qed

lemma dispatch_rewards_exact_witness:
  "\<exists>r. dispatcher_execute sample_deps now (by_user sample_hub_addr []) DispatchRewards
      sample_dispatcher_storage = Inr (r, sample_dispatcher_storage)
    \<and> messages r = [BankSend ''fees'' [bbn 38],
        WasmExecute sample_hub_addr (HubPayload StakeRewards) [bbn 112]]"
proof -
  have items: "d_config sample_dispatcher_storage = Some sample_rewards_config"
    "rc_fee_rate sample_rewards_config \<le> MAX_FEE_RATE"
    "query_hub_parameters sample_deps (rc_hub_contract sample_rewards_config) = Inr
       \<lparr>epoch_length = 1000, staking_coin_denom = ''ubbn'', unstaking_period = 2000, paused = False\<rparr>"
    "query_balance sample_deps (contract_address now) (rc_reward_denom sample_rewards_config)
       = Inr (bbn 150)"
    by (simp_all add: sample_dispatcher_storage_def sample_rewards_config_def less_eq_decimal_def
        MAX_FEE_RATE_def sample_deps_def)
  have fee38: "fee_of (coin_amount (bbn 150)) (rc_fee_rate sample_rewards_config) = 38"
    by (simp add: fee_of_def bbn_def sample_rewards_config_def)
  obtain r fee left where run: "dispatcher_execute sample_deps now (by_user sample_hub_addr [])
        DispatchRewards sample_dispatcher_storage = Inr (r, sample_dispatcher_storage)"
    and fee: "unat fee = 38" "unat fee + unat left = 150"
    and msgs: "messages r =
          (if fee = 0 then [] else [BankSend (rc_fee_addr sample_rewards_config)
             [\<lparr>coin_denom = rc_reward_denom sample_rewards_config, coin_amount = fee\<rparr>]])
          @ (if left = 0 then [] else [WasmExecute (rc_hub_contract sample_rewards_config)
             (HubPayload StakeRewards) [(bbn 150)\<lparr>coin_amount := left\<rparr>]])"
    using dispatch_rewards_exact [OF sample_laws items, of "by_user sample_hub_addr []", unfolded fee38]
    by (auto simp: by_user_def sample_rewards_config_def bbn_def)
  have "fee = 38" "left = 112"
    using fee by (simp_all add: word_unat_eq_iff)
  with run msgs show ?thesis
    by (auto simp: sample_rewards_config_def bbn_def)
qed

end
