(* ===== verification/Token.thy ===== *)
theory Token
  imports Sample_World
begin

text \<open>
  The token (\<open>contracts/lst_token/src\<close>): the standard cw20 token, whose burns make the hub check
  for slashing. The operations of the library \<open>cw20_base\<close> are parameters (the record \<open>cw20_base\<close>);
  what the token relies on of their documented behaviour is \<open>cw20_laws\<close>.
\<close>

section \<open>The library\<close>

datatype token_error = TokenStd std_error | TokenRefused string

type_synonym 'a token_result = "(token_error, 'a) outcome"

text \<open>The instantiation message of the library; marketing data are opaque text.\<close>

record cw20_instantiate_msg =
  cim_name :: string
  cim_symbol :: string
  cim_decimals :: "8 word"
  cim_initial_balances :: "(string \<times> uint128) list"
  cim_minter :: "(string \<times> uint128 option) option"
  cim_marketing :: "string option"

record 'c cw20_base =
  cw20_init :: "env \<Rightarrow> message_info \<Rightarrow> cw20_instantiate_msg
    \<Rightarrow> 'c \<times> (string \<times> string) option \<Rightarrow> token_error + response \<times> 'c \<times> (string \<times> string) option"
  cw20_transfer :: "env \<Rightarrow> message_info \<Rightarrow> string \<Rightarrow> uint128 \<Rightarrow> 'c \<Rightarrow> token_error + response \<times> 'c"
  cw20_send :: "env \<Rightarrow> message_info \<Rightarrow> string \<Rightarrow> uint128 \<Rightarrow> string \<Rightarrow> 'c \<Rightarrow> token_error + response \<times> 'c"
  cw20_transfer_from :: "env \<Rightarrow> message_info \<Rightarrow> string \<Rightarrow> string \<Rightarrow> uint128 \<Rightarrow> 'c
    \<Rightarrow> token_error + response \<times> 'c"
  cw20_increase_allowance :: "env \<Rightarrow> message_info \<Rightarrow> string \<Rightarrow> uint128 \<Rightarrow> string option \<Rightarrow> 'c
    \<Rightarrow> token_error + response \<times> 'c"
  cw20_decrease_allowance :: "env \<Rightarrow> message_info \<Rightarrow> string \<Rightarrow> uint128 \<Rightarrow> string option \<Rightarrow> 'c
    \<Rightarrow> token_error + response \<times> 'c"
  cw20_send_from :: "env \<Rightarrow> message_info \<Rightarrow> string \<Rightarrow> string \<Rightarrow> uint128 \<Rightarrow> string \<Rightarrow> 'c
    \<Rightarrow> token_error + response \<times> 'c"
  cw20_mint :: "env \<Rightarrow> message_info \<Rightarrow> string \<Rightarrow> uint128 \<Rightarrow> 'c \<Rightarrow> token_error + response \<times> 'c"
  cw20_update_minter :: "env \<Rightarrow> message_info \<Rightarrow> string option \<Rightarrow> 'c \<Rightarrow> token_error + response \<times> 'c"
  cw20_update_marketing :: "env \<Rightarrow> message_info \<Rightarrow> string option \<Rightarrow> string option \<Rightarrow> string option
    \<Rightarrow> 'c \<Rightarrow> token_error + response \<times> 'c"
  cw20_upload_logo :: "env \<Rightarrow> message_info \<Rightarrow> string \<Rightarrow> 'c \<Rightarrow> token_error + response \<times> 'c"
  cw20_burn :: "env \<Rightarrow> message_info \<Rightarrow> uint128 \<Rightarrow> 'c \<Rightarrow> token_error + response \<times> 'c"
  cw20_burn_from :: "env \<Rightarrow> message_info \<Rightarrow> string \<Rightarrow> uint128 \<Rightarrow> 'c \<Rightarrow> token_error + response \<times> 'c"
  cw20_query :: "env \<Rightarrow> string \<Rightarrow> 'c \<Rightarrow> std_error + string"

section \<open>The code\<close>

definition TOKEN_CONTRACT_NAME :: string where "TOKEN_CONTRACT_NAME = ''crates.io:lst_token''"
definition TOKEN_CONTRACT_VERSION :: string where "TOKEN_CONTRACT_VERSION = ''1.0.0''"

text \<open>The token's own item next to the storage of the library.\<close>

record 'c token_storage =
  t_hub_contract :: "addr option"
  t_base :: 'c
  t_contract_info :: "(string \<times> string) option"

record token_instantiate_msg =
  tim_name :: string
  tim_symbol :: string
  tim_decimals :: "8 word"
  tim_hub_contract :: string
  tim_marketing :: "string option"

definition token_instantiate ::
    "deps \<Rightarrow> 'c cw20_base \<Rightarrow> env \<Rightarrow> message_info \<Rightarrow> token_instantiate_msg \<Rightarrow> 'c token_storage
     \<Rightarrow> (response \<times> 'c token_storage) token_result" where
  "token_instantiate d ops e info msg s =
     and_then (from_err TokenStd (addr_validate d (tim_hub_contract msg))) (\<lambda>hub.
     and_then (from_err id (cw20_init ops e info
         \<lparr>cim_name = tim_name msg, cim_symbol = tim_symbol msg, cim_decimals = tim_decimals msg,
          cim_initial_balances = [], cim_minter = Some (tim_hub_contract msg, None),
          cim_marketing = tim_marketing msg\<rparr> (t_base s, t_contract_info s)))
       (\<lambda>(res, base, contract_info).
     Inr (res, s\<lparr>t_hub_contract := Some hub, t_base := base, t_contract_info := contract_info\<rparr>)))"

text \<open>A call of the library on its part of the storage.\<close>

definition in_base ::
    "('c \<Rightarrow> token_error + response \<times> 'c) \<Rightarrow> 'c token_storage
     \<Rightarrow> (response \<times> 'c token_storage) token_result" where
  "in_base f s = and_then (from_err id (f (t_base s))) (\<lambda>(res, base). Inr (res, s\<lparr>t_base := base\<rparr>))"

definition build_check_slashing_sub_msg :: "'c token_storage \<Rightarrow> cosmos_msg token_result" where
  "build_check_slashing_sub_msg s =
     and_then (from_err TokenStd (load_item ''hub_contract'' (t_hub_contract s))) (\<lambda>hub_contract.
     Inr (WasmExecute hub_contract (HubPayload CheckSlashing) []))"

definition token_burn ::
    "'c cw20_base \<Rightarrow> env \<Rightarrow> message_info \<Rightarrow> uint128 \<Rightarrow> 'c token_storage
     \<Rightarrow> (response \<times> 'c token_storage) token_result" where
  "token_burn ops e info amount s =
     and_then (build_check_slashing_sub_msg s) (\<lambda>message.
     and_then (in_base (cw20_burn ops e info amount) s) (\<lambda>(res, s').
     Inr (response_new\<lparr>messages := [message], attributes := attributes res\<rparr>, s')))"

definition token_burn_from ::
    "'c cw20_base \<Rightarrow> env \<Rightarrow> message_info \<Rightarrow> string \<Rightarrow> uint128 \<Rightarrow> 'c token_storage
     \<Rightarrow> (response \<times> 'c token_storage) token_result" where
  "token_burn_from ops e info owner_addr amount s =
     and_then (build_check_slashing_sub_msg s) (\<lambda>message.
     and_then (in_base (cw20_burn_from ops e info owner_addr amount) s) (\<lambda>(res, s').
     Inr (response_new\<lparr>messages := [message], attributes := attributes res\<rparr>, s')))"

definition token_execute ::
    "'c cw20_base \<Rightarrow> env \<Rightarrow> message_info \<Rightarrow> cw20_execute_msg \<Rightarrow> 'c token_storage
     \<Rightarrow> (response \<times> 'c token_storage) token_result" where
  "token_execute ops e info msg s =
     (case msg of
        Transfer recipient amount \<Rightarrow> in_base (cw20_transfer ops e info recipient amount) s
      | Send contract amount m \<Rightarrow> in_base (cw20_send ops e info contract amount m) s
      | TransferFrom ow recipient amount \<Rightarrow>
          in_base (cw20_transfer_from ops e info ow recipient amount) s
      | IncreaseAllowance spender amount expires \<Rightarrow>
          in_base (cw20_increase_allowance ops e info spender amount expires) s
      | DecreaseAllowance spender amount expires \<Rightarrow>
          in_base (cw20_decrease_allowance ops e info spender amount expires) s
      | SendFrom ow contract amount m \<Rightarrow> in_base (cw20_send_from ops e info ow contract amount m) s
      | Mint recipient amount \<Rightarrow> in_base (cw20_mint ops e info recipient amount) s
      | UpdateMinter new_minter \<Rightarrow> in_base (cw20_update_minter ops e info new_minter) s
      | UpdateMarketing project description marketing \<Rightarrow>
          in_base (cw20_update_marketing ops e info project description marketing) s
      | UploadLogo logo \<Rightarrow> in_base (cw20_upload_logo ops e info logo) s
      | Burn amount \<Rightarrow> token_burn ops e info amount s
      | BurnFrom ow amount \<Rightarrow> token_burn_from ops e info ow amount s)"

definition token_query :: "'c cw20_base \<Rightarrow> env \<Rightarrow> string \<Rightarrow> 'c token_storage \<Rightarrow> string token_result" where
  "token_query ops e msg s = from_err TokenStd (cw20_query ops e msg (t_base s))"

definition token_migrate ::
    "deps \<Rightarrow> 'c token_storage \<Rightarrow> (response \<times> 'c token_storage) token_result" where
  "token_migrate d s =
     and_then (from_err TokenStd (ensure_from_older_version d TOKEN_CONTRACT_NAME
       TOKEN_CONTRACT_VERSION (t_contract_info s))) (\<lambda>contract_info.
     Inr (response_new, s\<lparr>t_contract_info := contract_info\<rparr>))"

section \<open>What the token relies on\<close>

text \<open>
  Documented behaviour of \<open>cw20_base\<close>, over the supply and the minter of its storage: only the
  minter mints or names another minter, minting and burning move the supply by the amount, no
  other operation changes either, and instantiation starts with the given minter and, without
  initial balances, with no supply.
\<close>

definition keeps_supply :: "('c \<Rightarrow> nat) \<Rightarrow> ('c \<Rightarrow> addr option) \<Rightarrow> ('c \<Rightarrow> token_error + response \<times> 'c) \<Rightarrow> bool" where
  "keeps_supply supply_of minter f \<longleftrightarrow>
     (\<forall>b r b'. f b = Inr (r, b') \<longrightarrow> supply_of b' = supply_of b \<and> minter b' = minter b)"

definition init_law :: "deps \<Rightarrow> 'c cw20_base \<Rightarrow> ('c \<Rightarrow> nat) \<Rightarrow> ('c \<Rightarrow> addr option) \<Rightarrow> bool" where
  "init_law d ops supply_of minter \<longleftrightarrow> (\<forall>e info m b ci r b' ci' x cap.
     cw20_init ops e info m (b, ci) = Inr (r, b', ci') \<longrightarrow>
     cim_initial_balances m = [] \<longrightarrow> cim_minter m = Some (x, cap) \<longrightarrow>
     supply_of b' = 0 \<and> (\<exists>a. addr_validate d x = Inr a \<and> minter b' = Some a))"

definition plain_laws :: "'c cw20_base \<Rightarrow> ('c \<Rightarrow> nat) \<Rightarrow> ('c \<Rightarrow> addr option) \<Rightarrow> bool" where
  "plain_laws ops supply_of minter \<longleftrightarrow> (\<forall>e info x y a m ex u v w.
     keeps_supply supply_of minter (cw20_transfer ops e info x a)
     \<and> keeps_supply supply_of minter (cw20_send ops e info x a m)
     \<and> keeps_supply supply_of minter (cw20_transfer_from ops e info x y a)
     \<and> keeps_supply supply_of minter (cw20_increase_allowance ops e info x a ex)
     \<and> keeps_supply supply_of minter (cw20_decrease_allowance ops e info x a ex)
     \<and> keeps_supply supply_of minter (cw20_send_from ops e info x y a m)
     \<and> keeps_supply supply_of minter (cw20_update_marketing ops e info u v w)
     \<and> keeps_supply supply_of minter (cw20_upload_logo ops e info x))"

definition mint_law :: "'c cw20_base \<Rightarrow> ('c \<Rightarrow> nat) \<Rightarrow> ('c \<Rightarrow> addr option) \<Rightarrow> bool" where
  "mint_law ops supply_of minter \<longleftrightarrow> (\<forall>e info x a b r b'.
     cw20_mint ops e info x a b = Inr (r, b') \<longrightarrow>
     minter b = Some (info_sender info) \<and> minter b' = minter b \<and> supply_of b' = supply_of b + unat a)"

definition minter_law :: "'c cw20_base \<Rightarrow> ('c \<Rightarrow> nat) \<Rightarrow> ('c \<Rightarrow> addr option) \<Rightarrow> bool" where
  "minter_law ops supply_of minter \<longleftrightarrow> (\<forall>e info x b r b'.
     cw20_update_minter ops e info x b = Inr (r, b') \<longrightarrow>
     minter b = Some (info_sender info) \<and> supply_of b' = supply_of b)"

definition burn_law :: "'c cw20_base \<Rightarrow> ('c \<Rightarrow> nat) \<Rightarrow> ('c \<Rightarrow> addr option) \<Rightarrow> bool" where
  "burn_law ops supply_of minter \<longleftrightarrow> (\<forall>e info x a b r b'.
     cw20_burn ops e info a b = Inr (r, b') \<or> cw20_burn_from ops e info x a b = Inr (r, b') \<longrightarrow>
     minter b' = minter b \<and> supply_of b = supply_of b' + unat a)"

definition cw20_laws :: "deps \<Rightarrow> 'c cw20_base \<Rightarrow> ('c \<Rightarrow> nat) \<Rightarrow> ('c \<Rightarrow> addr option) \<Rightarrow> bool" where
  "cw20_laws d ops supply_of minter \<longleftrightarrow> init_law d ops supply_of minter
     \<and> plain_laws ops supply_of minter \<and> mint_law ops supply_of minter
     \<and> minter_law ops supply_of minter \<and> burn_law ops supply_of minter"

text \<open>
  The version record, as documented for \<open>cw20_base::instantiate\<close> and
  \<open>cw2::ensure_from_older_version\<close>: the first stores the library's own name, the second refuses
  to migrate from a contract of another name.
\<close>

definition cw20_version_law :: "'c cw20_base \<Rightarrow> bool" where
  "cw20_version_law ops \<longleftrightarrow> (\<forall>e info m b ci r b' ci'.
     cw20_init ops e info m (b, ci) = Inr (r, b', ci') \<longrightarrow>
     map_option fst ci' = Some ''crates.io:cw20-base'')"

definition migration_name_law :: "deps \<Rightarrow> bool" where
  "migration_name_law d \<longleftrightarrow> (\<forall>name version stored.
     map_option fst stored \<noteq> Some name \<longrightarrow>
     (\<exists>err. ensure_from_older_version d name version stored = Inl err))"

section \<open>What it does\<close>

lemma in_base_Inr [outcome_simps]:
  "in_base f s = Inr (r, s') \<longleftrightarrow> (\<exists>b'. f (t_base s) = Inr (r, b') \<and> s' = s\<lparr>t_base := b'\<rparr>)"
  by (auto simp: in_base_def outcome_simps)

lemma build_check_slashing_Inr [outcome_simps]:
  "build_check_slashing_sub_msg s = Inr m \<longleftrightarrow>
     (\<exists>hub. t_hub_contract s = Some hub \<and> m = WasmExecute hub (HubPayload CheckSlashing) [])"
  by (auto simp: build_check_slashing_sub_msg_def outcome_simps)

lemma in_base_keeps:
  "in_base f s = Inr (r, s') \<Longrightarrow> keeps_supply supply_of minter f \<Longrightarrow>
   minter (t_base s') = minter (t_base s) \<and> supply_of (t_base s') = supply_of (t_base s)"
  by (auto simp: in_base_Inr keeps_supply_def)

lemma token_supply_plain:
  assumes "plain_laws ops supply_of minter" and "token_execute ops e info msg s = Inr (r, s')"
    and "case msg of Mint _ _ \<Rightarrow> False | UpdateMinter _ \<Rightarrow> False | Burn _ \<Rightarrow> False
      | BurnFrom _ _ \<Rightarrow> False | _ \<Rightarrow> True"
  shows "minter (t_base s') = minter (t_base s) \<and> supply_of (t_base s') = supply_of (t_base s)"
  using assms(2,3)
  by (cases msg; simp add: token_execute_def)
    (erule in_base_keeps, simp add: assms(1) [unfolded plain_laws_def])+

lemma token_supply_mint:
  assumes "mint_law ops supply_of minter" and "token_execute ops e info (Mint x a) s = Inr (r, s')"
  shows "minter (t_base s) = Some (info_sender info) \<and> minter (t_base s') = minter (t_base s)
    \<and> supply_of (t_base s') = supply_of (t_base s) + unat a"
  using assms(2) by (auto simp: token_execute_def in_base_Inr dest: assms(1) [unfolded mint_law_def, rule_format])

lemma token_supply_burn:
  assumes "burn_law ops supply_of minter"
    and "token_execute ops e info (Burn a) s = Inr (r, s')
      \<or> token_execute ops e info (BurnFrom x a) s = Inr (r, s')"
  shows "(\<exists>hub. t_hub_contract s = Some hub
      \<and> messages r = [WasmExecute hub (HubPayload CheckSlashing) []])
    \<and> minter (t_base s') = minter (t_base s)
    \<and> supply_of (t_base s) = supply_of (t_base s') + unat a"
proof -
  have "\<exists>hub b' r'. t_hub_contract s = Some hub
      \<and> messages r = [WasmExecute hub (HubPayload CheckSlashing) []] \<and> s' = s\<lparr>t_base := b'\<rparr>
      \<and> (cw20_burn ops e info a (t_base s) = Inr (r', b')
        \<or> cw20_burn_from ops e info x a (t_base s) = Inr (r', b'))"
    using assms(2)
    by (elim disjE)
      (clarsimp simp: token_execute_def token_burn_def token_burn_from_def outcome_simps
        response_new_def, blast)+
  then obtain hub b' r' where hub: "t_hub_contract s = Some hub"
      "messages r = [WasmExecute hub (HubPayload CheckSlashing) []]"
    and s': "s' = s\<lparr>t_base := b'\<rparr>"
    and burn: "cw20_burn ops e info a (t_base s) = Inr (r', b')
      \<or> cw20_burn_from ops e info x a (t_base s) = Inr (r', b')"
    by blast
  from assms(1) [unfolded burn_law_def, rule_format, OF burn] hub s' show ?thesis by simp
qed

lemma token_frame:
  assumes "token_execute ops e info msg s = Inr (r, s')"
  shows "t_hub_contract s' = t_hub_contract s" "t_contract_info s' = t_contract_info s"
  using assms
  by (cases msg; auto simp: token_execute_def token_burn_def token_burn_from_def outcome_simps)+

lemma token_supply_effect:
  assumes "cw20_laws d ops supply_of minter" and "token_execute ops e info msg s = Inr (r, s')"
  shows "case msg of
      Mint _ a \<Rightarrow> minter (t_base s) = Some (info_sender info) \<and> minter (t_base s') = minter (t_base s)
        \<and> supply_of (t_base s') = supply_of (t_base s) + unat a
    | UpdateMinter _ \<Rightarrow> minter (t_base s) = Some (info_sender info)
        \<and> supply_of (t_base s') = supply_of (t_base s)
    | Burn a \<Rightarrow> (\<exists>hub. t_hub_contract s = Some hub
          \<and> messages r = [WasmExecute hub (HubPayload CheckSlashing) []])
        \<and> minter (t_base s') = minter (t_base s)
        \<and> supply_of (t_base s) = supply_of (t_base s') + unat a
    | BurnFrom _ a \<Rightarrow> (\<exists>hub. t_hub_contract s = Some hub
          \<and> messages r = [WasmExecute hub (HubPayload CheckSlashing) []])
        \<and> minter (t_base s') = minter (t_base s)
        \<and> supply_of (t_base s) = supply_of (t_base s') + unat a
    | _ \<Rightarrow> minter (t_base s') = minter (t_base s)
        \<and> supply_of (t_base s') = supply_of (t_base s)"
proof -
  have burn: "burn_law ops supply_of minter" using assms(1) by (simp add: cw20_laws_def)
  show ?thesis
  proof (cases msg)
  case (UpdateMinter x)
  with assms show ?thesis
    by (auto simp: cw20_laws_def minter_law_def token_execute_def in_base_Inr)
next
  case (Burn a)
  then show ?thesis
    using token_supply_burn [OF burn disjI1 [OF assms(2) [unfolded Burn]]] by simp
next
  case (BurnFrom x a)
  then show ?thesis
    using token_supply_burn [OF burn disjI2 [OF assms(2) [unfolded BurnFrom]]] by simp
qed (use assms token_supply_mint [of ops supply_of minter]
    token_supply_plain [OF _ assms(2), of supply_of minter] in \<open>simp_all add: cw20_laws_def\<close>)
qed

section \<open>The token as a transition system\<close>

text \<open>Any messages of anybody, but the hub sends no \<open>UpdateMinter\<close> (which its code never does), and
  migrations.\<close>

inductive token_initial :: "deps \<Rightarrow> 'c cw20_base \<Rightarrow> 'c token_storage \<Rightarrow> bool" for d ops where
  "token_instantiate d ops e info msg s0 = Inr (r, s) \<Longrightarrow> token_initial d ops s"

inductive token_step :: "deps \<Rightarrow> 'c cw20_base \<Rightarrow> 'c token_storage \<Rightarrow> 'c token_storage \<Rightarrow> bool"
  for d ops where
  token_message: "token_execute ops e info msg s = Inr (r, s') \<Longrightarrow>
    t_hub_contract s = Some (info_sender info) \<longrightarrow> (\<forall>x. msg \<noteq> UpdateMinter x) \<Longrightarrow>
    token_step d ops s s'"
| token_migration: "token_migrate d s = Inr (r, s') \<Longrightarrow> token_step d ops s s'"

inductive_cases token_initialE: "token_initial d ops s"

definition minter_is_hub :: "('c \<Rightarrow> addr option) \<Rightarrow> 'c token_storage \<Rightarrow> bool" where
  "minter_is_hub minter s \<longleftrightarrow> t_hub_contract s \<noteq> None \<and> t_hub_contract s = minter (t_base s)"

lemma token_invariant:
  assumes laws: "cw20_laws d ops supply_of minter"
  shows "invariant_of (token_initial d ops) (token_step d ops) (minter_is_hub minter)"
proof
  show "minter_is_hub minter s" if "token_initial d ops s" for s
    using that
    by (auto elim!: token_initialE simp: token_instantiate_def outcome_simps minter_is_hub_def
        dest!: laws [unfolded cw20_laws_def init_law_def, THEN conjunct1, rule_format])
  show "minter_is_hub minter t" if "minter_is_hub minter s" "token_step d ops s t" for s t
    using that(2)
  proof cases
    case (token_message e info msg r)
    have "minter (t_base t) = minter (t_base s)"
      using token_supply_effect [OF laws token_message(1)] token_message(2) that(1)
      by (cases msg) (auto simp: minter_is_hub_def)
    with that(1) token_frame [OF token_message(1)] show ?thesis
      by (metis minter_is_hub_def)
  next
    case token_migration
    then have "t_hub_contract t = t_hub_contract s" "t_base t = t_base s"
      by (auto simp: token_migrate_def outcome_simps)
    with that(1) show ?thesis by (metis minter_is_hub_def)
  qed
qed

section \<open>Properties\<close>

text \<open>
  C33: The supply of the token moves only by mints and burns, and by exactly their amounts; mints
  and changes of the minter come from the minter; and every burn, direct or from an allowance,
  sends exactly one message, the slashing check of the hub.
\<close>

theorem token_supply_controlled:
  assumes "cw20_laws d ops supply_of minter" and "token_execute ops e info msg s = Inr (r, s')"
  shows "case msg of
      Mint _ a \<Rightarrow> minter (t_base s) = Some (info_sender info) \<and> minter (t_base s') = minter (t_base s)
        \<and> supply_of (t_base s') = supply_of (t_base s) + unat a
    | UpdateMinter _ \<Rightarrow> minter (t_base s) = Some (info_sender info)
        \<and> supply_of (t_base s') = supply_of (t_base s)
    | Burn a \<Rightarrow> (\<exists>hub. t_hub_contract s = Some hub
          \<and> messages r = [WasmExecute hub (HubPayload CheckSlashing) []])
        \<and> minter (t_base s') = minter (t_base s)
        \<and> supply_of (t_base s) = supply_of (t_base s') + unat a
    | BurnFrom _ a \<Rightarrow> (\<exists>hub. t_hub_contract s = Some hub
          \<and> messages r = [WasmExecute hub (HubPayload CheckSlashing) []])
        \<and> minter (t_base s') = minter (t_base s)
        \<and> supply_of (t_base s) = supply_of (t_base s') + unat a
    | _ \<Rightarrow> minter (t_base s') = minter (t_base s)
        \<and> supply_of (t_base s') = supply_of (t_base s)"
  by (rule token_supply_effect [OF assms])

text \<open>
  Only the hub mints. From instantiation on, through any messages of anybody, as long as the
  hub itself does not name another minter, the minter is the hub contract that the token was
  given, so a mint that succeeds was sent by it.
\<close>

theorem only_hub_mints:
  assumes "cw20_laws d ops supply_of minter"
    and "reachable (token_initial d ops) (token_step d ops) s"
    and "token_execute ops e info (Mint recipient amount) s = Inr (r, s')"
  shows "t_hub_contract s = Some (info_sender info)"
proof -
  from invariant_of.inv_reachable [OF token_invariant [OF assms(1)] assms(2)]
  have "t_hub_contract s = minter (t_base s)" by (simp add: minter_is_hub_def)
  moreover have "minter (t_base s) = Some (info_sender info)"
    using assms(1) token_supply_mint [OF _ assms(3), of supply_of minter] by (simp add: cw20_laws_def)
  ultimately show ?thesis by simp
qed

text \<open>
  The token can never be migrated. Instantiation leaves the version record to the library,
  which stores the name \<open>crates.io:cw20-base\<close>; \<open>migrate\<close> asks for the token's own name, which no
  reachable state carries, so it always fails.
\<close>

theorem token_cannot_migrate:
  assumes "cw20_version_law ops" and "migration_name_law d"
    and "reachable (token_initial d ops) (token_step d ops) s"
  shows "\<exists>err. token_migrate d s = Inl (Err (TokenStd err))"
proof -
  have "map_option fst (t_contract_info s) = Some ''crates.io:cw20-base''"
    using assms(3)
  proof induction
    case (reachable_init s)
    then show ?case
      using assms(1) by (auto elim!: token_initialE simp: token_instantiate_def outcome_simps cw20_version_law_def)
  next
    case (reachable_step s t)
    from reachable_step(2) show ?case
    proof cases
      case token_message
      with reachable_step.IH show ?thesis by (simp add: token_frame)
    next
      case token_migration
      then obtain ci where "ensure_from_older_version d TOKEN_CONTRACT_NAME TOKEN_CONTRACT_VERSION
          (t_contract_info s) = Inr ci"
        by (auto simp: token_migrate_def outcome_simps)
      moreover have "map_option fst (t_contract_info s) \<noteq> Some TOKEN_CONTRACT_NAME"
        by (simp add: reachable_step.IH TOKEN_CONTRACT_NAME_def)
      ultimately show ?thesis
        using assms(2) unfolding migration_name_law_def by (metis sum.distinct(1))
    qed
  qed
  then have "map_option fst (t_contract_info s) \<noteq> Some TOKEN_CONTRACT_NAME"
    by (simp only: TOKEN_CONTRACT_NAME_def) simp
  then obtain err where "ensure_from_older_version d TOKEN_CONTRACT_NAME TOKEN_CONTRACT_VERSION
      (t_contract_info s) = Inl err"
    using assms(2) unfolding migration_name_law_def by blast
  then show ?thesis by (simp add: token_migrate_def from_err_def)
qed

section \<open>Witnesses\<close>

text \<open>A library that obeys the laws, with the supply and the minter as its storage.\<close>

definition moved :: "bool \<Rightarrow> nat \<times> addr option \<Rightarrow> token_error + response \<times> nat \<times> addr option" where
  "moved ok b = (if ok then Inr (response_new, b) else Inl (TokenRefused ''refused''))"

definition receive_sent :: "message_info \<Rightarrow> string \<Rightarrow> uint128 \<Rightarrow> string \<Rightarrow> response" where
  "receive_sent info x a m = response_new\<lparr>messages := [WasmExecute x (HubPayload (Receive
     (Cw20ReceiveMsg (info_sender info) a m))) []]\<rparr>"

definition sample_cw20 :: "(nat \<times> addr option) cw20_base" where
  "sample_cw20 = \<lparr>
     cw20_init = (\<lambda>e info m (b, ci). Inr (response_new, (0, map_option fst (cim_minter m)),
        Some (''crates.io:cw20-base'', ''2.0.0''))),
     cw20_transfer = (\<lambda>e info x a. moved True),
     cw20_send = (\<lambda>e info x a m b. Inr (receive_sent info x a m, b)),
     cw20_transfer_from = (\<lambda>e info x y a. moved True),
     cw20_increase_allowance = (\<lambda>e info x a ex. moved True),
     cw20_decrease_allowance = (\<lambda>e info x a ex. moved True),
     cw20_send_from = (\<lambda>e info x y a m b. Inr (receive_sent info y a m, b)),
     cw20_mint = (\<lambda>e info x a (n, mi).
       moved (mi = Some (info_sender info) \<and> n + unat a < 2 ^ 128) (n + unat a, mi)),
     cw20_update_minter = (\<lambda>e info x (n, mi). moved (mi = Some (info_sender info)) (n, x)),
     cw20_update_marketing = (\<lambda>e info x y z. moved True),
     cw20_upload_logo = (\<lambda>e info x. moved True),
     cw20_burn = (\<lambda>e info a (n, mi). moved (unat a \<le> n) (n - unat a, mi)),
     cw20_burn_from = (\<lambda>e info x a (n, mi). moved (unat a \<le> n) (n - unat a, mi)),
     cw20_query = (\<lambda>e q b. Inr ''answer'')\<rparr>"

lemma sample_cw20_laws: "cw20_laws sample_deps sample_cw20 fst snd"
  by (auto simp: cw20_laws_def init_law_def plain_laws_def mint_law_def minter_law_def burn_law_def
      keeps_supply_def sample_cw20_def moved_def sample_deps_def split: if_splits)

definition sample_migration :: deps where
  "sample_migration = sample_deps\<lparr>ensure_from_older_version := (\<lambda>name version stored.
     if map_option fst stored = Some name then Inr (Some (name, version))
     else Inl (OtherStdError ''Cannot migrate''))\<rparr>"

lemma sample_migration_laws: "cw20_version_law sample_cw20" "migration_name_law sample_migration"
  by (auto simp: cw20_version_law_def migration_name_law_def sample_cw20_def sample_migration_def)

definition sample_token_state :: "nat \<Rightarrow> (nat \<times> addr option) token_storage" where
  "sample_token_state n = \<lparr>t_hub_contract = Some sample_hub_addr, t_base = (n, Some sample_hub_addr),
     t_contract_info = Some (''crates.io:cw20-base'', ''2.0.0'')\<rparr>"

lemmas token_eval = token_instantiate_def token_execute_def token_burn_def in_base_def
  build_check_slashing_sub_msg_def sample_cw20_def moved_def sample_token_state_def from_err_def

lemma token_runs:
  assumes "addr_validate d sample_hub_addr = Inr sample_hub_addr"
  shows "reachable (token_initial d sample_cw20) (token_step d sample_cw20) (sample_token_state 100)"
proof -
  let ?s0 = "\<lparr>t_hub_contract = None, t_base = (0, None), t_contract_info = None\<rparr>"
  have "\<exists>r. token_instantiate d sample_cw20 now (by_user sample_owner []) \<lparr>tim_name = ''lst'',
      tim_symbol = ''LST'', tim_decimals = 6, tim_hub_contract = sample_hub_addr,
      tim_marketing = None\<rparr> ?s0 = Inr (r, sample_token_state 0)"
    using assms by (simp add: token_eval)
  moreover have "\<exists>r. token_execute sample_cw20 now (by_user sample_hub_addr []) (Mint alice 100)
      (sample_token_state 0) = Inr (r, sample_token_state 100)"
    by (simp add: token_eval by_user_def)
  moreover have "token_step d sample_cw20 (sample_token_state 0) (sample_token_state 100)"
    if "token_execute sample_cw20 now (by_user sample_hub_addr []) (Mint alice 100)
      (sample_token_state 0) = Inr (r, sample_token_state 100)" for r
    using token_message [OF that] by simp
  ultimately show ?thesis
    by (blast intro: reachable.intros token_initial.intros)
qed

lemma token_supply_controlled_witness:
  "\<exists>r s'. token_execute sample_cw20 now (by_user alice []) (Burn 30) (sample_token_state 100) = Inr (r, s')
    \<and> messages r = [WasmExecute sample_hub_addr (HubPayload CheckSlashing) []] \<and> fst (t_base s') = 70"
proof -
  obtain r s' where run: "token_execute sample_cw20 now (by_user alice []) (Burn 30)
      (sample_token_state 100) = Inr (r, s')"
    by (simp add: token_eval)
  from token_supply_controlled [OF sample_cw20_laws this] run show ?thesis
    by (auto simp: sample_token_state_def)
qed

lemma only_hub_mints_witness:
  "\<exists>r s'. token_execute sample_cw20 now (by_user sample_hub_addr []) (Mint alice 5)
      (sample_token_state 100) = Inr (r, s')
    \<and> t_hub_contract (sample_token_state 100) = Some (info_sender (by_user sample_hub_addr []))"
proof -
  obtain r s' where run: "token_execute sample_cw20 now (by_user sample_hub_addr []) (Mint alice 5)
      (sample_token_state 100) = Inr (r, s')"
    by (simp add: token_eval by_user_def)
  have "addr_validate sample_deps sample_hub_addr = Inr sample_hub_addr" by (simp add: sample_deps_def)
  from only_hub_mints [OF sample_cw20_laws token_runs [OF this] run] run show ?thesis by blast
qed

lemma token_cannot_migrate_witness:
  "\<exists>err. token_migrate sample_migration (sample_token_state 100) = Inl (Err (TokenStd err))"
proof -
  have "addr_validate sample_migration sample_hub_addr = Inr sample_hub_addr"
    by (simp add: sample_migration_def sample_deps_def)
  from token_cannot_migrate [OF sample_migration_laws token_runs [OF this]] show ?thesis .
qed

end
