(* ===== verification/Whole_System.thy ===== *)
theory Whole_System
  imports Hub_Backing Registry Dispatcher Token
begin

text \<open>
  The four contracts together. A transaction calls one contract; the messages of its response are
  executed in order, each with everything it causes, before the next one, and the queries of a
  contract see the storage of the others at that moment. An error anywhere rolls the whole
  transaction back. Other contracts and the chain accept every message and do nothing here; what
  they do later is a transaction of its own.
\<close>

section \<open>The system\<close>

text \<open>Where the contracts live, and the cw20 library with its reading of the supply.\<close>

record 'c deployment =
  a_hub :: addr
  a_token :: addr
  a_registry :: addr
  a_dispatcher :: addr
  dep_cw20 :: "'c cw20_base"
  dep_supply :: "'c \<Rightarrow> nat"
  dep_minter :: "'c \<Rightarrow> addr option"

record 'c system =
  sys_hub :: hub_storage
  sys_token :: "'c token_storage"
  sys_registry :: registry_storage
  sys_dispatcher :: dispatcher_storage
  sys_calls :: nat    \<comment> \<open>the number of calls so far, by which the outside world is asked\<close>

datatype system_error =
    ContractFailed contract_error
  | TokenFailed token_error
  | NotUnderstood    \<comment> \<open>the payload is not a message of the called contract\<close>
  | TooDeep

definition lift_err :: "('e \<Rightarrow> 'f) \<Rightarrow> ('e, 'a) outcome \<Rightarrow> ('f, 'a) outcome" where
  "lift_err h m = (case m of Inl (Err e) \<Rightarrow> Inl (Err (h e)) | Inl (Panic p) \<Rightarrow> Inl (Panic p)
     | Inr a \<Rightarrow> Inr a)"

text \<open>A query to a contract that fails is an error of the standard library to the caller.\<close>

definition answer :: "('e, 'a) outcome \<Rightarrow> std_error + 'a" where
  "answer q = (case q of Inl _ \<Rightarrow> Inl (OtherStdError ''Querier contract error'') | Inr a \<Rightarrow> Inr a)"

definition supply_now :: "'c deployment \<Rightarrow> 'c system \<Rightarrow> nat" where
  "supply_now D sys = dep_supply D (t_base (sys_token sys))"

definition asked :: "'c deployment \<Rightarrow> deps \<Rightarrow> 'c system \<Rightarrow> deps" where
  "asked D d sys = d\<lparr>
     query_token_supply := (\<lambda>a. if a = a_token D then Inr (of_nat (supply_now D sys))
       else query_token_supply d a),
     query_validators_delegation := (\<lambda>a. if a = a_registry D
       then answer (query_validators d (sys_registry sys)) else query_validators_delegation d a),
     query_hub_parameters := (\<lambda>a. if a = a_hub D then answer (query_parameters (sys_hub sys))
       else query_hub_parameters d a)\<rparr>"

text \<open>One call of one contract.\<close>

definition call ::
    "'c deployment \<Rightarrow> deps \<Rightarrow> env \<Rightarrow> addr \<Rightarrow> addr \<Rightarrow> wasm_payload \<Rightarrow> coin list \<Rightarrow> 'c system
     \<Rightarrow> (system_error, response \<times> 'c system) outcome" where
  "call D d e sender target payload funds sys =
     (let d' = asked D d sys;
          e' = e\<lparr>contract_address := target\<rparr>;
          info = \<lparr>info_sender = sender, info_funds = funds\<rparr> in
      if target = a_hub D then
        (case payload of
           HubPayload m \<Rightarrow>
             and_then (lift_err ContractFailed (hub_execute d' e' info m (sys_hub sys))) (\<lambda>(r, s).
             Inr (r, sys\<lparr>sys_hub := s\<rparr>))
         | _ \<Rightarrow> Inl (Err NotUnderstood))
      else if target = a_token D then
        (case payload of
           Cw20Payload m \<Rightarrow>
             and_then (lift_err TokenFailed (token_execute (dep_cw20 D) e' info m (sys_token sys)))
               (\<lambda>(r, s).
             Inr (r, sys\<lparr>sys_token := s\<rparr>))
         | _ \<Rightarrow> Inl (Err NotUnderstood))
      else if target = a_dispatcher D then
        (case payload of
           RewardsPayload m \<Rightarrow>
             and_then (lift_err ContractFailed (dispatcher_execute d' e' info m (sys_dispatcher sys)))
               (\<lambda>(r, s).
             Inr (r, sys\<lparr>sys_dispatcher := s\<rparr>))
         | _ \<Rightarrow> Inl (Err NotUnderstood))
      else if target = a_registry D then Inl (Err NotUnderstood)
      else Inr (response_new, sys))"

text \<open>The messages of a response, each executed by \<open>run\<close>; only contracts of the system react.\<close>

definition forward ::
    "(addr \<Rightarrow> addr \<Rightarrow> wasm_payload \<Rightarrow> coin list \<Rightarrow> 's \<Rightarrow> ('e, 's) outcome)
     \<Rightarrow> addr \<Rightarrow> cosmos_msg \<Rightarrow> 's \<Rightarrow> ('e, 's) outcome" where
  "forward run sender m s =
     (case m of WasmExecute target payload funds \<Rightarrow> run sender target payload funds s | _ \<Rightarrow> Inr s)"

text \<open>A call with everything it causes, to a bounded depth; \<open>ds\<close> are the answers of the outside
  world, one for each call.\<close>

fun exec ::
    "nat \<Rightarrow> 'c deployment \<Rightarrow> (nat \<Rightarrow> deps) \<Rightarrow> env \<Rightarrow> addr \<Rightarrow> addr \<Rightarrow> wasm_payload \<Rightarrow> coin list \<Rightarrow> 'c system
     \<Rightarrow> (system_error, 'c system) outcome" where
  "exec 0 D ds e sender target payload funds sys = Inl (Err TooDeep)"
| "exec (Suc n) D ds e sender target payload funds sys =
     and_then (call D (ds (sys_calls sys)) e sender target payload funds
       (sys\<lparr>sys_calls := Suc (sys_calls sys)\<rparr>)) (\<lambda>(r, sys').
     for_each (forward (exec n D ds e) target) (messages r) sys')"

text \<open>Nobody but the registry's owner sends it messages, so they have no payload type.\<close>

definition exec_registry ::
    "nat \<Rightarrow> 'c deployment \<Rightarrow> (nat \<Rightarrow> deps) \<Rightarrow> env \<Rightarrow> addr \<Rightarrow> validator_execute_msg \<Rightarrow> 'c system
     \<Rightarrow> (system_error, 'c system) outcome" where
  "exec_registry n D ds e sender msg sys =
     and_then (lift_err ContractFailed (registry_execute (asked D (ds (sys_calls sys)) sys)
         \<lparr>info_sender = sender, info_funds = []\<rparr> msg (sys_registry sys))) (\<lambda>(r, s).
     for_each (forward (exec n D ds e) (a_registry D)) (messages r)
       (sys\<lparr>sys_registry := s, sys_calls := Suc (sys_calls sys)\<rparr>))"

section \<open>The calls in a response\<close>

fun wasm_calls :: "cosmos_msg list \<Rightarrow> (addr \<times> wasm_payload \<times> coin list) list" where
  "wasm_calls [] = []"
| "wasm_calls (WasmExecute t p fs # ms) = (t, p, fs) # wasm_calls ms"
| "wasm_calls (_ # ms) = wasm_calls ms"

lemma wasm_calls_append [simp]: "wasm_calls (ms @ ms') = wasm_calls ms @ wasm_calls ms'"
  by (induction ms rule: wasm_calls.induct) auto

lemma wasm_calls_prepared [simp]:
  "wasm_calls (map (\<lambda>(v, a). prepare_wrapped_delegate_msg denom (f a) x v) shares) = []"
  "wasm_calls (map (\<lambda>(v, a). prepare_wrapped_undelegate_msg denom (f a) x v) shares) = []"
  "wasm_calls (map (\<lambda>(v, c). prepare_wrapped_begin_redelegate_msg (g c) (h c) x y v) reds) = []"
  "wasm_calls (map (\<lambda>del. WithdrawDelegatorReward (del_validator del)) dels) = []"
  by (induction shares, simp_all add: prepare_wrapped_delegate_msg_def prepare_wrapped_undelegate_msg_def
      to_any_def Let_def split_beta)
    (induction reds, auto simp: prepare_wrapped_begin_redelegate_msg_def to_any_def, induction dels, auto)

lemma for_each_append:
  "for_each body (as @ bs) s = and_then (for_each body as s) (for_each body bs)"
  by (induction as arbitrary: s) (simp_all add: and_then_def split: sum.split)

lemma forward_calls:
  "for_each (forward run sender) ms s = for_each (\<lambda>(t, p, fs). run sender t p fs) (wasm_calls ms) s"
  by (induction ms arbitrary: s rule: wasm_calls.induct)
    (simp_all add: forward_def and_then_def split: sum.split)

lemma to_token_calls: "to_token ms = to_token (map (\<lambda>(t, p, fs). WasmExecute t p fs) (wasm_calls ms))"
  by (induction ms rule: to_token.induct) auto

lemma stake_calls:
  assumes "execute_stake d e info kind s = Inr (r, s')"
  shows "case kind of
      LSTMint \<Rightarrow> \<exists>t n. wasm_calls (messages r) = [(t, Cw20Payload (Mint (info_sender info) n), [])]
    | StakeRewardsType \<Rightarrow> wasm_calls (messages r) = []"
  using assms unfolding execute_stake_def
proof (elim outcome_elims, goal_cases)
  case (1 params config st0 dispatcher batch payment _ evs _ st s1 issued minted supp tot st'
      s2 _ evs' s3 registry vs ds msgs)
  have "wasm_calls msgs = []"
    using 1(24) by (auto simp: delegate_messages_def outcome_simps)
  with 1(25) show ?case
    by (cases kind) (auto simp: outcome_simps)
qed

lemma epoch_completion_calls:
  "check_for_unstake_batch_epoch_completion d e batch s = Inr (msgs, evs, batch', s') \<Longrightarrow>
   wasm_calls msgs = []"
  by (erule epoch_completion_cases)
    (auto simp: process_undelegations_for_batch_def pick_validator_for_undelegation_def
      outcome_simps Let_def)

lemma unstake_calls:
  assumes "execute_unstake d e amount sender flow s = Inr (r, s')"
  shows "\<exists>t. wasm_calls (messages r) = [(t, Cw20Payload
    (case flow of BurnFlow \<Rightarrow> Burn amount | BurnFromFlow \<Rightarrow> BurnFrom sender amount), [])]"
  using assms
  by (rule execute_unstake_InrD) (auto dest!: epoch_completion_calls burn_message_Inr)

lemma silent_calls:
  "execute_update_config d info no token reg disp s = Inr (r, s') \<Longrightarrow> wasm_calls (messages r) = []"
  "execute_update_params info pause el up s = Inr (r, s') \<Longrightarrow> wasm_calls (messages r) = []"
  "execute_slashing d e s = Inr (r, s') \<Longrightarrow> wasm_calls (messages r) = []"
  "execute_redelegate_proxy e info src reds s = Inr (r, s') \<Longrightarrow> wasm_calls (messages r) = []"
  "execute_process_undelegations d e s = Inr (r, s') \<Longrightarrow> wasm_calls (messages r) = []"
  "execute_process_withdraw_requests d e s = Inr (r, s') \<Longrightarrow> wasm_calls (messages r) = []"
  "execute_withdraw_unstaked_impl d e info ids s = Inr (r, s') \<Longrightarrow> wasm_calls (messages r) = []"
proof -
  show "execute_update_config d info no token reg disp s = Inr (r, s') \<Longrightarrow> wasm_calls (messages r) = []"
    by (erule execute_update_config_InrD) (simp split: option.splits)
  show "execute_update_params info pause el up s = Inr (r, s') \<Longrightarrow> wasm_calls (messages r) = []"
    "execute_slashing d e s = Inr (r, s') \<Longrightarrow> wasm_calls (messages r) = []"
    "execute_redelegate_proxy e info src reds s = Inr (r, s') \<Longrightarrow> wasm_calls (messages r) = []"
    by (auto simp: execute_update_params_def execute_slashing_def execute_redelegate_proxy_def
        outcome_simps response_new_def Let_def split: if_splits)
  show "execute_process_undelegations d e s = Inr (r, s') \<Longrightarrow> wasm_calls (messages r) = []"
    by (auto simp: execute_process_undelegations_def outcome_simps response_new_def
        dest: epoch_completion_calls split: if_splits)
  show "execute_process_withdraw_requests d e s = Inr (r, s') \<Longrightarrow> wasm_calls (messages r) = []"
    unfolding execute_process_withdraw_requests_def
    by (elim outcome_elims) (auto simp: response_new_def)
  show "execute_withdraw_unstaked_impl d e info ids s = Inr (r, s') \<Longrightarrow> wasm_calls (messages r) = []"
    unfolding execute_withdraw_unstaked_impl_def by (elim outcome_elims) auto
qed

lemma global_index_calls:
  "execute_update_global_index d e s = Inr (r, s') \<Longrightarrow>
   \<exists>t. wasm_calls (messages r) = [(t, RewardsPayload DispatchRewards, [])]"
  by (auto simp: execute_update_global_index_def withdraw_all_rewards_def outcome_simps
      response_new_def split: if_splits)

text \<open>The hub calls one contract at most.\<close>

lemma hub_calls:
  assumes "hub_execute d e info msg s = Inr (r, s')"
  shows "case msg of
      Receive m \<Rightarrow> \<exists>t. wasm_calls (messages r) = [(t, Cw20Payload (Burn (receive_amount m)), [])]
    | Unstake a \<Rightarrow> \<exists>t. wasm_calls (messages r) = [(t, Cw20Payload (BurnFrom (info_sender info) a), [])]
    | Stake \<Rightarrow> \<exists>t n. wasm_calls (messages r) = [(t, Cw20Payload (Mint (info_sender info) n), [])]
    | UpdateGlobalIndex \<Rightarrow> \<exists>t. wasm_calls (messages r) = [(t, RewardsPayload DispatchRewards, [])]
    | _ \<Rightarrow> wasm_calls (messages r) = []"
  using assms
  by (cases msg)
    (auto simp: hub_execute_def outcome_simps receive_cw20_def execute_withdraw_unstaked_def
      execute_withdraw_unstaked_for_batches_def silent_calls
      dest: unstake_calls stake_calls global_index_calls
      split: cw20_hook_msg.splits if_splits)

section \<open>A transaction ends\<close>

text \<open>
  The library's responses carry no message, except that a send notifies the receiver.
\<close>

definition silent :: "('c \<Rightarrow> token_error + response \<times> 'c) \<Rightarrow> bool" where
  "silent f \<longleftrightarrow> (\<forall>b r b'. f b = Inr (r, b') \<longrightarrow> messages r = [])"

definition notifies :: "addr \<Rightarrow> ('c \<Rightarrow> token_error + response \<times> 'c) \<Rightarrow> bool" where
  "notifies x f \<longleftrightarrow> (\<forall>b r b'. f b = Inr (r, b') \<longrightarrow>
     (\<exists>m. messages r = [WasmExecute x (HubPayload (Receive m)) []]))"

definition message_law :: "'c cw20_base \<Rightarrow> bool" where
  "message_law ops \<longleftrightarrow> (\<forall>e info x y a m ex u v w.
     silent (cw20_transfer ops e info x a)
     \<and> notifies x (cw20_send ops e info x a m)
     \<and> silent (cw20_transfer_from ops e info x y a)
     \<and> silent (cw20_increase_allowance ops e info x a ex)
     \<and> silent (cw20_decrease_allowance ops e info x a ex)
     \<and> notifies y (cw20_send_from ops e info x y a m)
     \<and> silent (cw20_mint ops e info x a)
     \<and> silent (cw20_update_minter ops e info ex)
     \<and> silent (cw20_update_marketing ops e info u v w)
     \<and> silent (cw20_upload_logo ops e info x))"

text \<open>How deep the messages that a payload causes can go.\<close>

fun depth :: "wasm_payload \<Rightarrow> nat" where
  "depth (Cw20Payload m) = (case m of Send _ _ _ \<Rightarrow> 4 | SendFrom _ _ _ _ \<Rightarrow> 4 | Burn _ \<Rightarrow> 2
     | BurnFrom _ _ \<Rightarrow> 2 | _ \<Rightarrow> 1)"
| "depth (HubPayload m) = (case m of Receive _ \<Rightarrow> 3 | Unstake _ \<Rightarrow> 3 | UpdateGlobalIndex \<Rightarrow> 3
     | Stake \<Rightarrow> 2 | _ \<Rightarrow> 1)"
| "depth (RewardsPayload m) = (case m of DispatchRewards \<Rightarrow> 2 | _ \<Rightarrow> 1)"

lemma depth_bounds: "0 < depth p" "depth p \<le> 4"
  by (cases p; auto split: cw20_execute_msg.split hub_execute_msg.split rewards_execute_msg.split)+

definition lower :: "nat \<Rightarrow> cosmos_msg list \<Rightarrow> bool" where
  "lower k ms \<longleftrightarrow> (\<forall>(t, p, fs) \<in> set (wasm_calls ms). depth p < k)"

lemma hub_lower:
  "hub_execute d e info msg s = Inr (r, s') \<Longrightarrow> lower (depth (HubPayload msg)) (messages r)"
  by (drule hub_calls) (cases msg; auto simp: lower_def)

lemma in_base_messages:
  "in_base f s = Inr (r, s') \<Longrightarrow> silent f \<Longrightarrow> messages r = []"
  "in_base f s = Inr (r, s') \<Longrightarrow> notifies x f \<Longrightarrow>
     \<exists>m. messages r = [WasmExecute x (HubPayload (Receive m)) []]"
  by (auto simp: in_base_Inr silent_def notifies_def)

lemma token_lower:
  assumes law: "message_law ops" and run: "token_execute ops e info msg s = Inr (r, s')"
  shows "lower (depth (Cw20Payload msg)) (messages r)"
  using run
proof (cases msg)
  case (Send x a m)
  with run in_base_messages(2) law show ?thesis
    by (fastforce simp: token_execute_def lower_def message_law_def)
next
  case (SendFrom x y a m)
  with run in_base_messages(2) law show ?thesis
    by (fastforce simp: token_execute_def lower_def message_law_def)
next
  case (Burn a)
  with run show ?thesis
    by (auto simp: token_execute_def token_burn_def outcome_simps lower_def response_new_def)
next
  case (BurnFrom x a)
  with run show ?thesis
    by (auto simp: token_execute_def token_burn_from_def outcome_simps lower_def response_new_def)
qed (use law in \<open>auto simp: token_execute_def message_law_def lower_def dest!: in_base_messages(1)\<close>)

lemma dispatcher_lower:
  "dispatcher_execute d e info msg s = Inr (r, s') \<Longrightarrow> lower (depth (RewardsPayload msg)) (messages r)"
  by (cases msg)
    (auto simp: dispatcher_execute_def execute_dispatch_rewards_def update_rewards_config_def
      outcome_simps Let_def lower_def response_new_def split: if_splits option.splits)

lemma lift_err_Inr [outcome_simps]: "lift_err h m = Inr a \<longleftrightarrow> m = Inr a"
  by (auto simp: lift_err_def split: sum.splits failure.splits)

lemma call_lower:
  assumes "message_law (dep_cw20 D)" and "call D d e sender target payload funds sys = Inr (r, sys')"
  shows "lower (depth payload) (messages r)"
  using assms(2) hub_lower token_lower [OF assms(1)] dispatcher_lower
  by (fastforce simp: call_def Let_def outcome_simps response_new_def lower_def
      split: if_splits wasm_payload.splits)

text \<open>With enough depth for its payload a call never hits the bound, and more makes no difference.\<close>

lemma for_each_cong_set:
  "(\<And>a s. a \<in> set as \<Longrightarrow> body a s = body' a s) \<Longrightarrow> for_each body as s = for_each body' as s"
  by (induction as arbitrary: s) (auto simp: and_then_def split: sum.split)

lemma for_each_error:
  assumes "for_each body as s = Inl f" and "\<And>a s. a \<in> set as \<Longrightarrow> body a s \<noteq> Inl f"
  shows False
  using assms by (induction as arbitrary: s) (auto simp: and_then_Inl)

lemma call_not_too_deep: "call D d e sender target payload funds sys \<noteq> Inl (Err TooDeep)"
  by (auto simp: call_def Let_def and_then_Inl lift_err_def
      split: wasm_payload.split sum.splits failure.splits)

lemma exec_enough:
  assumes law: "message_law (dep_cw20 D)" and "depth payload \<le> n" "depth payload \<le> m"
  shows "exec n D ds e sender target payload funds sys = exec m D ds e sender target payload funds sys
    \<and> exec n D ds e sender target payload funds sys \<noteq> Inl (Err TooDeep)"
  using assms(2,3)
proof (induction n arbitrary: m sender target payload funds sys)
  case 0
  with depth_bounds(1) [of payload] show ?case by simp
next
  case (Suc n)
  obtain m' where m: "m = Suc m'"
    using Suc.prems(2) depth_bounds(1) [of payload] by (cases m) auto
  let ?call = "call D (ds (sys_calls sys)) e sender target payload funds
    (sys\<lparr>sys_calls := Suc (sys_calls sys)\<rparr>)"
  show ?case
  proof (cases ?call)
    case (Inl f)
    with call_not_too_deep show ?thesis by (metis exec.simps(2) m and_then_simps(2))
  next
    case (Inr rs)
    obtain r sys' where rs: "rs = (r, sys')" by (cases rs)
    have "depth p \<le> n \<and> depth p \<le> m'" if "(t, p, fs) \<in> set (wasm_calls (messages r))" for t p fs
      using call_lower [OF law, of "ds (sys_calls sys)" e sender target payload] Inr rs that Suc.prems m
      by (fastforce simp: lower_def)
    note below = Suc.IH [OF conjunct1 [OF this] conjunct2 [OF this]]
    have "for_each (forward (exec n D ds e) target) (messages r) sys'
        = for_each (forward (exec m' D ds e) target) (messages r) sys'"
      unfolding forward_calls by (rule for_each_cong_set) (auto dest: below)
    moreover have "for_each (forward (exec n D ds e) target) (messages r) sys' \<noteq> Inl (Err TooDeep)"
      unfolding forward_calls by (rule notI, erule for_each_error) (auto dest: below)
    ultimately show ?thesis by (simp add: m Inr rs)
  qed
qed

section \<open>What every transaction keeps\<close>

text \<open>The supply is a \<open>Uint128\<close> of the library: a mint that would exceed it fails.\<close>

definition width_law :: "'c deployment \<Rightarrow> bool" where
  "width_law D \<longleftrightarrow> (\<forall>e info x a b r b'.
     cw20_mint (dep_cw20 D) e info x a b = Inr (r, b') \<longrightarrow> dep_supply D b' < 2 ^ 128)"

definition deployment_ok :: "deps \<Rightarrow> 'c deployment \<Rightarrow> bool" where
  "deployment_ok d D \<longleftrightarrow> distinct [a_hub D, a_token D, a_registry D, a_dispatcher D]
     \<and> cw20_laws d (dep_cw20 D) (dep_supply D) (dep_minter D) \<and> width_law D"

definition sys_ok :: "'c deployment \<Rightarrow> 'c system \<Rightarrow> bool" where
  "sys_ok D sys \<longleftrightarrow> hub_inv (sys_hub sys)
     \<and> (\<exists>c. s_config (sys_hub sys) = Some c \<and> lst_token c = Some (a_token D))
     \<and> t_hub_contract (sys_token sys) = Some (a_hub D)
     \<and> dep_minter D (t_base (sys_token sys)) = Some (a_hub D)
     \<and> supply_now D sys < 2 ^ 128
     \<and> registry_inv (sys_registry sys) \<and> fee_bounded (sys_dispatcher sys)"

definition sys_inv :: "'c deployment \<Rightarrow> 'c system \<Rightarrow> bool" where
  "sys_inv D sys \<longleftrightarrow> sys_ok D sys \<and> backed (supply_now D sys) (sys_hub sys)"

lemma sys_inv_calls [simp]: "sys_inv D (sys\<lparr>sys_calls := n\<rparr>) = sys_inv D sys"
  by (simp add: sys_inv_def sys_ok_def supply_now_def)

lemma backed_less: "backed n s \<Longrightarrow> m \<le> n \<Longrightarrow> backed m s"
  unfolding backed_def backs_def
  by (meson add_le_mono1 le_trans mult_le_mono2)

lemma hub_keeps_token:
  assumes "hub_execute d e info msg s = Inr (r, s')" and "s_config s = Some c" "lst_token c = Some t"
  shows "\<exists>c'. s_config s' = Some c' \<and> lst_token c' = Some t"
  using assms(1)
  by (cases rule: hub_execute_cases)
    (use assms(2,3) in \<open>auto simp: same_settings_def dest!: settings
      elim!: execute_update_params_InrD execute_update_config_InrD\<close>)

lemma asked_issued:
  assumes "sys_ok D sys"
  shows "query_total_lst_token_issued (asked D d sys) (sys_hub sys) = Inr (of_nat (supply_now D sys))"
    and "unat (of_nat (supply_now D sys) :: uint128) = supply_now D sys"
  using assms
  by (auto simp: sys_ok_def query_total_lst_token_issued_def outcome_simps asked_def query_std_def
      from_err_def load_config_def load_def ok_or_def unat_of_nat)

lemma asked_ratio [simp]: "decimal_ratio_law (asked D d sys) = decimal_ratio_law d"
  by (simp add: decimal_ratio_law_def asked_def)

text \<open>A call of the hub, with the supply its message to the token leads to.\<close>

lemma hub_call_inv:
  assumes inv: "sys_inv D sys" and law: "decimal_ratio_law d"
    and run: "call D d e sender (a_hub D) payload funds sys = Inr (r, sys')"
  obtains s' where "sys' = sys\<lparr>sys_hub := s'\<rparr>" "sys_ok D sys'"
    "burned (to_token (messages r)) \<le> supply_now D sys \<Longrightarrow>
      backed (supply_after (to_token (messages r)) (supply_now D sys)) s'"
    "wasm_calls (messages r) = []
      \<or> (\<exists>t. wasm_calls (messages r) = [(t, RewardsPayload DispatchRewards, [])])
      \<or> (\<exists>m. wasm_calls (messages r) = [(a_token D, Cw20Payload m, [])]
          \<and> ((\<exists>x a. m = Mint x a) \<or> (\<exists>a. m = Burn a) \<or> (\<exists>x a. m = BurnFrom x a)))"
proof -
  from run obtain m s' where m: "payload = HubPayload m" and sys': "sys' = sys\<lparr>sys_hub := s'\<rparr>"
    and ex: "hub_execute (asked D d sys) (e\<lparr>contract_address := a_hub D\<rparr>)
      \<lparr>info_sender = sender, info_funds = funds\<rparr> m (sys_hub sys) = Inr (r, s')"
    by (auto simp: call_def Let_def outcome_simps split: wasm_payload.splits)
  have ok: "sys_ok D sys" and pre: "backed (supply_now D sys) (sys_hub sys)"
    using inv by (simp_all add: sys_inv_def)
  from ok obtain c where c: "s_config (sys_hub sys) = Some c" "lst_token c = Some (a_token D)"
    by (auto simp: sys_ok_def)
  note issued = asked_issued(1) [OF ok, of d] asked_issued(2) [OF ok]
  have "sys_ok D sys'"
    using ok execute_keeps(1) [OF ex] hub_keeps_token [OF ex c]
    by (simp add: sys' sys_ok_def supply_now_def)
  moreover have "backed (supply_after (to_token (messages r)) (supply_now D sys)) s'"
    if "burned (to_token (messages r)) \<le> supply_now D sys"
    using execute_backed [OF _ ex issued(1)] law pre that issued(2) by simp
  moreover have "wasm_calls (messages r) = []
      \<or> (\<exists>t. wasm_calls (messages r) = [(t, RewardsPayload DispatchRewards, [])])
      \<or> (\<exists>m. wasm_calls (messages r) = [(a_token D, Cw20Payload m, [])]
          \<and> ((\<exists>x a. m = Mint x a) \<or> (\<exists>a. m = Burn a) \<or> (\<exists>x a. m = BurnFrom x a)))"
    using hub_calls [OF ex] hub_to_token [OF ex c(1)] c(2) to_token_calls [of "messages r"]
    by (cases m) auto
  ultimately show ?thesis using sys' that by blast
qed

text \<open>A call of the token: only the hub mints.\<close>

lemma token_call_effect:
  assumes ok: "sys_ok D sys" and dep: "deployment_ok d0 D"
    and run: "call D d e sender (a_token D) payload funds sys = Inr (r, sys')"
    and named: "sender = a_hub D \<longrightarrow> (\<forall>x. payload \<noteq> Cw20Payload (UpdateMinter x))"
  obtains m t' where "payload = Cw20Payload m" "sys' = sys\<lparr>sys_token := t'\<rparr>" "sys_ok D sys'"
    "case m of Mint x a \<Rightarrow> sender = a_hub D \<and> supply_now D sys' = supply_now D sys + unat a
       | Burn a \<Rightarrow> supply_now D sys = supply_now D sys' + unat a
       | BurnFrom x a \<Rightarrow> supply_now D sys = supply_now D sys' + unat a
       | _ \<Rightarrow> supply_now D sys' = supply_now D sys"
proof -
  have ne: "a_token D \<noteq> a_hub D" using dep by (auto simp: deployment_ok_def)
  from run ne obtain m t' where m: "payload = Cw20Payload m" and sys': "sys' = sys\<lparr>sys_token := t'\<rparr>"
    and ex: "token_execute (dep_cw20 D) (e\<lparr>contract_address := a_token D\<rparr>)
      \<lparr>info_sender = sender, info_funds = funds\<rparr> m (sys_token sys) = Inr (r, t')"
    by (auto simp: call_def Let_def outcome_simps split: wasm_payload.splits)
  have laws: "cw20_laws d0 (dep_cw20 D) (dep_supply D) (dep_minter D)" and "width_law D"
    using dep by (simp_all add: deployment_ok_def)
  note effect = token_supply_effect [OF laws ex]
  have minter: "dep_minter D (t_base (sys_token sys)) = Some (a_hub D)"
    using ok by (simp add: sys_ok_def)
  have "dep_minter D (t_base t') = Some (a_hub D)"
    using effect minter named m by (cases m) auto
  moreover have "supply_now D sys' < 2 ^ 128"
  proof (cases "\<exists>x a. m = Mint x a")
    case True
    with ex \<open>width_law D\<close> show ?thesis
      by (auto simp: token_execute_def in_base_Inr width_law_def sys' supply_now_def)
  next
    case False
    with effect ok show ?thesis by (cases m) (auto simp: sys' supply_now_def sys_ok_def)
  qed
  ultimately have "sys_ok D sys'"
    using ok token_frame(1) [OF ex] by (simp add: sys_ok_def sys' supply_now_def)
  with effect minter show ?thesis
    by (intro that [OF m sys']) (auto simp: sys' supply_now_def split: cw20_execute_msg.splits)
qed

text \<open>Everything a call causes keeps the invariant, unless the hub itself mints in no stake.\<close>

definition minting :: "wasm_payload \<Rightarrow> bool" where
  "minting p \<longleftrightarrow> (\<exists>m. p = Cw20Payload m \<and> ((\<exists>x a. m = Mint x a) \<or> (\<exists>x. m = UpdateMinter x)))"

lemma forward_inv:
  assumes "for_each (forward (exec n D ds e) sender) ms sys = Inr sys'" and "sys_inv D sys"
    and "\<And>t p fs sys1 sys2. (t, p, fs) \<in> set (wasm_calls ms) \<Longrightarrow> sys_inv D sys1 \<Longrightarrow>
      exec n D ds e sender t p fs sys1 = Inr sys2 \<Longrightarrow> sys_inv D sys2"
  shows "sys_inv D sys'"
  using for_each_invariant [where P = "sys_inv D", OF assms(1) [unfolded forward_calls] assms(2)] assms(3) by fastforce

lemma token_call_inv:
  assumes "sys_ok D sys" "deployment_ok d0 D"
    and "call D d e sender (a_token D) (Cw20Payload m) funds sys = Inr (r, sys')"
    and "backed (case m of Mint x a \<Rightarrow> supply_now D sys + unat a | _ \<Rightarrow> supply_now D sys) (sys_hub sys)
      \<or> (case m of Burn a \<Rightarrow> unat a \<le> supply_now D sys \<longrightarrow> backed (supply_now D sys - unat a) (sys_hub sys)
          | BurnFrom x a \<Rightarrow> unat a \<le> supply_now D sys \<longrightarrow> backed (supply_now D sys - unat a) (sys_hub sys)
          | _ \<Rightarrow> False)"
    and "sender = a_hub D \<longrightarrow> (\<forall>x. m \<noteq> UpdateMinter x)"
  shows "sys_inv D sys'"
proof -
  have named: "sender = a_hub D \<longrightarrow> (\<forall>x. Cw20Payload m \<noteq> Cw20Payload (UpdateMinter x))"
    using assms(5) by simp
  from assms(1-3) named obtain t' where sys': "sys' = sys\<lparr>sys_token := t'\<rparr>" and ok: "sys_ok D sys'"
    and effect: "case m of Mint x a \<Rightarrow> sender = a_hub D \<and> supply_now D sys' = supply_now D sys + unat a
       | Burn a \<Rightarrow> supply_now D sys = supply_now D sys' + unat a
       | BurnFrom x a \<Rightarrow> supply_now D sys = supply_now D sys' + unat a
       | _ \<Rightarrow> supply_now D sys' = supply_now D sys"
    by (rule token_call_effect) simp
  have hub: "sys_hub sys' = sys_hub sys" by (simp add: sys')
  have "backed (supply_now D sys') (sys_hub sys')"
    unfolding hub using effect assms(4) by (cases m) (auto elim: backed_less)
  with ok show ?thesis by (simp add: sys_inv_def)
qed

lemma exec_inv:
  assumes dep: "deployment_ok d0 D" and ratio: "\<And>i. decimal_ratio_law (ds i)"
    and "exec n D ds e sender target payload funds sys = Inr sys'" and "sys_inv D sys"
    and "sender = a_hub D \<and> target = a_token D \<longrightarrow> \<not> minting payload"
  shows "sys_inv D sys'"
  using assms(3-5)
proof (induction n arbitrary: sender target payload funds sys sys' rule: less_induct)
  case (less n)
  then obtain k where n: "n = Suc k" by (cases n) auto
  let ?d = "ds (sys_calls sys)" and ?sys = "sys\<lparr>sys_calls := Suc (sys_calls sys)\<rparr>"
  from less.prems(1) obtain r sys1 where
    call: "call D ?d e sender target payload funds ?sys = Inr (r, sys1)"
    and rest: "for_each (forward (exec k D ds e) target) (messages r) sys1 = Inr sys'"
    by (auto simp: n outcome_simps)
  have inv: "sys_inv D ?sys" using less.prems(2) by simp
  have IH: "sys_inv D sys2" if "exec j D ds e a t p fs sys0 = Inr sys2" "sys_inv D sys0" "j < n"
      "a = a_hub D \<and> t = a_token D \<longrightarrow> \<not> minting p" for j a t p fs sys0 sys2
    using less.IH [OF that(3,1,2,4)] .
  have distinct: "a_hub D \<noteq> a_token D" "a_dispatcher D \<noteq> a_hub D"
    using dep by (auto simp: deployment_ok_def)
  have forwarded: "sys_inv D sys'" if "sys_inv D sys1" "target \<noteq> a_hub D"
    using forward_inv [OF rest that(1)] IH that(2) n by blast
  show ?case
  proof (cases "target = a_hub D")
    case True
    from hub_call_inv [OF inv ratio call [unfolded True]] obtain s' where
      sys1: "sys1 = ?sys\<lparr>sys_hub := s'\<rparr>" "sys_ok D sys1"
      and backed: "burned (to_token (messages r)) \<le> supply_now D ?sys \<Longrightarrow>
        backed (supply_after (to_token (messages r)) (supply_now D ?sys)) s'"
      and calls: "wasm_calls (messages r) = []
      \<or> (\<exists>t. wasm_calls (messages r) = [(t, RewardsPayload DispatchRewards, [])])
      \<or> (\<exists>m. wasm_calls (messages r) = [(a_token D, Cw20Payload m, [])]
          \<and> ((\<exists>x a. m = Mint x a) \<or> (\<exists>a. m = Burn a) \<or> (\<exists>x a. m = BurnFrom x a)))"
      by blast
    have same: "supply_now D sys1 = supply_now D ?sys" "sys_hub sys1 = s'"
      by (simp_all add: sys1(1) supply_now_def)
    note tok = to_token_calls [of "messages r"]
    from calls consider "wasm_calls (messages r) = []"
      | t where "wasm_calls (messages r) = [(t, RewardsPayload DispatchRewards, [])]"
      | m where "wasm_calls (messages r) = [(a_token D, Cw20Payload m, [])]"
        "(\<exists>x a. m = Mint x a) \<or> (\<exists>a. m = Burn a) \<or> (\<exists>x a. m = BurnFrom x a)"
      by blast
    then show ?thesis
    proof cases
      case 1
      with rest backed tok sys1(2) same show ?thesis
        by (auto simp: forward_calls sys_inv_def)
    next
      case one: (2 t)
      with backed tok sys1(2) same have "sys_inv D sys1" by (simp add: sys_inv_def)
      with rest one IH [of k] n show ?thesis
        by (auto simp: forward_calls outcome_simps minting_def)
    next
      case (3 m)
      note one = 3(1) and kind = 3(2)
      from rest one True have run: "exec k D ds e (a_hub D) (a_token D) (Cw20Payload m) [] sys1 = Inr sys'"
        by (auto simp: forward_calls outcome_simps)
      then obtain j where k: "k = Suc j" by (cases k) auto
      let ?sys1 = "sys1\<lparr>sys_calls := Suc (sys_calls sys1)\<rparr>"
      from run obtain r2 sys2 where
        call2: "call D (ds (sys_calls sys1)) e (a_hub D) (a_token D) (Cw20Payload m) [] ?sys1 = Inr (r2, sys2)"
        and rest2: "for_each (forward (exec j D ds e) (a_token D)) (messages r2) sys2 = Inr sys'"
        by (auto simp: k outcome_simps)
      have ok1: "sys_ok D ?sys1" using sys1(2) by (simp add: sys_ok_def supply_now_def)
      have "supply_now D ?sys1 = supply_now D ?sys" "sys_hub ?sys1 = s'"
        by (simp_all add: sys1(1) supply_now_def)
      then have "sys_inv D sys2"
        using backed tok one kind
        by (intro token_call_inv [OF ok1 dep call2]) (auto simp: sys1(1))
      then show ?thesis
        using forward_inv [OF rest2] IH [of j] n k distinct by auto
    qed
  next
    case other: False
    show ?thesis
    proof (cases "target = a_token D")
      case True
      from call True distinct obtain m where m: "payload = Cw20Payload m"
        by (auto simp: call_def Let_def split: wasm_payload.splits)
      have ok: "sys_ok D ?sys" and pre: "backed (supply_now D ?sys) (sys_hub ?sys)"
        using inv by (simp_all add: sys_inv_def)
      have not_hub: "sender = a_hub D \<longrightarrow> \<not> minting (Cw20Payload m)"
        using less.prems(3) True m by simp
      then have named: "sender = a_hub D \<longrightarrow> (\<forall>x. m \<noteq> UpdateMinter x)"
        "sender = a_hub D \<longrightarrow> (\<forall>x. Cw20Payload m \<noteq> Cw20Payload (UpdateMinter x))"
        by (auto simp: minting_def)
      have "m \<noteq> Mint x a" for x a
      proof
        assume mint: "m = Mint x a"
        show False
          by (rule token_call_effect [OF ok dep call [unfolded True m] named(2)])
            (use mint not_hub in \<open>clarsimp simp: minting_def\<close>)
      qed
      then have "(case m of Mint x a \<Rightarrow> supply_now D ?sys + unat a | _ \<Rightarrow> supply_now D ?sys)
          = supply_now D ?sys"
        by (cases m) auto
      with pre have "sys_inv D sys1"
        by (intro token_call_inv [OF ok dep call [unfolded True m] _ named(1)] disjI1) (simp only:)
      then show ?thesis using other by (rule forwarded)
    next
      case False
      have "sys_inv D sys1"
      proof (cases "target = a_dispatcher D")
        case True
        with call other False obtain m s' info d' e' where "sys1 = ?sys\<lparr>sys_dispatcher := s'\<rparr>"
          "dispatcher_execute d' e' info m (sys_dispatcher ?sys) = Inr (r, s')"
          by (auto simp: call_def Let_def outcome_simps split: wasm_payload.splits)
        then show ?thesis
          using inv dispatcher.inv_step [OF _ dispatcher_message]
          by (auto simp: sys_inv_def sys_ok_def supply_now_def)
      next
        case not_disp: False
        with call other False inv show ?thesis
          by (auto simp: call_def Let_def split: if_splits)
      qed
      then show ?thesis using other by (rule forwarded)
    qed
  qed
qed

section \<open>The transition system\<close>

text \<open>
  The contracts have been instantiated, the token with the hub as its minter, and the owner of the
  hub has named the token. From there on anybody who is not one of the contracts sends
  transactions, and the contracts may be migrated.
\<close>

definition outsider :: "'c deployment \<Rightarrow> addr \<Rightarrow> bool" where
  "outsider D a \<longleftrightarrow> a \<notin> {a_hub D, a_token D, a_registry D, a_dispatcher D}"

inductive sys_initial :: "deps \<Rightarrow> 'c deployment \<Rightarrow> 'c system \<Rightarrow> bool" for d0 D where
  deployed: "hub_initial h0 \<Longrightarrow>
    hub_execute d e info (UpdateConfig ow (Some token) reg disp) h0 = Inr (r, h) \<Longrightarrow>
    s_config h = Some c \<Longrightarrow> lst_token c = Some (a_token D) \<Longrightarrow>
    token_initial d0 (dep_cw20 D) t \<Longrightarrow> t_hub_contract t = Some (a_hub D) \<Longrightarrow>
    registry_initial rg \<Longrightarrow> dispatcher_initial dp \<Longrightarrow>
    sys_initial d0 D \<lparr>sys_hub = h, sys_token = t, sys_registry = rg, sys_dispatcher = dp, sys_calls = 0\<rparr>"

inductive sys_step :: "'c deployment \<Rightarrow> 'c system \<Rightarrow> 'c system \<Rightarrow> bool" for D where
  transaction: "exec n D ds e sender target payload funds sys = Inr sys' \<Longrightarrow>
    \<forall>i. decimal_ratio_law (ds i) \<Longrightarrow> outsider D sender \<Longrightarrow> sys_step D sys sys'"
| registry_transaction: "exec_registry n D ds e sender msg sys = Inr sys' \<Longrightarrow>
    \<forall>i. decimal_ratio_law (ds i) \<Longrightarrow> sys_step D sys sys'"
| migrate_hub: "hub_migrate d (sys_hub sys) = Inr (r, h) \<Longrightarrow> sys_step D sys (sys\<lparr>sys_hub := h\<rparr>)"
| migrate_token: "token_migrate d (sys_token sys) = Inr (r, t) \<Longrightarrow> sys_step D sys (sys\<lparr>sys_token := t\<rparr>)"
| migrate_registry: "registry_migrate d (sys_registry sys) = Inr (r, rg) \<Longrightarrow>
    sys_step D sys (sys\<lparr>sys_registry := rg\<rparr>)"
| migrate_dispatcher: "dispatcher_migrate d (sys_dispatcher sys) = Inr (r, dp) \<Longrightarrow>
    sys_step D sys (sys\<lparr>sys_dispatcher := dp\<rparr>)"

inductive_cases sys_initialE: "sys_initial d0 D sys"
inductive_cases sys_stepE: "sys_step D sys sys'"

lemma hub_initial_backed:
  assumes "hub_initial h"
  shows "backed 0 h"
  using assms
proof (cases rule: hub_initial.cases)
  case (1 d e info msg r)
  then show ?thesis
    unfolding hub_instantiate_def by (elim outcome_elims) (auto simp: backed_def backs_def)
qed

lemma sys_initial_inv:
  assumes dep: "deployment_ok d0 D" and init: "sys_initial d0 D sys"
  shows "sys_inv D sys"
  using init
proof (rule sys_initialE)
  fix h0 d e info ow token reg disp r h c t rg dp
  assume h0: "hub_initial h0"
    and conf: "hub_execute d e info (UpdateConfig ow (Some token) reg disp) h0 = Inr (r, h)"
    and c: "s_config h = Some c" "lst_token c = Some (a_token D)"
    and t: "token_initial d0 (dep_cw20 D) t" "t_hub_contract t = Some (a_hub D)"
    and rest: "registry_initial rg" "dispatcher_initial dp"
    and sys: "sys = \<lparr>sys_hub = h, sys_token = t, sys_registry = rg, sys_dispatcher = dp, sys_calls = 0\<rparr>"
  have laws: "cw20_laws d0 (dep_cw20 D) (dep_supply D) (dep_minter D)"
    using dep by (simp add: deployment_ok_def)
  have "minter_is_hub (dep_minter D) t"
    using invariant_of.inv_initial [OF token_invariant [OF laws] t(1)] .
  moreover have zero: "dep_supply D (t_base t) = 0"
    using t(1) laws [unfolded cw20_laws_def init_law_def]
    by (fastforce elim!: token_initialE simp: token_instantiate_def outcome_simps)
  moreover have "hub_inv h"
    using execute_keeps(1) [OF conf] initial_inv [OF h0] by simp
  moreover have "backed 0 h"
    using conf hub_initial_backed [OF h0]
    by (auto simp: hub_execute_def outcome_simps dest!: settings_value elim: same_value_backed
        split: if_splits)
  ultimately show ?thesis
    using c t(2) rest registry.inv_initial dispatcher.inv_initial
    by (auto simp: sys sys_inv_def sys_ok_def supply_now_def minter_is_hub_def)
qed

lemma exec_registry_inv:
  assumes dep: "deployment_ok d0 D" and ratio: "\<And>i. decimal_ratio_law (ds i)"
    and run: "exec_registry n D ds e sender msg sys = Inr sys'" and inv: "sys_inv D sys"
  shows "sys_inv D sys'"
proof -
  have ne: "a_registry D \<noteq> a_hub D" using dep by (auto simp: deployment_ok_def)
  from run obtain r rg where
    ex: "registry_execute (asked D (ds (sys_calls sys)) sys) \<lparr>info_sender = sender, info_funds = []\<rparr> msg
      (sys_registry sys) = Inr (r, rg)"
    and rest: "for_each (forward (exec n D ds e) (a_registry D)) (messages r)
      (sys\<lparr>sys_registry := rg, sys_calls := Suc (sys_calls sys)\<rparr>) = Inr sys'"
    by (auto simp: exec_registry_def outcome_simps)
  have "sys_inv D (sys\<lparr>sys_registry := rg, sys_calls := Suc (sys_calls sys)\<rparr>)"
    using inv registry_execute_inv [OF ex] by (simp add: sys_inv_def sys_ok_def supply_now_def)
  then show ?thesis
    using forward_inv [OF rest] exec_inv [where ds = ds, OF dep ratio] ne by blast
qed

lemma system_invariant:
  assumes dep: "deployment_ok d0 D"
  shows "invariant_of (sys_initial d0 D) (sys_step D) (sys_inv D)"
proof
  show "sys_inv D sys" if "sys_initial d0 D sys" for sys
    by (rule sys_initial_inv [OF dep that])
  show "sys_inv D sys'" if inv: "sys_inv D sys" and "sys_step D sys sys'" for sys sys'
    using that(2)
  proof cases
    case (transaction n ds e sender target payload funds)
    then show ?thesis
      using exec_inv [OF dep _ transaction(1) inv] by (auto simp: outsider_def)
  next
    case (registry_transaction n ds e sender msg)
    then show ?thesis using exec_registry_inv [OF dep _ registry_transaction(1) inv] by blast
  next
    case (migrate_hub d r h)
    from migrate_hub(2) obtain ci where h: "h = (sys_hub sys)\<lparr>s_contract_info := ci\<rparr>"
      by (auto simp: hub_migrate_def outcome_simps)
    show ?thesis
      using inv migrate_keeps [OF migrate_hub(2)]
      by (auto simp: migrate_hub(1) sys_inv_def sys_ok_def supply_now_def backed_def keeps_def h)
  next
    case (migrate_token d r t)
    with inv show ?thesis
      by (auto simp: token_migrate_def outcome_simps sys_inv_def sys_ok_def supply_now_def)
  next
    case (migrate_registry d r rg)
    with inv registry.inv_step [OF _ registry_migration] show ?thesis
      by (auto simp: sys_inv_def sys_ok_def supply_now_def)
  next
    case (migrate_dispatcher d r dp)
    with inv dispatcher.inv_step [OF _ dispatcher_migration] show ?thesis
      by (auto simp: sys_inv_def sys_ok_def supply_now_def)
  qed
qed

lemmas system_reachable = invariant_of.inv_reachable [OF system_invariant]

section \<open>What moves the supply\<close>

text \<open>Payloads that neither mint nor burn, nor cause it.\<close>

fun neutral :: "wasm_payload \<Rightarrow> bool" where
  "neutral (Cw20Payload m) = (case m of Mint _ _ \<Rightarrow> False | Burn _ \<Rightarrow> False | BurnFrom _ _ \<Rightarrow> False
     | Send _ _ _ \<Rightarrow> False | SendFrom _ _ _ _ \<Rightarrow> False | _ \<Rightarrow> True)"
| "neutral (HubPayload m) = (case m of Stake \<Rightarrow> False | Unstake _ \<Rightarrow> False | Receive _ \<Rightarrow> False | _ \<Rightarrow> True)"
| "neutral (RewardsPayload m) = True"

lemma token_supply_unmoved:
  assumes "cw20_laws d0 (dep_cw20 D) (dep_supply D) (dep_minter D)"
    and "token_execute (dep_cw20 D) e info m t = Inr (r, t')"
    and "case m of Mint _ _ \<Rightarrow> False | Burn _ \<Rightarrow> False | BurnFrom _ _ \<Rightarrow> False | _ \<Rightarrow> True"
  shows "dep_supply D (t_base t') = dep_supply D (t_base t)"
  using token_supply_effect [OF assms(1,2)] assms(3) by (cases m) simp_all

lemma neutral_call:
  assumes laws: "cw20_laws d0 (dep_cw20 D) (dep_supply D) (dep_minter D)" "message_law (dep_cw20 D)"
    and call: "call D d e sender target payload funds sys = Inr (r, sys')" and "neutral payload"
  shows "supply_now D sys' = supply_now D sys
    \<and> (\<forall>(t, p, fs) \<in> set (wasm_calls (messages r)). neutral p)"
proof (cases payload)
  case (HubPayload m)
  with call show ?thesis
    using assms(4)
    by (auto simp: call_def Let_def outcome_simps supply_now_def response_new_def split: if_splits
        dest!: hub_calls split: hub_execute_msg.splits)
next
  case (Cw20Payload m)
  have kind: "case m of Mint _ _ \<Rightarrow> False | Burn _ \<Rightarrow> False | BurnFrom _ _ \<Rightarrow> False | _ \<Rightarrow> True"
    using assms(4) Cw20Payload by (cases m) simp_all
  have depth: "depth payload = 1" using assms(4) Cw20Payload by (cases m) simp_all
  have "(t, p, fs) \<notin> set (wasm_calls (messages r))" for t p fs
    using call_lower [OF laws(2) call] depth depth_bounds(1) [of p] by (fastforce simp: lower_def)
  then have "wasm_calls (messages r) = []" by (cases "wasm_calls (messages r)") auto
  with call show ?thesis
    using Cw20Payload token_supply_unmoved [OF laws(1) _ kind]
    by (auto simp: call_def Let_def outcome_simps supply_now_def split: if_splits)
next
  case (RewardsPayload m)
  have "wasm_calls (messages r) \<noteq> [] \<longrightarrow> (\<exists>t fs. wasm_calls (messages r) = [(t, HubPayload StakeRewards, fs)])"
    using call RewardsPayload
    by (cases m) (auto simp: call_def Let_def outcome_simps dispatcher_execute_def
      execute_dispatch_rewards_def update_rewards_config_def response_new_def
      split: if_splits option.splits)
  with call show ?thesis
    using RewardsPayload
    by (cases "wasm_calls (messages r)")
      (auto simp: call_def Let_def outcome_simps supply_now_def split: if_splits)
qed

lemma neutral_exec:
  assumes laws: "cw20_laws d0 (dep_cw20 D) (dep_supply D) (dep_minter D)" "message_law (dep_cw20 D)"
    and "exec n D ds e sender target payload funds sys = Inr sys'" and "neutral payload"
  shows "supply_now D sys' = supply_now D sys"
  using assms(3,4)
proof (induction n arbitrary: sender target payload funds sys sys')
  case (Suc n)
  from Suc.prems(1) obtain r sys1 where
    call: "call D (ds (sys_calls sys)) e sender target payload funds
      (sys\<lparr>sys_calls := Suc (sys_calls sys)\<rparr>) = Inr (r, sys1)"
    and rest: "for_each (\<lambda>(t, p, fs). exec n D ds e target t p fs) (wasm_calls (messages r)) sys1 = Inr sys'"
    by (auto simp: outcome_simps forward_calls)
  note first = neutral_call [OF laws call Suc.prems(2)]
  have "supply_now D sys' = supply_now D sys1"
    by (rule for_each_invariant [where P = "\<lambda>x. supply_now D x = supply_now D sys1", OF rest])
      (use first Suc.IH in fastforce)+
  with first show ?case by (simp add: supply_now_def)
qed simp

text \<open>The call of the token that a stake or an unstake causes.\<close>

lemma exec_token:
  assumes "exec n D ds e sender (a_token D) (Cw20Payload m) funds sys = Inr sys'"
    and "a_token D \<noteq> a_hub D"
  obtains k r t' sys1 where "n = Suc k"
    "token_execute (dep_cw20 D) (e\<lparr>contract_address := a_token D\<rparr>)
       \<lparr>info_sender = sender, info_funds = funds\<rparr> m (sys_token sys) = Inr (r, t')"
    "supply_now D sys1 = dep_supply D (t_base t')"
    "for_each (\<lambda>(t, p, fs). exec k D ds e (a_token D) t p fs) (wasm_calls (messages r)) sys1 = Inr sys'"
proof (cases n)
  case (Suc k)
  with assms obtain r t' where
    "token_execute (dep_cw20 D) (e\<lparr>contract_address := a_token D\<rparr>)
       \<lparr>info_sender = sender, info_funds = funds\<rparr> m (sys_token sys) = Inr (r, t')"
    "for_each (\<lambda>(t, p, fs). exec k D ds e (a_token D) t p fs) (wasm_calls (messages r))
       (sys\<lparr>sys_calls := Suc (sys_calls sys), sys_token := t'\<rparr>) = Inr sys'"
    by (auto simp: call_def Let_def outcome_simps forward_calls)
  then show ?thesis
    by (intro that [OF Suc]) (assumption, simp_all add: supply_now_def)
qed (use assms in simp)

lemma exec_mint:
  assumes laws: "cw20_laws d0 (dep_cw20 D) (dep_supply D) (dep_minter D)" "message_law (dep_cw20 D)"
    and ne: "a_token D \<noteq> a_hub D"
    and run: "exec n D ds e sender (a_token D) (Cw20Payload (Mint x a)) funds sys = Inr sys'"
  shows "supply_now D sys' = supply_now D sys + unat a"
  using run ne
proof (rule exec_token)
  fix k r t' sys1
  assume mint: "token_execute (dep_cw20 D) (e\<lparr>contract_address := a_token D\<rparr>)
       \<lparr>info_sender = sender, info_funds = funds\<rparr> (Mint x a) (sys_token sys) = Inr (r, t')"
    and sys1: "supply_now D sys1 = dep_supply D (t_base t')"
    and rest: "for_each (\<lambda>(t, p, fs). exec k D ds e (a_token D) t p fs) (wasm_calls (messages r)) sys1
      = Inr sys'"
  have "wasm_calls (messages r) = []"
    using mint laws(2) in_base_messages(1) by (fastforce simp: token_execute_def message_law_def)
  with rest sys1 token_supply_effect [OF laws(1) mint] show ?thesis by (simp add: supply_now_def)
qed

lemma exec_burn:
  assumes laws: "cw20_laws d0 (dep_cw20 D) (dep_supply D) (dep_minter D)" "message_law (dep_cw20 D)"
    and ne: "a_token D \<noteq> a_hub D" and m: "m = Burn a \<or> m = BurnFrom x a"
    and run: "exec n D ds e sender (a_token D) (Cw20Payload m) funds sys = Inr sys'"
  shows "supply_now D sys = supply_now D sys' + unat a"
  using run ne
proof (rule exec_token)
  fix k r t' sys1
  assume burn: "token_execute (dep_cw20 D) (e\<lparr>contract_address := a_token D\<rparr>)
       \<lparr>info_sender = sender, info_funds = funds\<rparr> m (sys_token sys) = Inr (r, t')"
    and sys1: "supply_now D sys1 = dep_supply D (t_base t')"
    and rest: "for_each (\<lambda>(t, p, fs). exec k D ds e (a_token D) t p fs) (wasm_calls (messages r)) sys1
      = Inr sys'"
  have eff: "(\<exists>hub. messages r = [WasmExecute hub (HubPayload CheckSlashing) []])
      \<and> supply_now D sys = dep_supply D (t_base t') + unat a"
    using token_supply_effect [OF laws(1) burn] m by (auto simp: supply_now_def)
  then obtain hub where "exec k D ds e (a_token D) hub (HubPayload CheckSlashing) [] sys1 = Inr sys'"
    using rest by (auto simp: outcome_simps)
  from neutral_exec [OF laws this] eff sys1 show ?thesis by simp
qed

end
