(* ===== verification/Hub_Claims.thy ===== *)
theory Hub_Claims
  imports Hub_Safety
begin

text \<open>
  What users own in the hub: the entries of the wait list, and the histories that fix the worth of
  the closed batches. Every handler leaves both alone, except that unstakes add to the entries of
  the open batch, closing adds a history, releases set a flag, and a user's own withdrawals remove
  the user's entries of released batches, for a payment.
\<close>

section \<open>Entries and histories over the handlers\<close>

text \<open>Histories are never removed or changed; a release only sets the flag.\<close>

definition histories_kept :: "hub_storage \<Rightarrow> hub_storage \<Rightarrow> bool" where
  "histories_kept s s' \<longleftrightarrow> (\<forall>b h. may_load (s_unstake_history s) b = Some h \<longrightarrow>
     may_load (s_unstake_history s') b = Some h
     \<or> may_load (s_unstake_history s') b = Some (h\<lparr>released := True\<rparr>))"

lemma histories_kept_same: "s_unstake_history s' = s_unstake_history s \<Longrightarrow> histories_kept s s'"
  by (simp add: histories_kept_def)

definition same_queue :: "hub_storage \<Rightarrow> hub_storage \<Rightarrow> bool" where
  "same_queue s s' \<longleftrightarrow> s_unstake_wait_list s' = s_unstake_wait_list s
     \<and> s_unstake_history s' = s_unstake_history s"

lemma pending_queue: "update_pending_delegation_amount e a b s = Inr s' \<Longrightarrow> same_queue s s'"
  by (erule update_pending_frame) (simp add: same_queue_def)

lemma stake_queue: "execute_stake d e info kind s = Inr (r, s') \<Longrightarrow> same_queue s s'"
  by (erule execute_stake_InrD) (auto simp: same_queue_def dest!: pending_queue)

lemma settings_queue:
  "execute_update_params info pause el up s = Inr (r, s') \<Longrightarrow> same_queue s s'"
  "execute_update_config d info no token reg disp s = Inr (r, s') \<Longrightarrow> same_queue s s'"
  "execute_slashing d e s = Inr (r, s') \<Longrightarrow> same_queue s s'"
  "execute_update_global_index d e s = Inr (r, s') \<Longrightarrow> same_queue s s'"
proof -
  show "execute_update_params info pause el up s = Inr (r, s') \<Longrightarrow> same_queue s s'"
    by (erule execute_update_params_InrD) (simp add: same_queue_def)
  show "execute_update_config d info no token reg disp s = Inr (r, s') \<Longrightarrow> same_queue s s'"
    by (erule execute_update_config_InrD) (simp add: same_queue_def)
  show "execute_slashing d e s = Inr (r, s') \<Longrightarrow> same_queue s s'"
    by (erule execute_slashing_InrD) (simp add: same_queue_def)
  show "execute_update_global_index d e s = Inr (r, s') \<Longrightarrow> same_queue s s'"
    by (auto simp: execute_update_global_index_def outcome_simps same_queue_def)
qed

text \<open>Closing the open batch, which has no history yet.\<close>

lemma epoch_completion_queue:
  assumes "check_for_unstake_batch_epoch_completion d e batch s = Inr (msgs, evs, batch', s')"
    and fresh: "may_load (s_unstake_history s) (cb_id batch) = None"
  shows "s_unstake_wait_list s' = s_unstake_wait_list s \<and> histories_kept s s'"
  using assms(1)
proof (cases rule: epoch_completion_cases)
  case waiting
  then show ?thesis by (simp add: histories_kept_same)
next
  case (closed params st0 st st' s2)
  from closed(6) show ?thesis
    by (rule process_undelegations_for_batch_InrD)
      (use closed(7) fresh in \<open>auto simp: histories_kept_def may_load_save\<close>)
qed

lemma open_batch_fresh:
  assumes "hub_inv s" and "s_current_batch s = Some cb"
  shows "may_load (s_unstake_history s) (cb_id cb) = None"
  using assms by (auto elim!: hub_invE simp: queue_inv_def)

lemma withdraw_rate_histories:
  assumes "process_withdraw_rate d cutoff balance s = Inr (evs, left, s')" and "s_state s = Some st"
  shows "histories_kept s s'"
  by (rule process_withdraw_rate_effect [OF assms]) (auto simp: histories_kept_def)

lemma unstake_queue:
  assumes run: "execute_unstake d e amount sender flow s = Inr (r, s')" and inv: "hub_inv s"
  obtains a cb v where "s_current_batch s = Some cb"
    "s_unstake_wait_list s' = save (a, cb_id cb) v (s_unstake_wait_list s)"
    "unat v = waiting s a (cb_id cb) + unat amount" "histories_kept s s'"
  using run
proof (rule execute_unstake_InrD)
  fix batch batch1 s1 msgs evs batch2
  assume cb: "s_current_batch s = Some batch"
    and request: "update_unstake_batch_wait_list d batch sender amount s = Inr (batch1, s1)"
    and comp: "check_for_unstake_batch_epoch_completion d e batch1 s1 = Inr (msgs, evs, batch2, s')"
  from request obtain a v where s1: "s1 = s\<lparr>s_unstake_wait_list := save (a, cb_id batch) v (s_unstake_wait_list s)\<rparr>"
    and v: "unat v = waiting s a (cb_id batch) + unat amount" and same: "cb_id batch1 = cb_id batch"
    by (rule update_unstake_batch_wait_list_InrD) simp
  have "may_load (s_unstake_history s1) (cb_id batch1) = None"
    using open_batch_fresh [OF inv cb] by (simp add: s1 same)
  from epoch_completion_queue [OF comp this] that [OF cb _ v] show thesis
    by (simp add: s1 histories_kept_def)
qed

lemma process_queue:
  assumes "execute_process_undelegations d e s = Inr (r, s')" and "hub_inv s"
  shows "s_unstake_wait_list s' = s_unstake_wait_list s \<and> histories_kept s s'"
  using assms open_batch_fresh [OF assms(2)]
  by (auto simp: execute_process_undelegations_def outcome_simps histories_kept_same
      dest!: epoch_completion_queue split: if_splits)

lemma requests_queue:
  assumes "execute_process_withdraw_requests d e s = Inr (r, s')" and "hub_inv s"
  shows "s_unstake_wait_list s' = s_unstake_wait_list s \<and> histories_kept s s'"
proof -
  obtain st where st: "s_state s = Some st" using assms(2) by (rule hub_invE)
  from assms(1) show ?thesis
  proof (rule execute_process_withdraw_requests_InrD)
    fix evs s1 st1 cutoff and free left unclaimed :: uint128
    assume rate: "process_withdraw_rate d cutoff free s = Inr (evs, left, s1)"
      and s': "s' = s1\<lparr>s_state := Some (st1\<lparr>unclaimed_unstaked_balance := unclaimed\<rparr>)\<rparr>"
    obtain hist st2 where "s1 = s\<lparr>s_unstake_history := hist, s_state := Some st2\<rparr>"
      using rate by (rule process_withdraw_rate_frame)
    with withdraw_rate_histories [OF rate st] show ?thesis
      by (simp add: s' histories_kept_def)
  qed
qed

text \<open>A withdrawal removes exactly the sender's chosen entries of released batches, for at least
  their worth.\<close>

lemma withdraw_queue:
  assumes run: "execute_withdraw_unstaked_impl d e info ids s = Inr (r, s')" and inv: "hub_inv s"
  obtains denom paid where
    "\<And>a b. may_load (s_unstake_wait_list s') (a, b) = (if a = info_sender info
         \<and> b \<in> set (chosen_batches s (info_sender info) ids) \<and> is_released s' b then None
       else may_load (s_unstake_wait_list s) (a, b))"
    "messages r = [BankSend (info_sender info) [\<lparr>coin_denom = denom, coin_amount = paid\<rparr>]]"
    "\<And>b v. b \<in> set (chosen_batches s (info_sender info) ids) \<Longrightarrow>
       may_load (s_unstake_wait_list s) (info_sender info, b) = Some v \<Longrightarrow> claim s' b v \<le> unat paid"
    "histories_kept s s'"
proof -
  let ?a = "info_sender info"
  obtain cb st where st: "s_state s = Some st" and sorted: "sorted_keys (s_unstake_wait_list s)"
    using inv by (rule hub_invE) (simp add: queue_inv_def)
  from run sorted show thesis
  proof (rule execute_withdraw_unstaked_impl_InrD)
    fix params evs s1 wait st1 cutoff and free left paid unclaimed :: uint128
    assume rate: "process_withdraw_rate d cutoff free s = Inr (evs, left, s1)"
      and same: "s_unstake_wait_list s1 = s_unstake_wait_list s"
      and paid: "unat paid = (\<Sum>b \<leftarrow> chosen_batches s ?a ids. user_claim s1 ?a b)"
      and s': "s' = s1\<lparr>s_unstake_wait_list := wait,
         s_state := Some (st1\<lparr>unclaimed_unstaked_balance := unclaimed\<rparr>)\<rparr>"
      and wait: "may_load wait = (\<lambda>(a, b). if a = ?a \<and> b \<in> set (chosen_batches s ?a ids)
           \<and> is_released s1 b then None else may_load (s_unstake_wait_list s) (a, b))"
      and msgs: "messages r = [BankSend ?a [\<lparr>coin_denom = staking_coin_denom params, coin_amount = paid\<rparr>]]"
    have hist: "is_released s' = is_released s1" "claim s' = claim s1"
      by (simp_all add: s' is_released_def claim_def fun_eq_iff)
    show thesis
    proof (rule that [OF _ msgs])
      show "claim s' b v \<le> unat paid" if "b \<in> set (chosen_batches s ?a ids)"
        "may_load (s_unstake_wait_list s) (?a, b) = Some v" for b v
      proof -
        have "claim s1 b v = user_claim s1 ?a b" using that(2) by (simp add: user_claim_def same)
        also have "\<dots> \<le> unat paid" unfolding paid using that(1) by (intro member_le_sum_list) auto
        finally show ?thesis by (simp only: hist)
      qed
      show "histories_kept s s'"
        using withdraw_rate_histories [OF rate st] by (simp add: s' histories_kept_def)
    qed (use wait in \<open>simp add: s' is_released_def\<close>)
  qed
qed

lemma claims_step:
  assumes inv: "hub_inv s" and run: "hub_execute d e info msg s = Inr (r, s')"
    and entry: "may_load (s_unstake_wait_list s) (user, b) = Some v"
  shows "(case may_load (s_unstake_wait_list s') (user, b) of
      Some v' \<Rightarrow> v' = v \<or> (\<exists>cb. s_current_batch s = Some cb \<and> b = cb_id cb \<and> v \<le> v'
        \<and> ((\<exists>a. msg = Unstake a) \<or> (\<exists>m. msg = Receive m)))
    | None \<Rightarrow> info_sender info = user
        \<and> (msg = WithdrawUnstaked \<or> (\<exists>ids. msg = WithdrawUnstakedForBatches ids \<and> b \<in> set ids))
        \<and> (\<exists>h denom paid. may_load (s_unstake_history s') b = Some h \<and> released h
            \<and> messages r = [BankSend user [\<lparr>coin_denom = denom, coin_amount = paid\<rparr>]]
            \<and> unat v * unat (atomics (lst_applied_exchange_rate h)) div 10 ^ 18 \<le> unat paid))
    \<and> histories_kept s s'"
  (is "?entry \<and> _")
proof -
  have same: "?entry \<and> histories_kept s s'"
    if "s_unstake_wait_list s' = s_unstake_wait_list s" "histories_kept s s'"
    using that entry by simp
  have untouched: "?entry \<and> histories_kept s s'" if "same_queue s s'"
    using that same by (simp add: same_queue_def histories_kept_same)
  have withdraw: "?entry \<and> histories_kept s s'"
    if impl: "execute_withdraw_unstaked_impl d e info ids s = Inr (r, s')"
      and kind: "msg = WithdrawUnstaked \<and> ids = None \<or> (\<exists>xs. msg = WithdrawUnstakedForBatches xs \<and> ids = Some xs)"
    for ids
    using impl inv
  proof (rule withdraw_queue)
    fix denom paid
    assume wait: "\<And>a b. may_load (s_unstake_wait_list s') (a, b) = (if a = info_sender info
         \<and> b \<in> set (chosen_batches s (info_sender info) ids) \<and> is_released s' b then None
       else may_load (s_unstake_wait_list s) (a, b))"
      and msgs: "messages r = [BankSend (info_sender info) [\<lparr>coin_denom = denom, coin_amount = paid\<rparr>]]"
      and worth: "\<And>b v. b \<in> set (chosen_batches s (info_sender info) ids) \<Longrightarrow>
       may_load (s_unstake_wait_list s) (info_sender info, b) = Some v \<Longrightarrow> claim s' b v \<le> unat paid"
      and hist: "histories_kept s s'"
    show ?thesis
    proof (cases "user = info_sender info \<and> b \<in> set (chosen_batches s (info_sender info) ids)
        \<and> is_released s' b")
      case True
      then obtain h where h: "may_load (s_unstake_history s') b = Some h" "released h"
        by (auto simp: is_released_def split: option.splits)
      have "claim s' b v \<le> unat paid" using worth [of b v] True entry by simp
      then have "unat v * unat (atomics (lst_applied_exchange_rate h)) div 10 ^ 18 \<le> unat paid"
        by (simp add: claim_def h)
      moreover have "msg = WithdrawUnstaked \<or> (\<exists>ids. msg = WithdrawUnstakedForBatches ids \<and> b \<in> set ids)"
        using kind True by (auto simp: chosen_batches_def)
      ultimately show ?thesis using True h hist msgs by (simp add: wait)
    next
      case False
      with hist entry show ?thesis by (auto simp: wait)
    qed
  qed
  from run show ?thesis
  proof (cases rule: hub_execute_cases)
    case (5 amount sender flow)
    from 5(1) inv show ?thesis
    proof (rule unstake_queue)
      fix a cb w
      assume "s_current_batch s = Some cb"
        "s_unstake_wait_list s' = save (a, cb_id cb) w (s_unstake_wait_list s)"
        "unat w = waiting s a (cb_id cb) + unat amount" "histories_kept s s'"
      with entry 5(2) show ?thesis by (auto simp: waiting_def word_le_nat_alt)
    qed
  next
    case (2 ids)
    then show ?thesis by (intro withdraw [OF 2(2)]) simp
  next
    case 3
    then show ?thesis by (intro withdraw [OF 3(2)]) simp
  next
    case 8
    then show ?thesis by (intro untouched) (simp add: same_queue_def)
  next
    case 10
    from process_queue [OF 10(2) inv] same show ?thesis by blast
  next
    case 11
    from requests_queue [OF 11(2) inv] same show ?thesis by blast
  qed (erule untouched [OF stake_queue] untouched [OF settings_queue(1)] untouched [OF settings_queue(2)]
      untouched [OF settings_queue(3)] untouched [OF settings_queue(4)])+
qed

section \<open>Properties\<close>

text \<open>
  C5: Nobody loses a claim. Whatever message of whoever the hub handles in a reachable state, an
  entry of the wait list stays as it is, unless an unstake into the open batch makes it larger, or
  its owner withdraws it after the release of its batch, for a payment to the owner of at least
  the entry's worth at the rate at which its batch was closed. The histories of closed batches,
  which fix that rate, stay as they are, but for the mark of the release.
\<close>

theorem claims_protected:
  assumes "reachable hub_initial hub_step s"
    and "hub_execute d e info msg s = Inr (r, s')"
    and "may_load (s_unstake_wait_list s) (user, b) = Some v"
  shows "(case may_load (s_unstake_wait_list s') (user, b) of
      Some v' \<Rightarrow> v' = v \<or> (\<exists>cb. s_current_batch s = Some cb \<and> b = cb_id cb \<and> v \<le> v'
        \<and> ((\<exists>a. msg = Unstake a) \<or> (\<exists>m. msg = Receive m)))
    | None \<Rightarrow> info_sender info = user
        \<and> (msg = WithdrawUnstaked \<or> (\<exists>ids. msg = WithdrawUnstakedForBatches ids \<and> b \<in> set ids))
        \<and> (\<exists>h denom paid. may_load (s_unstake_history s') b = Some h \<and> released h
            \<and> messages r = [BankSend user [\<lparr>coin_denom = denom, coin_amount = paid\<rparr>]]
            \<and> unat v * unat (atomics (lst_applied_exchange_rate h)) div 10 ^ 18 \<le> unat paid))
    \<and> histories_kept s s'"
  by (rule claims_step [OF hub.inv_reachable [OF assms(1)] assms(2,3)])

end
