(* ===== verification/System_Properties.thy ===== *)
theory System_Properties
  imports Whole_System Hub_Claims
begin

text \<open>
  What holds of the four contracts together: stakes and unstakes as whole transactions, the
  projection of the system to each contract, the properties of reachable states, and a deployment
  on which they are evaluated, from its instantiation to a stake and an unstake.
\<close>

section \<open>Transactions step by step\<close>

lemma exec_cases:
  assumes "exec n D ds e sender target payload funds sys = Inr sys'"
  obtains k r sys1 where "n = Suc k"
    "call D (ds (sys_calls sys)) e sender target payload funds (sys\<lparr>sys_calls := Suc (sys_calls sys)\<rparr>)
       = Inr (r, sys1)"
    "for_each (\<lambda>(t, p, fs). exec k D ds e target t p fs) (wasm_calls (messages r)) sys1 = Inr sys'"
  using assms by (cases n) (auto simp: outcome_simps forward_calls)

lemma call_hub:
  assumes "call D d e sender (a_hub D) payload funds sys = Inr (r, sys')"
  obtains m s' where "payload = HubPayload m" "sys' = sys\<lparr>sys_hub := s'\<rparr>"
    "hub_execute (asked D d sys) (e\<lparr>contract_address := a_hub D\<rparr>)
       \<lparr>info_sender = sender, info_funds = funds\<rparr> m (sys_hub sys) = Inr (r, s')"
  using assms by (auto simp: call_def Let_def outcome_simps split: wasm_payload.splits)

text \<open>The token's burn with the slashing check: the supply falls, the wait list stays.\<close>

lemma check_slashing_transaction:
  assumes "exec n D ds e sender (a_hub D) (HubPayload CheckSlashing) funds sys = Inr sys'"
  shows "s_unstake_wait_list (sys_hub sys') = s_unstake_wait_list (sys_hub sys)
    \<and> sys_token sys' = sys_token sys"
  using assms
proof (rule exec_cases)
  fix k r sys1
  assume first: "call D (ds (sys_calls sys)) e sender (a_hub D) (HubPayload CheckSlashing) funds
      (sys\<lparr>sys_calls := Suc (sys_calls sys)\<rparr>) = Inr (r, sys1)"
    and rest: "for_each (\<lambda>(t, p, fs). exec k D ds e (a_hub D) t p fs) (wasm_calls (messages r)) sys1
      = Inr sys'"
  from first show ?thesis
  proof (rule call_hub)
    fix m s'
    assume m: "HubPayload CheckSlashing = HubPayload m"
      and sys1: "sys1 = sys\<lparr>sys_calls := Suc (sys_calls sys), sys_hub := s'\<rparr>"
      and run: "hub_execute (asked D (ds (sys_calls sys)) (sys\<lparr>sys_calls := Suc (sys_calls sys)\<rparr>))
        (e\<lparr>contract_address := a_hub D\<rparr>) \<lparr>info_sender = sender, info_funds = funds\<rparr> m
        (sys_hub (sys\<lparr>sys_calls := Suc (sys_calls sys)\<rparr>)) = Inr (r, s')"
    have "wasm_calls (messages r) = []" using hub_calls [OF run] m by simp
    with rest have "sys' = sys1" by simp
    moreover have "s_unstake_wait_list s' = s_unstake_wait_list (sys_hub sys)"
      using run m by (auto simp: hub_execute_def outcome_simps elim!: execute_slashing_InrD split: if_splits)
    ultimately show ?thesis by (simp add: sys1)
  qed
qed

lemma burn_transaction:
  assumes laws: "cw20_laws d0 (dep_cw20 D) (dep_supply D) (dep_minter D)"
    and ne: "a_token D \<noteq> a_hub D" and hub: "t_hub_contract (sys_token sys) = Some (a_hub D)"
    and m: "m = Burn a \<or> m = BurnFrom x a"
    and run: "exec n D ds e sender (a_token D) (Cw20Payload m) funds sys = Inr sys'"
  shows "supply_now D sys = supply_now D sys' + unat a
    \<and> s_unstake_wait_list (sys_hub sys') = s_unstake_wait_list (sys_hub sys)"
  using run
proof (rule exec_cases)
  fix k r sys1
  assume first: "call D (ds (sys_calls sys)) e sender (a_token D) (Cw20Payload m) funds
      (sys\<lparr>sys_calls := Suc (sys_calls sys)\<rparr>) = Inr (r, sys1)"
    and rest: "for_each (\<lambda>(t, p, fs). exec k D ds e (a_token D) t p fs) (wasm_calls (messages r)) sys1
      = Inr sys'"
  from first ne obtain t' where
    burn: "token_execute (dep_cw20 D) (e\<lparr>contract_address := a_token D\<rparr>)
       \<lparr>info_sender = sender, info_funds = funds\<rparr> m (sys_token sys) = Inr (r, t')"
    and sys1: "sys1 = sys\<lparr>sys_calls := Suc (sys_calls sys), sys_token := t'\<rparr>"
    by (auto simp: call_def Let_def outcome_simps)
  from token_supply_effect [OF laws burn] m hub
  have eff: "messages r = [WasmExecute (a_hub D) (HubPayload CheckSlashing) []]"
    "supply_now D sys = dep_supply D (t_base t') + unat a"
    by (auto simp: supply_now_def)
  then have "exec k D ds e (a_token D) (a_hub D) (HubPayload CheckSlashing) [] sys1 = Inr sys'"
    using rest by (auto simp: outcome_simps)
  from check_slashing_transaction [OF this] eff(2) show ?thesis
    by (simp add: sys1 supply_now_def)
qed

lemma mint_leaves_hub:
  assumes law: "message_law (dep_cw20 D)" and ne: "a_token D \<noteq> a_hub D"
    and run: "exec n D ds e sender (a_token D) (Cw20Payload (Mint x a)) funds sys = Inr sys'"
  shows "sys_hub sys' = sys_hub sys"
  using run
proof (rule exec_cases)
  fix k r sys1
  assume first: "call D (ds (sys_calls sys)) e sender (a_token D) (Cw20Payload (Mint x a)) funds
      (sys\<lparr>sys_calls := Suc (sys_calls sys)\<rparr>) = Inr (r, sys1)"
    and rest: "for_each (\<lambda>(t, p, fs). exec k D ds e (a_token D) t p fs) (wasm_calls (messages r)) sys1
      = Inr sys'"
  from first ne obtain t' where
    mint: "in_base (cw20_mint (dep_cw20 D) (e\<lparr>contract_address := a_token D\<rparr>)
       \<lparr>info_sender = sender, info_funds = funds\<rparr> x a) (sys_token sys) = Inr (r, t')"
    and sys1: "sys_hub sys1 = sys_hub sys"
    by (auto simp: call_def Let_def outcome_simps token_execute_def)
  have "messages r = []" using in_base_messages(1) [OF mint] law by (simp add: message_law_def)
  with rest sys1 show ?thesis by simp
qed

text \<open>What an unstake leads to: the entry grows, the tokens are burned, nothing else waits.\<close>

definition unstaked :: "'c deployment \<Rightarrow> addr \<Rightarrow> uint128 \<Rightarrow> 'c system \<Rightarrow> 'c system \<Rightarrow> bool" where
  "unstaked D user a sys sys' \<longleftrightarrow> (\<exists>cb. s_current_batch (sys_hub sys) = Some cb
     \<and> supply_now D sys = supply_now D sys' + unat a
     \<and> waiting (sys_hub sys') user (cb_id cb) = waiting (sys_hub sys) user (cb_id cb) + unat a
     \<and> (\<forall>x. x \<noteq> (user, cb_id cb) \<longrightarrow> may_load (s_unstake_wait_list (sys_hub sys')) x
          = may_load (s_unstake_wait_list (sys_hub sys)) x))"

lemma unstake_transaction:
  assumes dep: "deployment_ok d0 D" and ok: "sys_ok D sys"
    and run: "execute_unstake d e' a user flow (sys_hub sys) = Inr (r, s')"
    and valid: "addr_validate d user = Inr user"
    and rest: "for_each (\<lambda>(t, p, fs). exec k D ds e (a_hub D) t p fs) (wasm_calls (messages r))
      (sys\<lparr>sys_hub := s'\<rparr>) = Inr sys'"
  shows "unstaked D user a sys sys'"
proof -
  let ?sys1 = "sys\<lparr>sys_hub := s'\<rparr>"
  let ?m = "case flow of BurnFlow \<Rightarrow> Burn a | BurnFromFlow \<Rightarrow> BurnFrom user a"
  have laws: "cw20_laws d0 (dep_cw20 D) (dep_supply D) (dep_minter D)" and ne: "a_token D \<noteq> a_hub D"
    using dep by (auto simp: deployment_ok_def)
  have hub: "t_hub_contract (sys_token ?sys1) = Some (a_hub D)" using ok by (simp add: sys_ok_def)
  from unstake_waiting [OF run] valid obtain batch where
    wait: "s_current_batch (sys_hub sys) = Some batch"
      "waiting s' user (cb_id batch) = waiting (sys_hub sys) user (cb_id batch) + unat a"
      "\<forall>x. x \<noteq> (user, cb_id batch) \<longrightarrow>
         may_load (s_unstake_wait_list s') x = may_load (s_unstake_wait_list (sys_hub sys)) x"
    by auto
  from ok obtain c where c: "s_config (sys_hub sys) = Some c" "lst_token c = Some (a_token D)"
    by (auto simp: sys_ok_def)
  have "wasm_calls (messages r) = [(a_token D, Cw20Payload ?m, [])]"
    using unstake_calls [OF run] unstake_to_token [OF run] c to_token_calls [of "messages r"] by auto
  with rest have burn: "exec k D ds e (a_hub D) (a_token D) (Cw20Payload ?m) [] ?sys1 = Inr sys'"
    by (auto simp: outcome_simps)
  have "?m = Burn a \<or> ?m = BurnFrom user a" by (cases flow) simp_all
  from burn_transaction [OF laws ne hub this burn] wait show ?thesis
    by (auto simp: unstaked_def supply_now_def waiting_def)
qed

text \<open>A send of the library notifies the receiver of exactly what was sent, and by whom.\<close>

definition send_law :: "'c cw20_base \<Rightarrow> bool" where
  "send_law ops \<longleftrightarrow> (\<forall>e info x a m b r b'. cw20_send ops e info x a m b = Inr (r, b') \<longrightarrow>
     messages r = [WasmExecute x (HubPayload (Receive (Cw20ReceiveMsg (info_sender info) a m))) []])"

lemma asked_calls [simp]: "asked D d (sys\<lparr>sys_calls := n\<rparr>) = asked D d sys"
  by (simp add: asked_def supply_now_def cong: if_cong)

lemma asked_validates [simp]: "addr_validate (asked D d sys) = addr_validate d"
  by (simp add: asked_def)

lemma sys_ok_calls [simp]: "sys_ok D (sys\<lparr>sys_calls := n\<rparr>) = sys_ok D sys"
  by (simp add: sys_ok_def supply_now_def)

lemma unstaked_calls [simp]: "unstaked D user a (sys\<lparr>sys_calls := n\<rparr>) = unstaked D user a sys"
  by (simp add: unstaked_def supply_now_def fun_eq_iff)

lemma hub_transaction:
  assumes "exec n D ds e sender (a_hub D) (HubPayload m) funds sys = Inr sys'"
  obtains k r s' where
    "hub_execute (asked D (ds (sys_calls sys)) sys) (e\<lparr>contract_address := a_hub D\<rparr>)
       \<lparr>info_sender = sender, info_funds = funds\<rparr> m (sys_hub sys) = Inr (r, s')"
    "for_each (\<lambda>(t, p, fs). exec k D ds e (a_hub D) t p fs) (wasm_calls (messages r))
       (sys\<lparr>sys_calls := Suc (sys_calls sys), sys_hub := s'\<rparr>) = Inr sys'"
  using assms
proof (rule exec_cases)
  fix k r sys1
  assume first: "call D (ds (sys_calls sys)) e sender (a_hub D) (HubPayload m) funds
      (sys\<lparr>sys_calls := Suc (sys_calls sys)\<rparr>) = Inr (r, sys1)"
    and rest: "for_each (\<lambda>(t, p, fs). exec k D ds e (a_hub D) t p fs) (wasm_calls (messages r)) sys1
      = Inr sys'"
  from first show thesis by (rule call_hub) (use rest that in auto)
qed

lemma direct_unstake:
  assumes dep: "deployment_ok d0 D" and ok: "sys_ok D sys"
    and run: "exec n D ds e user (a_hub D) (HubPayload (Unstake a)) funds sys = Inr sys'"
    and valid: "\<And>i. addr_validate (ds i) user = Inr user"
  shows "unstaked D user a sys sys'"
  using run
proof (rule hub_transaction)
  fix k r s'
  let ?sys = "sys\<lparr>sys_calls := Suc (sys_calls sys)\<rparr>"
  assume hub: "hub_execute (asked D (ds (sys_calls sys)) sys) (e\<lparr>contract_address := a_hub D\<rparr>)
       \<lparr>info_sender = user, info_funds = funds\<rparr> (Unstake a) (sys_hub sys) = Inr (r, s')"
    and rest: "for_each (\<lambda>(t, p, fs). exec k D ds e (a_hub D) t p fs) (wasm_calls (messages r))
       (?sys\<lparr>sys_hub := s'\<rparr>) = Inr sys'"
  from hub have "execute_unstake (asked D (ds (sys_calls sys)) sys) (e\<lparr>contract_address := a_hub D\<rparr>)
      a user BurnFromFlow (sys_hub ?sys) = Inr (r, s')"
    by (auto simp: hub_execute_def outcome_simps split: if_splits)
  from unstake_transaction [OF dep _ this _ rest] ok valid show ?thesis by simp
qed

lemma sent_unstake:
  assumes dep: "deployment_ok d0 D" and ok: "sys_ok D sys" and law: "send_law (dep_cw20 D)"
    and run: "exec n D ds e user (a_token D) (Cw20Payload (Send (a_hub D) a hook)) funds sys = Inr sys'"
    and valid: "\<And>i. addr_validate (ds i) user = Inr user"
  shows "unstaked D user a sys sys'"
  using run
proof (rule exec_cases)
  fix k r sys1
  assume first: "call D (ds (sys_calls sys)) e user (a_token D) (Cw20Payload (Send (a_hub D) a hook))
      funds (sys\<lparr>sys_calls := Suc (sys_calls sys)\<rparr>) = Inr (r, sys1)"
    and rest: "for_each (\<lambda>(t, p, fs). exec k D ds e (a_token D) t p fs) (wasm_calls (messages r)) sys1
      = Inr sys'"
  have "sys_ok D (sys\<lparr>sys_calls := Suc (sys_calls sys)\<rparr>)" using ok by simp
  from this dep first obtain t' where
    sys1: "sys1 = sys\<lparr>sys_calls := Suc (sys_calls sys), sys_token := t'\<rparr>" "sys_ok D sys1"
    and supp: "supply_now D sys1 = supply_now D sys"
    by (rule token_call_effect) (auto simp: supply_now_def)
  have ne: "a_token D \<noteq> a_hub D" using dep by (auto simp: deployment_ok_def)
  with first obtain b' where "cw20_send (dep_cw20 D) (e\<lparr>contract_address := a_token D\<rparr>)
      \<lparr>info_sender = user, info_funds = funds\<rparr> (a_hub D) a hook (t_base (sys_token sys)) = Inr (r, b')"
    by (auto simp: call_def Let_def outcome_simps token_execute_def in_base_Inr)
  with law have "messages r = [WasmExecute (a_hub D) (HubPayload (Receive (Cw20ReceiveMsg
      (info_sender \<lparr>info_sender = user, info_funds = funds\<rparr>) a hook))) []]"
    unfolding send_law_def by blast
  with rest have "exec k D ds e (a_token D) (a_hub D) (HubPayload (Receive (Cw20ReceiveMsg user a hook))) []
      sys1 = Inr sys'"
    by (auto simp: outcome_simps)
  then have "unstaked D user a sys1 sys'"
  proof (rule hub_transaction)
    fix j r2 s'
    let ?sys = "sys1\<lparr>sys_calls := Suc (sys_calls sys1)\<rparr>"
    assume hub: "hub_execute (asked D (ds (sys_calls sys1)) sys1) (e\<lparr>contract_address := a_hub D\<rparr>)
         \<lparr>info_sender = a_token D, info_funds = []\<rparr> (Receive (Cw20ReceiveMsg user a hook)) (sys_hub sys1)
         = Inr (r2, s')"
      and rest: "for_each (\<lambda>(t, p, fs). exec j D ds e (a_hub D) t p fs) (wasm_calls (messages r2))
         (?sys\<lparr>sys_hub := s'\<rparr>) = Inr sys'"
    from hub have "execute_unstake (asked D (ds (sys_calls sys1)) sys1) (e\<lparr>contract_address := a_hub D\<rparr>)
        a user BurnFlow (sys_hub ?sys) = Inr (r2, s')"
      by (auto simp: hub_execute_def outcome_simps receive_cw20_def split: cw20_hook_msg.splits if_splits)
    from unstake_transaction [OF dep _ this _ rest] sys1(2) valid show ?thesis by simp
  qed
  with supp show ?thesis by (simp add: sys1(1) unstaked_def supply_now_def)
qed

lemma stake_transaction:
  assumes dep: "deployment_ok d0 D" and ok: "sys_ok D sys" and law: "message_law (dep_cw20 D)"
    and run: "exec n D ds e user (a_hub D) (HubPayload Stake) funds sys = Inr sys'"
  shows "\<exists>payment st0 st st'. funds = [payment] \<and> s_state (sys_hub sys) = Some st0
    \<and> query_actual_state (asked D (ds (sys_calls sys)) sys) (e\<lparr>contract_address := a_hub D\<rparr>)
        (sys_hub sys) st0 = Inr st
    \<and> s_state (sys_hub sys') = Some st'
    \<and> unat (total_staked_amount st') = unat (total_staked_amount st) + unat (coin_amount payment)
    \<and> supply_now D sys' = supply_now D sys
        + unat (coin_amount payment) * 10 ^ 18 div unat (atomics (lst_exchange_rate st))"
  using run
proof (rule hub_transaction)
  fix k r s'
  let ?sys1 = "sys\<lparr>sys_calls := Suc (sys_calls sys), sys_hub := s'\<rparr>"
  assume "hub_execute (asked D (ds (sys_calls sys)) sys) (e\<lparr>contract_address := a_hub D\<rparr>)
       \<lparr>info_sender = user, info_funds = funds\<rparr> Stake (sys_hub sys) = Inr (r, s')"
    and rest: "for_each (\<lambda>(t, p, fs). exec k D ds e (a_hub D) t p fs) (wasm_calls (messages r)) ?sys1
      = Inr sys'"
  then have hub: "execute_stake (asked D (ds (sys_calls sys)) sys) (e\<lparr>contract_address := a_hub D\<rparr>)
       \<lparr>info_sender = user, info_funds = funds\<rparr> LSTMint (sys_hub sys) = Inr (r, s')"
    by (auto simp: hub_execute_def outcome_simps split: if_splits)
  from hub obtain config st0 payment st st' minted msgs where
    c: "s_config (sys_hub sys) = Some config" "s_state (sys_hub sys) = Some st0" "funds = [payment]"
    and st: "query_actual_state (asked D (ds (sys_calls sys)) sys) (e\<lparr>contract_address := a_hub D\<rparr>)
        (sys_hub sys) st0 = Inr st" "s_state s' = Some st'"
      "unat (total_staked_amount st') = unat (total_staked_amount st) + unat (coin_amount payment)"
    and minted: "unat minted = unat (coin_amount payment) * 10 ^ 18 div unat (atomics (lst_exchange_rate st))"
    and tok: "\<exists>token. lst_token config = Some token
         \<and> messages r = msgs @ [WasmExecute token (Cw20Payload (Mint user minted)) []]"
    by (rule execute_stake_InrD) (auto simp: decimal_division_Inr dest!: update_lst_exchange_rate_InrD)
  have laws: "cw20_laws d0 (dep_cw20 D) (dep_supply D) (dep_minter D)" and ne: "a_token D \<noteq> a_hub D"
    using dep by (auto simp: deployment_ok_def)
  have "wasm_calls (messages r) = [(a_token D, Cw20Payload (Mint user minted), [])]"
    using tok stake_calls [OF hub] c(1) ok by (auto simp: sys_ok_def)
  with rest have mint: "exec k D ds e (a_hub D) (a_token D) (Cw20Payload (Mint user minted)) [] ?sys1 = Inr sys'"
    by (auto simp: outcome_simps)
  have "supply_now D sys' = supply_now D sys + unat minted"
    using exec_mint [OF laws law ne mint] by (simp add: supply_now_def)
  moreover have "sys_hub sys' = s'"
    using mint_leaves_hub [OF law ne mint] by simp
  ultimately show ?thesis using c(2,3) st minted by auto
qed

section \<open>The contracts on their own\<close>

text \<open>What one contract can do on its own, any number of times.\<close>

abbreviation token_moves :: "'c deployment \<Rightarrow> 'c token_storage \<Rightarrow> 'c token_storage \<Rightarrow> bool" where
  "token_moves D \<equiv> \<lambda>s s'. \<exists>d. token_step d (dep_cw20 D) s s'"

definition own_steps :: "'c deployment \<Rightarrow> 'c system \<Rightarrow> 'c system \<Rightarrow> bool" where
  "own_steps D sys sys' \<longleftrightarrow> hub_step\<^sup>*\<^sup>* (sys_hub sys) (sys_hub sys')
     \<and> (token_moves D)\<^sup>*\<^sup>* (sys_token sys) (sys_token sys')
     \<and> registry_step\<^sup>*\<^sup>* (sys_registry sys) (sys_registry sys')
     \<and> dispatcher_step\<^sup>*\<^sup>* (sys_dispatcher sys) (sys_dispatcher sys')
     \<and> t_hub_contract (sys_token sys') = t_hub_contract (sys_token sys)"

lemma own_steps_refl [simp]: "own_steps D sys sys"
  by (simp add: own_steps_def)

lemma own_steps_trans: "own_steps D a b \<Longrightarrow> own_steps D b c \<Longrightarrow> own_steps D a c"
  unfolding own_steps_def by (auto intro: rtranclp_trans)

lemma own_steps_calls [simp]: "own_steps D (sys\<lparr>sys_calls := n\<rparr>) sys' = own_steps D sys sys'"
  by (simp add: own_steps_def)

text \<open>The token's own steps leave out that its hub names another minter, which the hub never does.\<close>

definition named :: "'c deployment \<Rightarrow> addr \<Rightarrow> wasm_payload \<Rightarrow> bool" where
  "named D sender p \<longleftrightarrow> sender = a_hub D \<and> (\<exists>x. p = Cw20Payload (UpdateMinter x))"

lemma call_own_steps:
  assumes "call D d e sender target payload funds sys = Inr (r, sys')"
    and "t_hub_contract (sys_token sys) = Some (a_hub D)" and "\<not> named D sender payload"
  shows "own_steps D sys sys'"
proof (cases payload)
  case (HubPayload m)
  with assms(1) show ?thesis
    by (auto simp: call_def Let_def outcome_simps own_steps_def split: if_splits
        intro: r_into_rtranclp [of hub_step, OF step_execute])
next
  case (Cw20Payload m)
  show ?thesis
  proof (cases "target = a_token D \<and> a_token D \<noteq> a_hub D")
    case True
    with assms(1) Cw20Payload obtain t' where
      run: "token_execute (dep_cw20 D) (e\<lparr>contract_address := a_token D\<rparr>)
        \<lparr>info_sender = sender, info_funds = funds\<rparr> m (sys_token sys) = Inr (r, t')"
      and sys': "sys' = sys\<lparr>sys_token := t'\<rparr>"
      by (auto simp: call_def Let_def outcome_simps)
    have "token_moves D (sys_token sys) t'"
      using token_message [OF run] assms(2,3) Cw20Payload by (auto simp: named_def)
    with token_frame(1) [OF run] show ?thesis
      by (simp add: own_steps_def sys' r_into_rtranclp)
  next
    case False
    with assms(1) Cw20Payload have "sys' = sys"
      by (auto simp: call_def Let_def split: if_splits)
    then show ?thesis by simp
  qed
next
  case (RewardsPayload m)
  with assms(1) show ?thesis
    by (auto simp: call_def Let_def outcome_simps own_steps_def split: if_splits
        intro: r_into_rtranclp [of dispatcher_step, OF dispatcher_message])
qed

lemma call_names_no_minter:
  assumes "call D d e sender target payload funds sys = Inr (r, sys')"
    and "(t, p, fs) \<in> set (wasm_calls (messages r))"
  shows "\<not> named D target p"
proof
  assume named: "named D target p"
  then have "target = a_hub D" by (simp add: named_def)
  with assms(1) obtain m s' where
    run: "hub_execute (asked D d sys) (e\<lparr>contract_address := a_hub D\<rparr>)
       \<lparr>info_sender = sender, info_funds = funds\<rparr> m (sys_hub sys) = Inr (r, s')"
    by (metis call_hub)
  from hub_calls [OF run] assms(2) named show False
    by (cases m) (auto simp: named_def)
qed

lemma forward_own_steps:
  assumes rest: "for_each (forward (exec n D ds e) sender) ms sys = Inr sys'"
    and hub: "t_hub_contract (sys_token sys) = Some (a_hub D)"
    and "\<And>t p fs. (t, p, fs) \<in> set (wasm_calls ms) \<Longrightarrow> \<not> named D sender p"
    and step: "\<And>t p fs a b. exec n D ds e sender t p fs a = Inr b \<Longrightarrow>
      t_hub_contract (sys_token a) = Some (a_hub D) \<Longrightarrow> \<not> named D sender p \<Longrightarrow> own_steps D a b"
  shows "own_steps D sys sys'"
proof (rule for_each_invariant [where P = "own_steps D sys", OF rest [unfolded forward_calls]])
  fix m a b
  assume m: "m \<in> set (wasm_calls ms)" and a: "own_steps D sys a"
    and run: "(case m of (t, p, fs) \<Rightarrow> exec n D ds e sender t p fs) a = Inr b"
  from a hub have "t_hub_contract (sys_token a) = Some (a_hub D)" by (simp add: own_steps_def)
  moreover obtain t p fs where [simp]: "m = (t, p, fs)" by (cases m)
  ultimately have "own_steps D a b"
    using m run step [of t p fs a b] assms(3) [of t p fs] by simp
  with a show "own_steps D sys b" by (rule own_steps_trans)
qed simp

lemma exec_own_steps:
  assumes "exec n D ds e sender target payload funds sys = Inr sys'"
    and "t_hub_contract (sys_token sys) = Some (a_hub D)" and "\<not> named D sender payload"
  shows "own_steps D sys sys'"
  using assms
proof (induction n arbitrary: sender target payload funds sys sys')
  case (Suc n)
  from Suc.prems obtain r sys1 where
    call: "call D (ds (sys_calls sys)) e sender target payload funds (sys\<lparr>sys_calls := Suc (sys_calls sys)\<rparr>)
      = Inr (r, sys1)"
    and rest: "for_each (forward (exec n D ds e) target) (messages r) sys1 = Inr sys'"
    by (auto simp: outcome_simps)
  have first: "own_steps D sys sys1"
    using call_own_steps [OF call] Suc.prems(2,3) by simp
  then have "t_hub_contract (sys_token sys1) = Some (a_hub D)"
    using Suc.prems(2) by (simp add: own_steps_def)
  then have "own_steps D sys1 sys'"
    by (rule forward_own_steps [OF rest]) (use call_names_no_minter [OF call] Suc.IH in blast)+
  with first show ?case by (rule own_steps_trans)
qed simp

lemma registry_own_steps:
  assumes run: "exec_registry n D ds e sender msg sys = Inr sys'" and ne: "a_registry D \<noteq> a_hub D"
    and hub: "t_hub_contract (sys_token sys) = Some (a_hub D)"
  shows "own_steps D sys sys'"
proof -
  from run obtain r rg where
    "registry_execute (asked D (ds (sys_calls sys)) sys) \<lparr>info_sender = sender, info_funds = []\<rparr> msg
      (sys_registry sys) = Inr (r, rg)"
    and rest: "for_each (forward (exec n D ds e) (a_registry D)) (messages r)
      (sys\<lparr>sys_registry := rg, sys_calls := Suc (sys_calls sys)\<rparr>) = Inr sys'"
    by (auto simp: exec_registry_def outcome_simps)
  then have "own_steps D sys (sys\<lparr>sys_registry := rg, sys_calls := Suc (sys_calls sys)\<rparr>)"
    by (auto simp: own_steps_def intro: r_into_rtranclp [of registry_step, OF registry_message])
  moreover have "own_steps D (sys\<lparr>sys_registry := rg, sys_calls := Suc (sys_calls sys)\<rparr>) sys'"
    by (rule forward_own_steps [OF rest]) (use hub ne in \<open>auto simp: named_def intro: exec_own_steps\<close>)
  ultimately show ?thesis by (rule own_steps_trans)
qed

lemma step_own_steps:
  assumes "sys_step D sys sys'" and dep: "deployment_ok d0 D"
    and hub: "t_hub_contract (sys_token sys) = Some (a_hub D)"
  shows "own_steps D sys sys'"
  using assms(1)
proof cases
  case (transaction n ds e sender target payload funds)
  then show ?thesis
    by (intro exec_own_steps [OF transaction(1) hub]) (auto simp: named_def outsider_def)
next
  case (registry_transaction n ds e sender msg)
  then show ?thesis
    using registry_own_steps [OF _ _ hub] dep by (auto simp: deployment_ok_def)
next
  case (migrate_token d r t)
  have "token_moves D (sys_token sys) t" using token_migration [OF migrate_token(2)] by blast
  with migrate_token show ?thesis
    by (auto simp: own_steps_def token_migrate_def outcome_simps r_into_rtranclp)
qed (auto simp: own_steps_def intro: r_into_rtranclp [of hub_step, OF step_migrate]
    r_into_rtranclp [of registry_step, OF registry_migration]
    r_into_rtranclp [of dispatcher_step, OF dispatcher_migration])

lemma reachable_steps: "R\<^sup>*\<^sup>* s t \<Longrightarrow> reachable I R s \<Longrightarrow> reachable I R t"
  by (induction rule: rtranclp_induct) (auto intro: reachable_step)

section \<open>Properties\<close>

text \<open>
  C1: The tokens are always backed. In every state that the deployed contracts reach by
  transactions of anybody, with any answers of the outside world, the tokens held and the tokens
  that wait in the open batch are, at the stored exchange rate, worth no more than the recorded
  stake. The one exception is a stake that was slashed away completely, where the rate is one.
\<close>

theorem tokens_always_backed:
  assumes "deployment_ok d0 D" and "reachable (sys_initial d0 D) (sys_step D) sys"
  shows "\<exists>st cb. s_state (sys_hub sys) = Some st \<and> s_current_batch (sys_hub sys) = Some cb
    \<and> (unat (atomics (lst_exchange_rate st))
          * (supply_now D sys + unat (requested_lst_token_amount cb))
        \<le> unat (total_staked_amount st) * 10 ^ 18
      \<or> total_staked_amount st = 0 \<and> lst_exchange_rate st = decimal_one)"
proof -
  from system_reachable [OF assms] have "hub_inv (sys_hub sys)"
    and backed: "backed (supply_now D sys) (sys_hub sys)"
    by (simp_all add: sys_inv_def sys_ok_def)
  then obtain st cb where "s_state (sys_hub sys) = Some st" "s_current_batch (sys_hub sys) = Some cb"
    by (auto elim: hub_invE)
  with backed show ?thesis by (auto simp: backed_def backs_def unat_eq_0)
qed

text \<open>
  C12: The contracts stay connected. In every reachable state the hub mints and burns at its
  token, the token's minter is the hub and its supply fits the width of an amount, the fee is
  bounded, and the queue of the hub and the lists of the registry are well formed.
\<close>

theorem contracts_stay_connected:
  assumes "deployment_ok d0 D" and "reachable (sys_initial d0 D) (sys_step D) sys"
  shows "map_option lst_token (s_config (sys_hub sys)) = Some (Some (a_token D))
    \<and> t_hub_contract (sys_token sys) = Some (a_hub D)
    \<and> dep_minter D (t_base (sys_token sys)) = Some (a_hub D) \<and> supply_now D sys < 2 ^ 128
    \<and> hub_inv (sys_hub sys) \<and> registry_inv (sys_registry sys) \<and> fee_bounded (sys_dispatcher sys)"
  using system_reachable [OF assms] by (auto simp: sys_inv_def sys_ok_def)

text \<open>
  C7: Only slashing lowers the exchange rate. When the hub handles any message of anybody in a
  reachable state, the validators hold what is recorded as staked (up to the pending amounts), and
  there are tokens and a stake, the rate does not fall.
\<close>

theorem rate_falls_only_by_slashing:
  assumes "deployment_ok d0 D" and "reachable (sys_initial d0 D) (sys_step D) sys"
    and "call D d e sender (a_hub D) payload funds sys = Inr (r, sys')" and "decimal_ratio_law d"
    and "no_shortfall (asked D d sys) (e\<lparr>contract_address := a_hub D\<rparr>) (sys_hub sys)"
    and "s_state (sys_hub sys) = Some st" and "s_current_batch (sys_hub sys) = Some cb"
    and "0 < total_staked_amount st"
    and "0 < supply_now D sys + unat (requested_lst_token_amount cb)"
  shows "\<exists>st'. s_state (sys_hub sys') = Some st' \<and> lst_exchange_rate st \<le> lst_exchange_rate st'"
proof -
  from system_reachable [OF assms(1,2)] have ok: "sys_ok D sys"
    and backed: "backed (supply_now D sys) (sys_hub sys)"
    by (simp_all add: sys_inv_def)
  from assms(3) obtain m s' where sys': "sys_hub sys' = s'"
    and run: "hub_execute (asked D d sys) (e\<lparr>contract_address := a_hub D\<rparr>)
      \<lparr>info_sender = sender, info_funds = funds\<rparr> m (sys_hub sys) = Inr (r, s')"
    by (auto simp: call_def Let_def outcome_simps split: wasm_payload.splits)
  have "rate_rises st s'"
    by (rule execute_rate [OF _ run asked_issued(1) [OF ok] _ assms(6,7,5)])
      (use assms(4,8,9) backed asked_issued(2) [OF ok] in \<open>simp_all add: word_gt_0 unat_gt_0\<close>)
  then show ?thesis by (simp add: sys' rate_rises_def)
qed

text \<open>
  The projections of the deployment: each contract's storage is one that the contract reaches on
  its own, so the invariants that are proved of one contract hold in the deployment.
\<close>

lemma deployment_projects:
  assumes "deployment_ok d0 D" and "reachable (sys_initial d0 D) (sys_step D) sys"
  shows "reachable hub_initial hub_step (sys_hub sys)
    \<and> reachable (token_initial d0 (dep_cw20 D)) (\<lambda>s s'. \<exists>d. token_step d (dep_cw20 D) s s') (sys_token sys)
    \<and> reachable registry_initial registry_step (sys_registry sys)
    \<and> reachable dispatcher_initial dispatcher_step (sys_dispatcher sys)"
  using assms(2)
proof induction
  case (reachable_init sys)
  then show ?case
    by (elim sys_initialE) (auto intro: reachable.intros step_execute)
next
  case (reachable_step sys sys')
  have "t_hub_contract (sys_token sys) = Some (a_hub D)"
    using system_reachable [OF assms(1) reachable_step.hyps(1)] by (simp add: sys_inv_def sys_ok_def)
  from step_own_steps [OF reachable_step.hyps(2) assms(1) this] reachable_step.IH
  show ?case unfolding own_steps_def by (blast intro: reachable_steps)
qed

text \<open>
  C19: Transactions end. The messages that a call causes go at most four contracts deep, so a
  deeper bound gives the same result, and the bound is never what makes a transaction fail.
\<close>

theorem transactions_end:
  assumes "message_law (dep_cw20 D)" and "4 \<le> n"
  shows "exec n D ds e sender target payload funds sys = exec 4 D ds e sender target payload funds sys
    \<and> exec n D ds e sender target payload funds sys \<noteq> Inl (Err TooDeep)"
proof -
  have "depth payload \<le> 4" by (rule depth_bounds(2))
  with assms(2) show ?thesis by (intro exec_enough [OF assms(1)]) simp_all
qed

text \<open>
  C8: An unstake as one transaction. Whether the user calls the hub directly or sends the tokens to
  it, if the transaction succeeds then the supply has fallen by exactly the amount, the user's
  entry of the open batch has grown by exactly the amount, and no other entry has changed: through
  the call of the hub, the burn, and the slashing check that the burn causes.
\<close>

theorem unstake_is_one_transaction:
  assumes "deployment_ok d0 D" and "reachable (sys_initial d0 D) (sys_step D) sys"
    and "send_law (dep_cw20 D)" and "\<forall>i. addr_validate (ds i) user = Inr user"
    and "exec n D ds e user target payload funds sys = Inr sys'"
    and "target = a_hub D \<and> payload = HubPayload (Unstake a)
       \<or> target = a_token D \<and> payload = Cw20Payload (Send (a_hub D) a hook)"
  shows "unstaked D user a sys sys'"
proof -
  have ok: "sys_ok D sys" using system_reachable [OF assms(1,2)] by (simp add: sys_inv_def)
  from assms(6) show ?thesis
  proof
    assume "target = a_hub D \<and> payload = HubPayload (Unstake a)"
    with assms(5) have "exec n D ds e user (a_hub D) (HubPayload (Unstake a)) funds sys = Inr sys'"
      by simp
    then show ?thesis by (rule direct_unstake [OF assms(1) ok _ assms(4) [rule_format]])
  next
    assume "target = a_token D \<and> payload = Cw20Payload (Send (a_hub D) a hook)"
    with assms(5) have "exec n D ds e user (a_token D) (Cw20Payload (Send (a_hub D) a hook)) funds sys
        = Inr sys'"
      by simp
    then show ?thesis by (rule sent_unstake [OF assms(1) ok assms(3) _ assms(4) [rule_format]])
  qed
qed

text \<open>
  C9: A stake as one transaction. If it succeeds, exactly one coin was paid, the recorded stake has
  grown by exactly the payment over what the slashing check found, and the supply has grown by
  exactly the payment divided by the rate of the slashing check, rounded down.
\<close>

theorem stake_is_one_transaction:
  assumes "deployment_ok d0 D" and "reachable (sys_initial d0 D) (sys_step D) sys"
    and "message_law (dep_cw20 D)"
    and "exec n D ds e user (a_hub D) (HubPayload Stake) funds sys = Inr sys'"
  shows "\<exists>payment st0 st st'. funds = [payment] \<and> s_state (sys_hub sys) = Some st0
    \<and> query_actual_state (asked D (ds (sys_calls sys)) sys) (e\<lparr>contract_address := a_hub D\<rparr>)
        (sys_hub sys) st0 = Inr st
    \<and> s_state (sys_hub sys') = Some st'
    \<and> unat (total_staked_amount st') = unat (total_staked_amount st) + unat (coin_amount payment)
    \<and> supply_now D sys' = supply_now D sys
        + unat (coin_amount payment) * 10 ^ 18 div unat (atomics (lst_exchange_rate st))"
proof -
  have ok: "sys_ok D sys" using system_reachable [OF assms(1,2)] by (simp add: sys_inv_def)
  from stake_transaction [OF assms(1) ok assms(3,4)] show ?thesis .
qed

section \<open>A deployment\<close>

definition sample_deployment :: "(nat \<times> addr option) deployment" where
  "sample_deployment = \<lparr>a_hub = sample_hub_addr, a_token = sample_token, a_registry = sample_registry,
     a_dispatcher = sample_dispatcher, dep_cw20 = sample_cw20, dep_supply = fst, dep_minter = snd\<rparr>"

lemma sample_deployment_ok: "deployment_ok sample_deps sample_deployment"
  using sample_cw20_laws
  by (auto simp: deployment_ok_def width_law_def sample_deployment_def sample_cw20_def moved_def
      sample_hub_addr_def sample_token_def sample_registry_def sample_dispatcher_def split: if_splits)

lemma sample_messages: "message_law (dep_cw20 sample_deployment)" "send_law (dep_cw20 sample_deployment)"
  by (auto simp: message_law_def silent_def notifies_def send_law_def sample_deployment_def
      sample_cw20_def moved_def receive_sent_def response_new_def split: if_splits)

text \<open>The other contracts, and the outside world before anything is delegated.\<close>

definition fresh_registry :: registry_storage where
  "fresh_registry = \<lparr>r_config = Some sample_registry_config,
     r_registry = [(''val1'', ValidatorEntry ''val1''), (''val2'', ValidatorEntry ''val2'')],
     r_exclude = [], r_contract_info = Some (REGISTRY_CONTRACT_NAME, REGISTRY_CONTRACT_VERSION)\<rparr>"

definition fresh_dispatcher :: dispatcher_storage where
  "fresh_dispatcher = \<lparr>d_config = Some sample_rewards_config,
     d_contract_info = Some (DISPATCHER_CONTRACT_NAME, DISPATCHER_CONTRACT_VERSION)\<rparr>"

definition fresh_chain :: deps where
  "fresh_chain = sample_chain\<lparr>query_all_delegations := \<lambda>_. Inr []\<rparr>"

definition genesis :: "(nat \<times> addr option) system" where
  "genesis = \<lparr>sys_hub = fresh_hub, sys_token = sample_token_state 0, sys_registry = fresh_registry,
     sys_dispatcher = fresh_dispatcher, sys_calls = 0\<rparr>"

lemma fresh_registry_runs:
  "\<exists>r. registry_instantiate sample_chain (by_user sample_owner [])
     \<lparr>vim_validators = [ValidatorEntry ''val1'', ValidatorEntry ''val2''],
      vim_hub_contract = sample_hub_addr\<rparr> empty_registry_storage = Inr (r, fresh_registry)"
  by (simp add: registry_eval storage_eval sample_defs fresh_registry_def)

lemma fresh_dispatcher_runs:
  "\<exists>r. dispatcher_instantiate sample_deps (by_user sample_owner [])
     \<lparr>rim_hub_contract = sample_hub_addr, rim_reward_denom = ''ubbn'', rim_fee_addr = ''fees'',
      rim_fee_rate = Decimal 250000000000000000\<rparr> empty_dispatcher_storage = Inr (r, fresh_dispatcher)"
  by (simp add: dispatcher_instantiate_def to_checked_address_def from_err_def storage_eval sample_defs
      empty_dispatcher_storage_def fresh_dispatcher_def sample_rewards_config_def MAX_FEE_RATE_def
      less_decimal_def)

lemma fresh_token_runs:
  "\<exists>r. token_instantiate sample_deps sample_cw20 now (by_user sample_owner []) \<lparr>tim_name = ''lst'',
     tim_symbol = ''LST'', tim_decimals = 6, tim_hub_contract = sample_hub_addr, tim_marketing = None\<rparr>
     \<lparr>t_hub_contract = None, t_base = (0, None), t_contract_info = None\<rparr> = Inr (r, sample_token_state 0)"
  by (simp add: token_eval sample_deps_def)

lemma genesis_initial: "sys_initial sample_deps sample_deployment genesis"
proof -
  obtain h0 r r' where h0: "hub_instantiate sample_deps now (by_user sample_owner []) (sample_instantiate 10)
      empty_hub_storage = Inr (r, h0)"
    and conf: "hub_execute sample_deps now (by_user sample_owner []) (UpdateConfig None (Some sample_token)
        (Some sample_registry) (Some sample_dispatcher)) h0 = Inr (r', fresh_hub)"
    using fresh_hub_runs by blast
  from h0 have "hub_initial h0" by (rule hub_initial.intros)
  moreover have "registry_initial fresh_registry" "dispatcher_initial fresh_dispatcher"
    using fresh_registry_runs fresh_dispatcher_runs
    by (blast intro: registry_initial.intros dispatcher_initial.intros)+
  moreover have "token_initial sample_deps (dep_cw20 sample_deployment) (sample_token_state 0)"
    using fresh_token_runs by (auto simp: sample_deployment_def intro: token_initial.intros)
  moreover have "s_config fresh_hub = Some sample_config" "lst_token sample_config = Some (a_token sample_deployment)"
    "t_hub_contract (sample_token_state 0) = Some (a_hub sample_deployment)"
    by (simp_all add: fresh_hub_def sample_config_def sample_deployment_def sample_token_state_def)
  ultimately show ?thesis
    using conf unfolding genesis_def by (blast intro: sys_initial.intros)
qed

text \<open>Alice stakes 90 coins and gets as many tokens.\<close>

lemma asked_fields:
  "addr_validate (asked D d sys) = addr_validate d"
  "decimal_from_ratio (asked D d sys) = decimal_from_ratio d"
  "decimal_mul (asked D d sys) = decimal_mul d"
  "decimal_to_string (asked D d sys) = decimal_to_string d"
  "coin_to_string (asked D d sys) = coin_to_string d"
  "parse_cw20_hook (asked D d sys) = parse_cw20_hook d"
  "query_all_delegations (asked D d sys) = query_all_delegations d"
  "query_balance (asked D d sys) = query_balance d"
  "query_cw20_balance (asked D d sys) = query_cw20_balance d"
  "query_cw20_allowance (asked D d sys) = query_cw20_allowance d"
  "query_token_supply (asked D d sys) (a_token D) = Inr (of_nat (supply_now D sys))"
  "query_validators_delegation (asked D d sys) (a_registry D)
     = answer (query_validators d (sys_registry sys))"
  by (simp_all add: asked_def)

lemma fresh_chain_fields:
  "addr_validate fresh_chain = Inr" "decimal_from_ratio fresh_chain = sample_ratio"
  "decimal_mul fresh_chain = sample_mul" "decimal_to_string fresh_chain = (\<lambda>a. to_string (atomics a))"
  "coin_to_string fresh_chain = (\<lambda>c. to_string (coin_amount c) @ coin_denom c)"
  "query_all_delegations fresh_chain = (\<lambda>_. Inr [])" "query_balance fresh_chain = (\<lambda>_ _. Inr (bbn 150))"
  "query_cw20_balance fresh_chain = (\<lambda>_ _. Inr 200)"
  "query_cw20_allowance fresh_chain = (\<lambda>_ _ _. Inr 200)"
  "parse_cw20_hook fresh_chain = (\<lambda>_. Inr HookUnstake)"
  by (simp_all add: fresh_chain_def sample_chain_def sample_deps_def)

lemma sample_addresses:
  "a_hub sample_deployment = sample_hub_addr" "a_token sample_deployment = sample_token"
  "a_registry sample_deployment = sample_registry" "a_dispatcher sample_deployment = sample_dispatcher"
  "dep_cw20 sample_deployment = sample_cw20" "dep_supply sample_deployment = fst"
  by (simp_all add: sample_deployment_def)

lemma fresh_validators:
  "answer (query_validators fresh_chain fresh_registry) = Inr
     [\<lparr>total_delegated = 0, vr_address = ''val1''\<rparr>, \<lparr>total_delegated = 0, vr_address = ''val2''\<rparr>]"
  by (simp add: answer_def query_validators_def load_registry_config_def fresh_registry_def
      fresh_chain_fields storage_eval active_delegations_def delegations_by_validator_def
      from_err_def eval_simps)

lemma fresh_supply:
  "query_token_supply (asked sample_deployment d sys) sample_token
     = Inr (of_nat (supply_now sample_deployment sys))"
  "sys_registry sys = fresh_registry \<Longrightarrow>
     query_validators_delegation (asked sample_deployment fresh_chain sys) sample_registry = Inr
     [\<lparr>total_delegated = 0, vr_address = ''val1''\<rparr>, \<lparr>total_delegated = 0, vr_address = ''val2''\<rparr>]"
  using asked_fields(11,12) [of sample_deployment] fresh_validators by (simp_all add: sample_addresses)

lemma token_states: "supply_now sample_deployment genesis = 0" "sys_registry genesis = fresh_registry"
  by (simp_all add: supply_now_def sample_deployment_def genesis_def sample_token_state_def)

lemmas flow_eval = hub_execute_def storage_eval fresh_hub_def fresh_state_def stake_eval slashing_eval
  sample_config_def sample_params_def asked_fields fresh_chain_fields fresh_supply eval_simps bbn_def
  token_states now_def staked_hub_def split_eval sample_ratio_def

lemma hub_stake:
  "\<exists>r. hub_execute (asked sample_deployment fresh_chain genesis) now
      \<lparr>info_sender = alice, info_funds = [bbn 90]\<rparr> Stake fresh_hub = Inr (r, staked_hub)
    \<and> wasm_calls (messages r) = [(sample_token, Cw20Payload (Mint alice 90), [])]"
  by (simp add: flow_eval prepare_wrapped_delegate_msg_def to_any_def cong: eval_cong)


definition staked_system :: "(nat \<times> addr option) system" where
  "staked_system = \<lparr>sys_hub = staked_hub, sys_token = sample_token_state 90,
     sys_registry = fresh_registry, sys_dispatcher = fresh_dispatcher, sys_calls = 2\<rparr>"

lemma at_hub: "now\<lparr>contract_address := sample_hub_addr\<rparr> = now"
  by (simp add: now_def)

lemma not_hub: "sample_token \<noteq> sample_hub_addr" "sample_hub_addr \<noteq> sample_token"
  by (simp_all add: sample_token_def sample_hub_addr_def)

lemma sample_mint:
  "cw20_mint sample_cw20 e i x a b = moved (snd b = Some (info_sender i) \<and> fst b + unat a < 2 ^ 128)
     (fst b + unat a, snd b)"
  by (cases b) (simp add: sample_cw20_def)

lemma genesis_parts:
  "sys_hub genesis = fresh_hub" "sys_token genesis = sample_token_state 0" "sys_calls genesis = 0"
  by (simp_all add: genesis_def)

lemma lift_err_run [simp]: "lift_err h (Inr a) = Inr a"
  by (simp add: lift_err_def)

lemma alice_stakes:
  "exec (Suc (Suc 0)) sample_deployment (\<lambda>_. fresh_chain) now alice sample_hub_addr (HubPayload Stake) [bbn 90] genesis
     = Inr staked_system"
proof -
  obtain r where "hub_execute (asked sample_deployment fresh_chain genesis) now
      \<lparr>info_sender = alice, info_funds = [bbn 90]\<rparr> Stake fresh_hub = Inr (r, staked_hub)"
    and "wasm_calls (messages r) = [(sample_token, Cw20Payload (Mint alice 90), [])]"
    using hub_stake by blast
  then have "exec (Suc (Suc 0)) sample_deployment (\<lambda>_. fresh_chain) now alice sample_hub_addr (HubPayload Stake) [bbn 90]
      genesis = Inr (genesis\<lparr>sys_calls := Suc (Suc 0), sys_hub := staked_hub, sys_token := sample_token_state 90\<rparr>)"
    by (simp add: forward_calls call_def Let_def sample_addresses at_hub not_hub
        genesis_parts token_execute_def in_base_def from_err_def sample_mint moved_def sample_token_state_def
        response_new_def)
  then show ?thesis by (simp add: genesis_def staked_system_def)
qed

lemma staked_reachable:
  "reachable (sys_initial sample_deps sample_deployment) (sys_step sample_deployment) staked_system"
proof -
  have "outsider sample_deployment alice"
    by (simp add: outsider_def sample_addresses alice_def sample_hub_addr_def sample_token_def
        sample_registry_def sample_dispatcher_def)
  moreover have "decimal_ratio_law fresh_chain"
    using sample_laws(1) by (simp add: decimal_ratio_law_def fresh_chain_fields sample_deps_def)
  ultimately have "sys_step sample_deployment genesis staked_system"
    using transaction [OF alice_stakes] by blast
  with genesis_initial show ?thesis by (blast intro: reachable.intros)
qed

section \<open>Witnesses\<close>

lemma tokens_always_backed_witness:
  "\<exists>st cb. s_state (sys_hub staked_system) = Some st \<and> s_current_batch (sys_hub staked_system) = Some cb
    \<and> supply_now sample_deployment staked_system = 90
    \<and> (unat (atomics (lst_exchange_rate st)) * (90 + unat (requested_lst_token_amount cb))
        \<le> unat (total_staked_amount st) * 10 ^ 18
      \<or> total_staked_amount st = 0 \<and> lst_exchange_rate st = decimal_one)"
proof -
  have "supply_now sample_deployment staked_system = 90"
    by (simp add: supply_now_def staked_system_def sample_token_state_def sample_addresses)
  with tokens_always_backed [OF sample_deployment_ok staked_reachable] show ?thesis by simp
qed

lemma contracts_stay_connected_witness:
  "dep_minter sample_deployment (t_base (sys_token staked_system)) = Some sample_hub_addr
    \<and> hub_inv (sys_hub staked_system)"
  using contracts_stay_connected [OF sample_deployment_ok staked_reachable]
  by (simp add: sample_addresses)

lemma staked_parts:
  "sys_hub staked_system = staked_hub" "sys_registry staked_system = fresh_registry"
  "sys_token staked_system = sample_token_state 90" "sys_calls staked_system = 2"
  "supply_now sample_deployment staked_system = 90"
  by (simp_all add: staked_system_def supply_now_def sample_addresses sample_token_state_def)

lemma hub_rewards:
  "\<exists>r s'. hub_execute (asked sample_deployment fresh_chain staked_system) now
      \<lparr>info_sender = sample_dispatcher, info_funds = [bbn 45]\<rparr> StakeRewards staked_hub = Inr (r, s')"
  by (simp add: flow_eval staked_parts cong: eval_cong)

lemma rate_falls_only_by_slashing_witness:
  "\<exists>r sys' st'. call sample_deployment fresh_chain now sample_dispatcher sample_hub_addr
      (HubPayload StakeRewards) [bbn 45] staked_system = Inr (r, sys')
    \<and> s_state (sys_hub sys') = Some st' \<and> decimal_one \<le> lst_exchange_rate st'"
proof -
  obtain r s' where "hub_execute (asked sample_deployment fresh_chain staked_system) now
      \<lparr>info_sender = sample_dispatcher, info_funds = [bbn 45]\<rparr> StakeRewards staked_hub = Inr (r, s')"
    using hub_rewards by blast
  then have run: "call sample_deployment fresh_chain now sample_dispatcher (a_hub sample_deployment)
      (HubPayload StakeRewards) [bbn 45] staked_system = Inr (r, staked_system\<lparr>sys_hub := s'\<rparr>)"
    by (simp add: call_def Let_def sample_addresses at_hub staked_parts)
  have law: "decimal_ratio_law fresh_chain"
    using sample_laws(1) by (simp add: decimal_ratio_law_def fresh_chain_fields sample_deps_def)
  have enough: "no_shortfall (asked sample_deployment fresh_chain staked_system)
      (now\<lparr>contract_address := a_hub sample_deployment\<rparr>) (sys_hub staked_system)"
    by (simp add: no_shortfall_def staked_parts sample_addresses at_hub get_pending_delegation_amount_def
        flow_eval cong: eval_cong)
  have items: "s_state (sys_hub staked_system) = Some (fresh_state\<lparr>total_staked_amount := 90\<rparr>)"
    "s_current_batch (sys_hub staked_system) = Some \<lparr>cb_id = 1, requested_lst_token_amount = 0\<rparr>"
    by (simp_all add: staked_parts staked_hub_def fresh_hub_def)
  from rate_falls_only_by_slashing [OF sample_deployment_ok staked_reachable run law enough items] run
  show ?thesis by (auto simp: staked_parts sample_addresses fresh_state_def)
qed

lemma transactions_end_witness:
  "exec 7 sample_deployment (\<lambda>_. fresh_chain) now alice sample_token
      (Cw20Payload (Send sample_hub_addr 30 ''unstake'')) [] staked_system
    = exec 4 sample_deployment (\<lambda>_. fresh_chain) now alice sample_token
      (Cw20Payload (Send sample_hub_addr 30 ''unstake'')) [] staked_system"
  using transactions_end [OF sample_messages(1), of 7] by simp

lemma stake_is_one_transaction_witness:
  "supply_now sample_deployment staked_system = 90
    \<and> (\<exists>st'. s_state (sys_hub staked_system) = Some st' \<and> unat (total_staked_amount st') = 90)"
proof -
  have slashing: "query_actual_state (asked sample_deployment fresh_chain genesis) now fresh_hub fresh_state
      = Inr fresh_state"
    by (simp add: flow_eval cong: eval_cong)
  have reach: "reachable (sys_initial sample_deps sample_deployment) (sys_step sample_deployment) genesis"
    using genesis_initial by (rule reachable.intros)
  have run: "exec (Suc (Suc 0)) sample_deployment (\<lambda>_. fresh_chain) now alice (a_hub sample_deployment)
      (HubPayload Stake) [bbn 90] genesis = Inr staked_system"
    using alice_stakes by (simp only: sample_addresses)
  obtain payment st0 st st' where out: "[bbn 90] = [payment]" "s_state fresh_hub = Some st0"
    "query_actual_state (asked sample_deployment fresh_chain genesis) now fresh_hub st0 = Inr st"
    "s_state (sys_hub staked_system) = Some st'"
    "unat (total_staked_amount st') = unat (total_staked_amount st) + unat (coin_amount payment)"
    "supply_now sample_deployment staked_system
      = unat (coin_amount payment) * 10 ^ 18 div unat (atomics (lst_exchange_rate st))"
    using stake_is_one_transaction [OF sample_deployment_ok reach sample_messages(1) run]
    by (auto simp: genesis_parts sample_addresses at_hub token_states)
  moreover have "st = fresh_state" "coin_amount payment = 90"
    using out(1-3) slashing by (auto simp: fresh_hub_def bbn_def)
  ultimately show ?thesis by (simp add: fresh_state_def decimal_one_def)
qed

text \<open>Alice sends 30 of her tokens to the hub, which burns them.\<close>

definition unstaking_hub :: hub_storage where
  "unstaking_hub = staked_hub\<lparr>s_unstake_wait_list := [((alice, 1), 30)],
     s_current_batch := Some \<lparr>cb_id = 1, requested_lst_token_amount = 30\<rparr>\<rparr>"

lemma hub_hook:
  "\<exists>r. hub_execute (asked sample_deployment fresh_chain staked_system) now
      \<lparr>info_sender = sample_token, info_funds = []\<rparr> (Receive (Cw20ReceiveMsg alice 30 hook)) staked_hub
        = Inr (r, unstaking_hub)
    \<and> wasm_calls (messages r) = [(sample_token, Cw20Payload (Burn 30), [])]"
  by (simp add: flow_eval staked_parts unstaking_hub_def receive_cw20_def unstake_eval cong: eval_cong)

lemma hub_check:
  "\<exists>r. hub_execute (asked sample_deployment fresh_chain sys) now
      \<lparr>info_sender = sample_token, info_funds = []\<rparr> CheckSlashing unstaking_hub = Inr (r, unstaking_hub)
    \<and> wasm_calls (messages r) = []"
  by (simp add: flow_eval unstaking_hub_def execute_slashing_def response_new_def cong: eval_cong)

lemma sample_send_burn:
  "cw20_send sample_cw20 e i x a m b = Inr (receive_sent i x a m, b)"
  "cw20_burn sample_cw20 e i a b = moved (unat a \<le> fst b) (fst b - unat a, snd b)"
  by (cases b; simp add: sample_cw20_def)+

lemma alice_sends:
  "exec (Suc (Suc (Suc (Suc 0)))) sample_deployment (\<lambda>_. fresh_chain) now alice sample_token
      (Cw20Payload (Send sample_hub_addr 30 hook)) [] staked_system
    = Inr (staked_system\<lparr>sys_hub := unstaking_hub, sys_token := sample_token_state 60, sys_calls := 6\<rparr>)"
proof -
  obtain r where hook: "hub_execute (asked sample_deployment fresh_chain staked_system) now
      \<lparr>info_sender = sample_token, info_funds = []\<rparr> (Receive (Cw20ReceiveMsg alice 30 hook)) staked_hub
        = Inr (r, unstaking_hub)"
    "wasm_calls (messages r) = [(sample_token, Cw20Payload (Burn 30), [])]"
    using hub_hook by blast
  obtain check where check: "\<And>sys. hub_execute (asked sample_deployment fresh_chain sys) now
      \<lparr>info_sender = sample_token, info_funds = []\<rparr> CheckSlashing unstaking_hub
        = Inr (check sys, unstaking_hub)" "\<And>sys. wasm_calls (messages (check sys)) = []"
    using hub_check by metis
  have same: "asked sample_deployment fresh_chain (staked_system\<lparr>sys_token := sample_token_state 90\<rparr>)
      = asked sample_deployment fresh_chain staked_system"
    by (simp add: asked_def supply_now_def staked_parts cong: if_cong)
  note calls = forward_calls [where ms = "messages r"] forward_calls [where ms = "messages (check y)" for y]
  show ?thesis
    by (simp add: forward_def calls call_def Let_def sample_addresses at_hub not_hub staked_parts
        token_execute_def in_base_def from_err_def sample_send_burn receive_sent_def moved_def hook check
        same [unfolded sample_token_state_def] token_burn_def build_check_slashing_sub_msg_def response_new_def sample_token_state_def)
qed

lemma unstake_is_one_transaction_witness:
  "unstaked sample_deployment alice 30 staked_system
     (staked_system\<lparr>sys_hub := unstaking_hub, sys_token := sample_token_state 60, sys_calls := 6\<rparr>)"
proof -
  have run: "exec (Suc (Suc (Suc (Suc 0)))) sample_deployment (\<lambda>_. fresh_chain) now alice
      (a_token sample_deployment) (Cw20Payload (Send (a_hub sample_deployment) 30 ''unstake'')) []
      staked_system = Inr (staked_system\<lparr>sys_hub := unstaking_hub, sys_token := sample_token_state 60,
        sys_calls := 6\<rparr>)"
    using alice_sends by (simp only: sample_addresses)
  show ?thesis
    by (rule unstake_is_one_transaction [OF sample_deployment_ok staked_reachable sample_messages(2) _ run])
      (simp_all add: fresh_chain_fields)
qed

text \<open>On the way there alice has an entry of 30, which a second unstake makes 50.\<close>

lemma unstaking_hub_reachable: "reachable hub_initial hub_step unstaking_hub"
proof -
  obtain h0 r r' where "hub_initial h0" "hub_step h0 fresh_hub"
    using fresh_hub_runs by (blast intro: hub_initial.intros step_execute)
  moreover have "hub_step fresh_hub staked_hub" "hub_step staked_hub unstaking_hub"
    using hub_stake hub_hook by (blast intro: step_execute)+
  ultimately show ?thesis by (blast intro: reachable.intros)
qed

lemma hub_second_unstake:
  "\<exists>r s'. hub_execute (asked sample_deployment fresh_chain staked_system) now (by_user alice [])
      (Unstake 20) unstaking_hub = Inr (r, s') \<and> may_load (s_unstake_wait_list s') (alice, 1) = Some 50"
  by (simp add: flow_eval staked_parts unstaking_hub_def unstake_eval by_user_def cong: eval_cong)

lemma claims_protected_witness:
  "\<exists>r s' v. hub_execute (asked sample_deployment fresh_chain staked_system) now (by_user alice [])
      (Unstake 20) unstaking_hub = Inr (r, s') \<and> may_load (s_unstake_wait_list s') (alice, 1) = Some v
    \<and> 30 \<le> v"
proof -
  obtain r s' where run: "hub_execute (asked sample_deployment fresh_chain staked_system) now
      (by_user alice []) (Unstake 20) unstaking_hub = Inr (r, s')"
    and new: "may_load (s_unstake_wait_list s') (alice, 1) = Some 50"
    using hub_second_unstake by blast
  have "may_load (s_unstake_wait_list unstaking_hub) (alice, 1) = Some 30"
    by (simp add: unstaking_hub_def may_load_def)
  from claims_protected [OF unstaking_hub_reachable run this] run new show ?thesis by auto
qed

end
