(* ===== verification/Failures.thy ===== *)
theory Failures
  imports System_Properties
begin

text \<open>
  How the handlers can fail. An error is a result of the code and rolls the transaction back; a
  panic aborts it. Which panics each message can end in is computed by one equation per operation,
  collected in \<open>panic_rules\<close>.
\<close>

named_theorems panic_rules "what a computation panics with"

section \<open>The panics of a computation\<close>

definition panics_in :: "panic set \<Rightarrow> ('e, 'a) outcome \<Rightarrow> bool" where
  "panics_in P m \<longleftrightarrow> (\<forall>p. m = Inl (Panic p) \<longrightarrow> p \<in> P)"

lemma panics_in_basic [panic_rules]:
  "panics_in P (Inr a)" "panics_in P (Inl (Err e))" "panics_in P (Inl (Panic p)) \<longleftrightarrow> p \<in> P"
  by (simp_all add: panics_in_def)

lemma panics_in_and_then [panic_rules]:
  "panics_in P (and_then m k) \<longleftrightarrow> panics_in P m \<and> (\<forall>a. m = Inr a \<longrightarrow> panics_in P (k a))"
  by (cases m) (auto simp: panics_in_def)

lemma panics_in_if [panic_rules]:
  "panics_in P (if b then m else m') \<longleftrightarrow> (b \<longrightarrow> panics_in P m) \<and> (\<not> b \<longrightarrow> panics_in P m')"
  by simp

lemma panics_in_mono: "panics_in P m \<Longrightarrow> P \<subseteq> Q \<Longrightarrow> panics_in Q m"
  by (auto simp: panics_in_def)

lemma panics_in_errors [panic_rules]:
  "panics_in P (ok_or opt e)" "panics_in P (ensure b e)" "panics_in P (from_err h m')"
  "panics_in P (query_std q)" "panics_in P (load name it)" "panics_in P (to_checked_address d a)"
  "panics_in P (checked_sub e x y)" "panics_in P (checked_add e x y)"
  "panics_in P (checked_sub_or_overflow v w)"
  "panics_in P (hub_err he)" "panics_in P (validator_err ve)" "panics_in P unauthorized"
  by (auto simp: panics_in_def ok_or_def ensure_def from_err_def query_std_def load_def
      to_checked_address_def checked_sub_def checked_add_def checked_sub_or_overflow_def
      hub_err_def validator_err_def unauthorized_def split: option.splits sum.splits if_splits)

lemma panics_in_arith [panic_rules]:
  "ArithmeticOverflow \<in> P \<Longrightarrow> panics_in P (uadd a b)"
  "ArithmeticOverflow \<in> P \<Longrightarrow> panics_in P (usub a b)"
  "ArithmeticOverflow \<in> P \<Longrightarrow> panics_in P (umul a b)"
  "DivisionByZero \<in> P \<or> b \<noteq> 0 \<Longrightarrow> panics_in P (udiv a b)"
  "UnwrapFailed \<in> P \<Longrightarrow> panics_in P (narrow x)"
  "UnwrapFailed \<in> P \<Longrightarrow> panics_in P m \<Longrightarrow> panics_in P (unwrap m)"
  "UnwrapFailed \<in> P \<Longrightarrow> panics_in P (expect opt)"
  by (auto simp: panics_in_def uadd_def usub_def umul_def udiv_def narrow_def unwrap_def expect_def
      split: if_splits sum.splits failure.splits option.splits)

lemma panics_in_for_each:
  "(\<And>a s. a \<in> set as \<Longrightarrow> panics_in P (body a s)) \<Longrightarrow> panics_in P (for_each body as s)"
  by (induction as arbitrary: s) (simp_all add: panic_rules)

lemma panics_in_ratio [panic_rules]:
  assumes "decimal_ratio_law d"
  shows "ArithmeticOverflow \<in> P \<Longrightarrow> m \<noteq> 0 \<Longrightarrow> panics_in P (or_panic (decimal_from_ratio d n m))"
  using assms by (auto simp: decimal_ratio_law_def or_panic_def panics_in_def)

lemma panics_in_loads [panic_rules]:
  "panics_in P (load_config s)" "panics_in P (load_parameters s)" "panics_in P (load_current_batch s)"
  "panics_in P (load_state s)" "panics_in P (load_pending_delegation s)"
  "panics_in P (read_unstake_history s b)" "panics_in P (update_state d old new s)"
  by (simp_all add: load_config_def load_parameters_def load_current_batch_def load_state_def
      load_pending_delegation_def read_unstake_history_def update_state_def panic_rules)

section \<open>Splitting, rates and pending amounts\<close>

lemma split_panics [panic_rules]:
  assumes "ArithmeticOverflow \<in> P"
  shows "panics_in P (calculate_delegations amt vs)" "panics_in P (calculate_undelegations amt vs)"
proof -
  have "panics_in {ArithmeticOverflow} (calculate_delegations amt vs)"
    using calculate_delegations_overflow [of vs amt] calculate_delegations_spec [of vs amt]
    by (cases "vs = []"; cases "2 ^ 128 \<le> delegated vs + unat amt")
      (force simp: panic_rules not_le)+
  then show "panics_in P (calculate_delegations amt vs)"
    using assms by (elim panics_in_mono) simp
  consider "vs = []" | "vs \<noteq> []" "2 ^ 128 \<le> delegated vs"
    | "vs \<noteq> []" "delegated vs < 2 ^ 128" "delegated vs < unat amt"
    | "vs \<noteq> []" "delegated vs < 2 ^ 128" "amt = 0"
    | "vs \<noteq> []" "delegated vs < 2 ^ 128" "0 < unat amt" "unat amt \<le> delegated vs"
    by (metis not_le unat_gt_0)
  then show "panics_in P (calculate_undelegations amt vs)"
    by cases (use assms calculate_undelegations_spec [of vs amt] in \<open>auto simp: panic_rules
        calculate_undelegations_overflow calculate_undelegations_exceed calculate_undelegations_zero\<close>)
qed

lemma shares_panics [panic_rules]:
  "calculate_delegations amt vs = Inr ds \<Longrightarrow> panics_in P (nonzero_shares vs ds)"
  "calculate_undelegations amt vs = Inr us \<Longrightarrow> panics_in P (nonzero_shares vs us)"
  using nonzero_shares_spec [of ds vs] nonzero_shares_spec [of us vs]
  by (auto simp: panic_rules dest!: delegations.split_length undelegations.split_length)

lemma delegate_messages_panics [panic_rules]:
  "calculate_delegations amt vs = Inr ds \<Longrightarrow> panics_in P (delegate_messages e denom vs ds)"
  by (simp add: delegate_messages_def panic_rules)

lemma decimal_panics [panic_rules]:
  "{ArithmeticOverflow, DivisionByZero, UnwrapFailed} \<subseteq> P \<Longrightarrow> panics_in P (decimal_division a b)"
  "{ArithmeticOverflow, UnwrapFailed} \<subseteq> P \<Longrightarrow> panics_in P (decimal_multiplication a b)"
  by (simp_all add: decimal_division_def decimal_multiplication_def panic_rules Let_def
      DECIMAL_FRACTIONAL_def)

lemma pending_panics [panic_rules]:
  "ArithmeticOverflow \<in> P \<Longrightarrow> panics_in P (get_pending_delegation_amount e s)"
  "{ArithmeticOverflow, DivisionByZero} \<subseteq> P \<Longrightarrow> panics_in P (update_pending_delegation_amount e a b s)"
  by (simp_all add: get_pending_delegation_amount_def update_pending_delegation_amount_def
      panic_rules Let_def)

lemma rate_panics [panic_rules]:
  "decimal_ratio_law d \<Longrightarrow> ArithmeticOverflow \<in> P \<Longrightarrow> panics_in P (update_lst_exchange_rate d st a b)"
  by (simp add: update_lst_exchange_rate_def panic_rules)

lemma issued_panics [panic_rules]: "panics_in P (query_total_lst_token_issued d s)"
  by (simp add: query_total_lst_token_issued_def panic_rules)

lemma slashing_panics [panic_rules]:
  assumes "decimal_ratio_law d" "ArithmeticOverflow \<in> P"
  shows "panics_in P (query_actual_state d e s st)" "panics_in P (check_slashing d e st s)"
    "panics_in P (execute_slashing d e s)"
proof -
  have "panics_in P (actual_total_staked denom dels)" for denom dels
    unfolding actual_total_staked_def
    by (rule panics_in_for_each) (simp add: panic_rules assms)
  with assms show "panics_in P (query_actual_state d e s st)" for st
    by (simp add: query_actual_state_def panic_rules split_beta)
  then show "panics_in P (check_slashing d e st s)" for st
    by (simp add: check_slashing_def panic_rules split_beta Let_def)
  then show "panics_in P (execute_slashing d e s)"
    by (simp add: execute_slashing_def panic_rules split_beta)
qed

section \<open>The handlers of the hub\<close>

abbreviation staking_panics :: "panic set" where
  "staking_panics \<equiv> {ArithmeticOverflow, DivisionByZero, UnwrapFailed}"

lemma stake_panics [panic_rules]:
  assumes "decimal_ratio_law d"
  shows "panics_in staking_panics (execute_stake d e info kind s)"
  by (simp add: execute_stake_def panic_rules assms split_beta split: stake_type.split)

lemma epoch_completion_panics [panic_rules]:
  assumes "decimal_ratio_law d"
  shows "panics_in staking_panics (check_for_unstake_batch_epoch_completion d e batch s)"
proof -
  have "panics_in P (pick_validator_for_undelegation d e claim s)" if "ArithmeticOverflow \<in> P" for P claim s
    by (simp add: pick_validator_for_undelegation_def panic_rules that)
  then have "panics_in staking_panics (process_undelegations_for_batch d e batch st s)" for st s
    by (simp add: process_undelegations_for_batch_def panic_rules Let_def)
  then show ?thesis
    by (simp add: check_for_unstake_batch_epoch_completion_def panic_rules assms split_beta)
qed

lemma unstake_panics [panic_rules]:
  assumes "decimal_ratio_law d"
  shows "panics_in staking_panics (execute_unstake d e amount sender flow s)"
    "panics_in staking_panics (execute_process_undelegations d e s)"
proof -
  have "panics_in staking_panics (update_unstake_batch_wait_list d batch sender amount s)" for batch
    by (simp add: update_unstake_batch_wait_list_def panic_rules Let_def split: option.split)
  moreover have "panics_in P (burn_message d e a sender amount flow)" for P a
    by (simp add: burn_message_def panic_rules split: unstake_type.split)
  ultimately show "panics_in staking_panics (execute_unstake d e amount sender flow s)"
    by (simp add: execute_unstake_def panic_rules assms split_beta)
  show "panics_in staking_panics (execute_process_undelegations d e s)"
    by (simp add: execute_process_undelegations_def panic_rules assms split_beta)
qed

abbreviation amount_panics :: "panic set" where
  "amount_panics \<equiv> {ArithmeticOverflow, UnwrapFailed}"

lemma finished_panics [panic_rules]:
  "panics_in amount_panics (process_finished_amount s entries)"
  unfolding process_finished_amount_def
  by (rule panics_in_for_each)
    (auto simp: finish_entry_def read_unstake_history_def ok_or_def panic_rules split: option.split)

lemma unprocessed_panics: "panics_in amount_panics (unprocessed_loop s cutoff b remaining hs)"
proof (induction s cutoff b remaining hs rule: unprocessed_loop.induct)
  case (1 s cutoff b remaining hs)
  show ?case
    by (subst unprocessed_loop.simps)
      (auto simp: read_unstake_history_def ok_or_def panic_rules split: option.split intro: 1 )
qed

lemma withdraw_rate_panics [panic_rules]:
  "panics_in amount_panics (process_withdraw_rate d cutoff balance s)"
proof -
  have "panics_in P (for_each release_batch hs x)" for P hs x
    by (rule panics_in_for_each) (simp add: release_batch_def panic_rules split_beta)
  then show ?thesis
    by (simp add: process_withdraw_rate_def get_unprocessed_histories_def unprocessed_panics panic_rules
        split_beta)
qed

lemma withdraw_panics [panic_rules]:
  "panics_in amount_panics (execute_withdraw_unstaked_impl d e info ids s)"
  "panics_in amount_panics (execute_process_withdraw_requests d e s)"
proof -
  have "panics_in amount_panics (free_balance_and_cutoff d e s)"
    by (simp add: free_balance_and_cutoff_def panic_rules Let_def split_beta)
  moreover have "panics_in P (save_unclaimed_balance a s)" for P a s
    by (simp add: save_unclaimed_balance_def panic_rules)
  moreover have "panics_in P (remove_unstake_wait_list bs a s)" for P bs a s
    unfolding remove_unstake_wait_list_def by (rule panics_in_for_each) (simp add: panic_rules)
  ultimately show "panics_in amount_panics (execute_withdraw_unstaked_impl d e info ids s)"
    "panics_in amount_panics (execute_process_withdraw_requests d e s)"
    by (simp_all add: execute_withdraw_unstaked_impl_def execute_process_withdraw_requests_def
        get_finished_amount_def get_finished_amount_for_batches_def panic_rules Let_def split_beta
        split: option.split)
qed

lemma owner_panics [panic_rules]:
  "panics_in P (execute_update_params info pause el up s)"
  "panics_in P (execute_update_config d info no token reg disp s)"
  "panics_in P (execute_redelegate_proxy e info src reds s)"
  "panics_in P (execute_update_global_index d e s)"
proof -
  have auth: "panics_in P (is_authorized_sender s a)" for a
    by (simp add: is_authorized_sender_def panic_rules)
  moreover have "panics_in P (validate_periods q el up)" for q
    by (simp add: validate_periods_def panic_rules split: option.split)
  ultimately show "panics_in P (execute_update_params info pause el up s)"
    by (simp add: execute_update_params_def panic_rules Let_def)
  show "panics_in P (execute_update_config d info no token reg disp s)"
    by (simp add: execute_update_config_def panic_rules auth split_beta split: option.split)
  show "panics_in P (execute_redelegate_proxy e info src reds s)"
    "panics_in P (execute_update_global_index d e s)"
    by (simp_all add: execute_redelegate_proxy_def execute_update_global_index_def withdraw_all_rewards_def
        panic_rules Let_def)
qed

definition hub_panics :: "hub_execute_msg \<Rightarrow> panic set" where
  "hub_panics msg = (case msg of
       Receive _ \<Rightarrow> staking_panics | Stake \<Rightarrow> staking_panics | StakeRewards \<Rightarrow> staking_panics
     | Unstake _ \<Rightarrow> staking_panics | ProcessUndelegations \<Rightarrow> staking_panics
     | WithdrawUnstaked \<Rightarrow> amount_panics | WithdrawUnstakedForBatches _ \<Rightarrow> amount_panics
     | ProcessWithdrawRequests \<Rightarrow> amount_panics
     | CheckSlashing \<Rightarrow> {ArithmeticOverflow}
     | _ \<Rightarrow> {})"

lemma hub_execute_panics:
  assumes "decimal_ratio_law d"
  shows "panics_in (hub_panics msg) (hub_execute d e info msg s)"
  by (cases msg) (simp_all add: hub_execute_def hub_panics_def panic_rules assms receive_cw20_def
      execute_withdraw_unstaked_def execute_withdraw_unstaked_for_batches_def split: cw20_hook_msg.split)

section \<open>The other contracts\<close>

lemma registry_execute_panics:
  "panics_in amount_panics (registry_execute d info msg s)"
proof -
  have loop: "panics_in amount_panics (for_each (redelegate_from hub m active) excl ms)" for hub m active excl ms
    by (rule panics_in_for_each) (auto simp: redelegate_from_def panic_rules split: option.split)
  show ?thesis
    by (cases msg)
      (simp_all add: registry_execute_def add_validator_def remove_validator_def fetch_validator_info_def
        process_redelegations_def update_registry_config_def load_registry_config_def
        convert_addr_by_prefix_def panic_rules loop Let_def split_beta split: option.split)
qed

lemma dispatcher_execute_panics:
  assumes "decimal_ratio_law d" "decimal_mul_law d" "decimal_ceil_law d"
  shows "panics_in {ArithmeticOverflow} (dispatcher_execute d e info msg s)"
proof -
  have fee: "panics_in {ArithmeticOverflow} (compute_fee d a rate)" for a rate
    using assms(2,3) by (simp add: compute_fee_def panic_rules assms(1))
      (simp add: decimal_mul_law_def decimal_ceil_law_def or_panic_def panic_rules)
  show ?thesis
    by (cases msg)
      (simp_all add: dispatcher_execute_def execute_dispatch_rewards_def update_rewards_config_def
        query_rewards_config_def is_paused_def is_authorized_owner_def checked_or_def panic_rules fee
        Let_def split: option.split)
qed

lemma token_execute_panics: "panics_in P (token_execute ops e info msg s)"
proof -
  have "panics_in P (in_base f s)" for f
    by (simp add: in_base_def panic_rules split_beta)
  then show ?thesis
    by (cases msg) (simp_all add: token_execute_def token_burn_def token_burn_from_def
        build_check_slashing_sub_msg_def panic_rules split_beta)
qed

lemma lift_err_panics: "panics_in P m \<Longrightarrow> panics_in P (lift_err h m)"
  by (auto simp: panics_in_def lift_err_def split: sum.splits failure.splits)

definition decimal_laws :: "deps \<Rightarrow> bool" where
  "decimal_laws d \<longleftrightarrow> decimal_ratio_law d \<and> decimal_mul_law d \<and> decimal_ceil_law d"

lemma asked_laws: "decimal_laws (asked D d sys) = decimal_laws d"
  by (simp add: decimal_laws_def decimal_ratio_law_def decimal_mul_law_def decimal_ceil_law_def asked_def)

lemma call_panics:
  assumes "decimal_laws d"
  shows "panics_in staking_panics (call D d e sender target payload funds sys)"
proof -
  have laws: "decimal_ratio_law (asked D d sys)" "decimal_mul_law (asked D d sys)"
    "decimal_ceil_law (asked D d sys)"
    using assms asked_laws [of D d sys] by (simp_all add: decimal_laws_def)
  have "panics_in staking_panics (lift_err h (hub_execute (asked D d sys) e' i m s))" for h e' i m s
    using hub_execute_panics [OF laws(1)]
    by (rule lift_err_panics [OF panics_in_mono])
      (auto simp: hub_panics_def split: hub_execute_msg.splits)
  moreover have "panics_in staking_panics (lift_err h (dispatcher_execute (asked D d sys) e' i m s))"
    for h e' i m s
    using dispatcher_execute_panics [OF laws] by (rule lift_err_panics [OF panics_in_mono]) simp
  moreover have "panics_in staking_panics (lift_err h (token_execute (dep_cw20 D) e' i m s))" for h e' i m s
    by (rule lift_err_panics [OF token_execute_panics])
  ultimately show ?thesis
    by (auto simp: call_def Let_def panic_rules split: wasm_payload.split)
qed

lemma exec_panics:
  assumes "\<And>i. decimal_laws (ds i)"
  shows "panics_in staking_panics (exec n D ds e sender target payload funds sys)"
proof (induction n arbitrary: sender target payload funds sys)
  case (Suc n)
  have "panics_in staking_panics (for_each (forward (exec n D ds e) target) ms x)" for ms x
    by (rule panics_in_for_each) (auto simp: forward_def Suc panic_rules split: cosmos_msg.split)
  then show ?case using call_panics [OF assms] by (auto simp: panic_rules)
qed (simp add: panic_rules)

text \<open>Transactions of the registry: its own call, and the redelegations it asks the hub for.\<close>

lemma exec_registry_panics:
  assumes "\<And>i. decimal_laws (ds i)"
  shows "panics_in staking_panics (exec_registry n D ds e sender msg sys)"
proof -
  have "panics_in staking_panics (for_each (forward (exec n D ds e) a) ms x)" for a ms x
    by (rule panics_in_for_each)
      (auto simp: forward_def exec_panics [OF assms] panic_rules split: cosmos_msg.split)
  moreover have "panics_in staking_panics (lift_err h (registry_execute d info msg s))" for h d info s
    using registry_execute_panics by (rule lift_err_panics [OF panics_in_mono]) auto
  ultimately show ?thesis
    by (auto simp: exec_registry_def panic_rules)
qed

lemma exec_registry_enough:
  assumes "message_law (dep_cw20 D)" and "4 \<le> n"
  shows "exec_registry n D ds e sender msg sys \<noteq> Inl (Err TooDeep)"
proof -
  have below: "exec n D ds e a t p fs x \<noteq> Inl (Err TooDeep)" for a t p fs x
    using exec_enough [OF assms(1), of p n n] depth_bounds(2) [of p] assms(2) by force
  have "for_each (forward (exec n D ds e) a) ms x \<noteq> Inl (Err TooDeep)" for a ms x
    unfolding forward_calls by (rule notI, erule for_each_error) (auto simp: below)
  moreover have "lift_err ContractFailed m \<noteq> Inl (Err TooDeep)" for m :: "(contract_error, 'x) outcome"
    by (auto simp: lift_err_def split: sum.split failure.split)
  ultimately show ?thesis
    by (auto simp: exec_registry_def and_then_Inl)
qed

section \<open>Properties\<close>

text \<open>
  C21: How messages to the hub can fail. Whatever the storage, the message and the answers of the
  outside world, the settings, the redelegations and the reward updates never panic; a slashing
  check panics by an arithmetic overflow only; withdrawals also by an amount that does not fit its
  width; stakes and unstakes also by a division by zero. No message ever indexes outside of a list
  of validators or loops for ever: every other failure is an error of the code.
\<close>

theorem hub_failures:
  assumes "decimal_ratio_law d" and "hub_execute d e info msg s = Inl (Panic p)"
  shows "case msg of
      Receive _ \<Rightarrow> p \<in> {ArithmeticOverflow, DivisionByZero, UnwrapFailed}
    | Stake \<Rightarrow> p \<in> {ArithmeticOverflow, DivisionByZero, UnwrapFailed}
    | StakeRewards \<Rightarrow> p \<in> {ArithmeticOverflow, DivisionByZero, UnwrapFailed}
    | Unstake _ \<Rightarrow> p \<in> {ArithmeticOverflow, DivisionByZero, UnwrapFailed}
    | ProcessUndelegations \<Rightarrow> p \<in> {ArithmeticOverflow, DivisionByZero, UnwrapFailed}
    | WithdrawUnstaked \<Rightarrow> p \<in> {ArithmeticOverflow, UnwrapFailed}
    | WithdrawUnstakedForBatches _ \<Rightarrow> p \<in> {ArithmeticOverflow, UnwrapFailed}
    | ProcessWithdrawRequests \<Rightarrow> p \<in> {ArithmeticOverflow, UnwrapFailed}
    | CheckSlashing \<Rightarrow> p = ArithmeticOverflow
    | _ \<Rightarrow> False"
  using hub_execute_panics [OF assms(1), of msg e info s] assms(2)
  by (auto simp: panics_in_def hub_panics_def split: hub_execute_msg.splits)

text \<open>
  C20: Transactions cannot go wrong. A transaction of any sender to any of the four contracts (the
  hub, the token and the dispatcher by \<open>exec\<close>, the registry by \<open>exec_registry\<close>), with all the
  messages it causes, either yields a new state of the system, or is refused with an error of the
  code, or aborts in checked arithmetic, a division by zero or an \<open>unwrap\<close>. It never needs more
  calls than the bound, never leaves a loop unfinished and never reads outside of a list.
\<close>

theorem transactions_cannot_go_wrong:
  assumes "message_law (dep_cw20 D)" and "\<forall>i. decimal_laws (ds i)" and "4 \<le> n"
    and "result = exec n D ds e sender target payload funds sys
      \<or> result = exec_registry n D ds e sender registry_msg sys"
  shows "case result of
      Inr sys' \<Rightarrow> True
    | Inl (Err err) \<Rightarrow> err \<noteq> TooDeep
    | Inl (Panic p) \<Rightarrow> p \<in> {ArithmeticOverflow, DivisionByZero, UnwrapFailed}"
proof -
  have "panics_in staking_panics result"
    using exec_panics exec_registry_panics assms(2,4) by blast
  moreover have "result \<noteq> Inl (Err TooDeep)"
    using exec_enough [OF assms(1), of payload n n] depth_bounds(2) [of payload]
      exec_registry_enough [OF assms(1,3)] assms(3,4) by force
  ultimately show ?thesis
    by (auto simp: panics_in_def split: sum.split failure.split)
qed

section \<open>Witnesses\<close>

lemma hub_failures_witness:
  "\<exists>p. hub_execute sample_deps (now\<lparr>block_time := 0\<rparr>) (by_user alice []) WithdrawUnstaked sample_hub
      = Inl (Panic p) \<and> p \<noteq> DivisionByZero"
proof -
  have "hub_execute sample_deps (now\<lparr>block_time := 0\<rparr>) (by_user alice []) WithdrawUnstaked sample_hub
      = Inl (Panic ArithmeticOverflow)"
    by (simp add: hub_execute_def execute_withdraw_unstaked_def execute_withdraw_unstaked_impl_def
        free_balance_and_cutoff_def storage_eval sample_defs eval_simps)
  with hub_failures [OF sample_laws(1) this] show ?thesis by auto
qed

lemma fresh_laws: "decimal_laws fresh_chain"
  by (simp add: decimal_laws_def decimal_ratio_law_def decimal_mul_law_def decimal_ceil_law_def
      fresh_chain_def sample_chain_def sample_deps_def sample_ratio_def sample_mul_def sample_ceil_def)

lemma transactions_cannot_go_wrong_witness:
  "exec 4 sample_deployment (\<lambda>_. fresh_chain) now alice sample_hub_addr (HubPayload (Unstake 500)) []
     staked_system \<noteq> Inl (Panic IndexOutOfBounds)
   \<and> exec_registry 4 sample_deployment (\<lambda>_. fresh_chain) now alice ProcessRedelegations staked_system
     \<noteq> Inl (Panic IndexOutOfBounds)"
proof -
  have laws: "\<forall>i :: nat. decimal_laws fresh_chain" by (simp add: fresh_laws)
  note safe = transactions_cannot_go_wrong [OF sample_messages(1) laws, of 4 _ now alice sample_hub_addr
      "HubPayload (Unstake 500)" "[]" staked_system ProcessRedelegations]
  show ?thesis
    using safe [of "exec 4 sample_deployment (\<lambda>_. fresh_chain) now alice sample_hub_addr
        (HubPayload (Unstake 500)) [] staked_system"]
      safe [of "exec_registry 4 sample_deployment (\<lambda>_. fresh_chain) now alice ProcessRedelegations
        staked_system"]
    by auto
qed

end
