(* ===== verification/Epoching.thy ===== *)
theory Epoching
  imports Hub_Unstake
begin

text \<open>
  The epoching simulation of \<open>packages/lst_common/src/babylon.rs\<close> and \<open>testing.rs\<close>, against which
  the contracts are run: wrapped delegations and undelegations are queued, and the end of an
  epoch hands them to the staking module in order. The staking module is a parameter.
\<close>

section \<open>The epoching module (babylon.rs)\<close>

definition EPOCH_LENGTH :: u64 where "EPOCH_LENGTH = 7200"
definition STAKING_EPOCH_START_BLOCK_HEIGHT :: u64 where "STAKING_EPOCH_START_BLOCK_HEIGHT = 0"
definition STAKING_EPOCH_LENGTH_BLOCKS :: u64 where "STAKING_EPOCH_LENGTH_BLOCKS = 360"

datatype harness_error =
    DecodeFailed string | MissingMsg | MissingAmount | InvalidNumber | TooManyEntries
  | UnknownMessageType | StakingFailed string

datatype epoching_msg = EpochDelegate string coin | EpochUndelegate string coin | NextEpoch

text \<open>The messages of the chain that matter here.\<close>

datatype staking_msg = StakingDelegate string coin | StakingUndelegate string coin

datatype epoching_cosmos_msg = Staking staking_msg | Custom epoching_msg

record epoching_item =
  item_msg :: epoching_cosmos_msg
  item_sender :: addr

text \<open>The storage of the chain: the queue of the module, and the rest. Time is in nanoseconds.\<close>

record 'k epoch_store =
  msg_queue :: "epoching_item list"
  other_modules :: 'k

record block_info =
  bi_height :: u64
  bi_time :: u64

type_synonym 'a any_result = "(harness_error, 'a) outcome"

text \<open>The router of the application, on staking messages.\<close>

type_synonym 'k staking_router =
  "block_info \<Rightarrow> addr \<Rightarrow> staking_msg \<Rightarrow> 'k epoch_store \<Rightarrow> (event list \<times> 'k epoch_store) any_result"

definition push_msg :: "epoching_item \<Rightarrow> 'k epoch_store \<Rightarrow> 'k epoch_store any_result" where
  "push_msg item s = Inr (s\<lparr>msg_queue := msg_queue s @ [item]\<rparr>)"

text \<open>\<open>CosmosMsg::change_custom\<close>: a custom message has no counterpart.\<close>

fun change_custom :: "epoching_cosmos_msg \<Rightarrow> staking_msg option" where
  "change_custom (Staking m) = Some m"
| "change_custom (Custom _) = None"

text \<open>The \<open>while let\<close> loop; the router may add to the queue, so it need not end.\<close>

partial_function (option) epoch_loop ::
    "'k staking_router \<Rightarrow> block_info \<Rightarrow> event list \<Rightarrow> 'k epoch_store
     \<Rightarrow> (event list \<times> 'k epoch_store) any_result option" where
  "epoch_loop router b evs s =
     (case msg_queue s of
        [] \<Rightarrow> Some (Inr (evs, s))
      | item # rest \<Rightarrow>
          (case change_custom (item_msg item) of
             None \<Rightarrow> Some (Inl (Panic UnwrapFailed))
           | Some m \<Rightarrow>
               (case router b (item_sender item) m (s\<lparr>msg_queue := rest\<rparr>) of
                  Inl f \<Rightarrow> Some (Inl f)
                | Inr (evs', s') \<Rightarrow> epoch_loop router b (evs @ evs') s')))"

declare epoch_loop.simps [code]

definition on_epoch_end ::
    "'k staking_router \<Rightarrow> block_info \<Rightarrow> 'k epoch_store
     \<Rightarrow> (event list \<times> 'k epoch_store) any_result" where
  "on_epoch_end router b s =
     (case epoch_loop router b [] s of None \<Rightarrow> Inl (Panic NoReturn) | Some res \<Rightarrow> res)"

definition babylon_execute ::
    "deps \<Rightarrow> 'k staking_router \<Rightarrow> block_info \<Rightarrow> addr \<Rightarrow> epoching_msg \<Rightarrow> 'k epoch_store
     \<Rightarrow> (event list \<times> 'k epoch_store) any_result" where
  "babylon_execute d router b sender msg s =
     (case msg of
        EpochDelegate validator amount \<Rightarrow>
          and_then (convert_addr_by_prefix d validator VALIDATOR_ADDR_PREFIX) (\<lambda>v.
          and_then (push_msg \<lparr>item_msg = Staking (StakingDelegate v amount), item_sender = sender\<rparr> s)
            (\<lambda>s'.
          Inr ([\<lparr>ev_type = ''delegate'', ev_attributes =
             [(''validator'', validator),
              (''amount'', to_string (coin_amount amount) @ coin_denom amount)]\<rparr>], s')))
      | EpochUndelegate validator amount \<Rightarrow>
          and_then (convert_addr_by_prefix d validator VALIDATOR_ADDR_PREFIX) (\<lambda>v.
          and_then (push_msg \<lparr>item_msg = Staking (StakingUndelegate v amount), item_sender = sender\<rparr> s)
            (\<lambda>s'.
          Inr ([\<lparr>ev_type = ''undelegate'', ev_attributes =
             [(''validator'', validator),
              (''amount'', to_string (coin_amount amount) @ coin_denom amount)]\<rparr>], s')))
      | NextEpoch \<Rightarrow> on_epoch_end router b s)"

text \<open>The module is not meant to be called as a privileged one. (Its queries have no constructor, so
  there is nothing that could be asked.)\<close>

definition babylon_sudo :: "unit \<Rightarrow> 'k epoch_store \<Rightarrow> (event list \<times> 'k epoch_store) any_result" where
  "babylon_sudo msg s = Inl (Panic NotImplemented)"

section \<open>The wrapped messages (testing.rs)\<close>

text \<open>\<open>Timestamp::plus_seconds\<close> and \<open>Uint128::from_str\<close>, which reads decimal digits after an
  optional plus sign.\<close>

definition plus_seconds :: "u64 \<Rightarrow> u64 \<Rightarrow> ('e, u64) outcome" where
  "plus_seconds t secs = and_then (umul secs 1000000000) (uadd t)"

definition is_digit :: "char \<Rightarrow> bool" where
  "is_digit c \<longleftrightarrow> 48 \<le> (of_char c :: nat) \<and> (of_char c :: nat) \<le> 57"

definition uint128_from_str :: "string \<Rightarrow> uint128 any_result" where
  "uint128_from_str cs =
     (let ds = (case cs of [] \<Rightarrow> [] | c # r \<Rightarrow> if c = CHR ''+'' then r else cs) in
      if ds \<noteq> [] \<and> list_all is_digit ds \<and> nat_of_string ds < 2 ^ 128
      then Inr (of_nat (nat_of_string ds)) else Inl (Err InvalidNumber))"

record unbond_entry =
  ub_amount :: uint128
  completion_time :: u64

record custom_stargate =
  max_unbonding_entries :: "u32 option"
  unbonding_entries :: "string \<times> string \<Rightarrow> unbond_entry list option"
  unbonding_time_secs :: "u64 option"

definition custom_stargate_new :: custom_stargate where
  "custom_stargate_new = \<lparr>max_unbonding_entries = None, unbonding_entries = (\<lambda>_. None),
     unbonding_time_secs = None\<rparr>"

definition prune_matured_unbondings :: "u64 \<Rightarrow> custom_stargate \<Rightarrow> custom_stargate" where
  "prune_matured_unbondings t cs = cs\<lparr>unbonding_entries := (\<lambda>k.
     case unbonding_entries cs k of
       None \<Rightarrow> None
     | Some v \<Rightarrow>
         let v' = filter (\<lambda>en. t < completion_time en) v in if v' = [] then None else Some v')\<rparr>"

definition entries_of :: "custom_stargate \<Rightarrow> string \<times> string \<Rightarrow> unbond_entry list" where
  "entries_of cs k = (case unbonding_entries cs k of None \<Rightarrow> [] | Some v \<Rightarrow> v)"

definition add_unbonding_pair ::
    "string \<Rightarrow> string \<Rightarrow> uint128 \<Rightarrow> u64 \<Rightarrow> u64 \<Rightarrow> custom_stargate \<Rightarrow> custom_stargate any_result" where
  "add_unbonding_pair delegator validator amount t secs cs =
     and_then (plus_seconds t secs) (\<lambda>completion.
     Inr (cs\<lparr>unbonding_entries := (unbonding_entries cs)((delegator, validator) :=
       Some (entries_of cs (delegator, validator)
         @ [\<lparr>ub_amount = amount, completion_time = completion\<rparr>]))\<rparr>))"

text \<open>Decoding the bytes of a wrapped message is the library's; the sender and the outcome of the
  rerouted message are those of \<open>router\<close>.\<close>

record proto_codec =
  decode_delegate :: "cosmos_any \<Rightarrow> string + msg_delegate option"
  decode_undelegate :: "cosmos_any \<Rightarrow> string + msg_undelegate option"

definition reroute_delegate ::
    "deps \<Rightarrow> proto_codec \<Rightarrow> cosmos_any \<Rightarrow> epoching_msg any_result" where
  "reroute_delegate d px v =
     and_then (from_err DecodeFailed (decode_delegate px v)) (\<lambda>msg.
     and_then (ok_or msg MissingMsg) (\<lambda>msg_delegate.
     and_then (ok_or (delegate_amount msg_delegate) MissingAmount) (\<lambda>amount.
     and_then (convert_addr_by_prefix d (validator_to msg_delegate) VALIDATOR_ADDR_PREFIX)
       (\<lambda>validator.
     and_then (uint128_from_str (proto_amount amount)) (\<lambda>n.
     Inr (EpochDelegate validator \<lparr>coin_denom = proto_denom amount, coin_amount = n\<rparr>))))))"

text \<open>The check against the limit and the new entry, on the pruned entries: the key of the entry,
  its amount and the time until it matures.\<close>

definition check_unbonding ::
    "deps \<Rightarrow> custom_stargate \<Rightarrow> msg_undelegate \<Rightarrow> proto_coin
     \<Rightarrow> ((string \<times> string) \<times> uint128 \<times> u64) any_result" where
  "check_unbonding d cs msg_undelegate amount =
     and_then (convert_addr_by_prefix d (undelegator_address msg_undelegate) VALIDATOR_ADDR_PREFIX)
       (\<lambda>delegator.
     and_then (convert_addr_by_prefix d (validator_from msg_undelegate) VALIDATOR_ADDR_PREFIX)
       (\<lambda>validator.
     let entries = entries_of cs (delegator, validator) in
     and_then (expect (max_unbonding_entries cs)) (\<lambda>limit.
     if unat limit \<le> length entries then Inl (Err TooManyEntries) else
     and_then (uint128_from_str (proto_amount amount)) (\<lambda>n.
     and_then (expect (unbonding_time_secs cs)) (\<lambda>secs.
     Inr ((delegator, validator), n, secs))))))"

definition unwrap_undelegate ::
    "proto_codec \<Rightarrow> cosmos_any \<Rightarrow> (msg_undelegate \<times> proto_coin) any_result" where
  "unwrap_undelegate px v =
     and_then (from_err DecodeFailed (decode_undelegate px v)) (\<lambda>msg.
     and_then (ok_or msg MissingMsg) (\<lambda>msg_undelegate.
     and_then (ok_or (undelegate_amount msg_undelegate) MissingAmount) (\<lambda>amount.
     Inr (msg_undelegate, amount))))"

text \<open>
  The entries live behind a \<open>RefCell\<close>, outside the storage of the chain, so they are returned
  whether the message succeeds or fails.
\<close>

definition execute_any ::
    "deps \<Rightarrow> proto_codec
     \<Rightarrow> (block_info \<Rightarrow> addr \<Rightarrow> epoching_msg \<Rightarrow> 'k epoch_store
          \<Rightarrow> (event list \<times> 'k epoch_store) any_result)
     \<Rightarrow> block_info \<Rightarrow> addr \<Rightarrow> string \<Rightarrow> cosmos_any \<Rightarrow> 'k epoch_store \<Rightarrow> custom_stargate
     \<Rightarrow> (event list \<times> 'k epoch_store) any_result \<times> custom_stargate" where
  "execute_any d px router b sender url v s cs =
     (if url = ''/babylon.epoching.v1.MsgWrappedDelegate'' then
        (and_then (reroute_delegate d px v) (\<lambda>custom_msg. router b sender custom_msg s), cs)
      else if url = ''/babylon.epoching.v1.MsgWrappedUndelegate'' then
        (case unwrap_undelegate px v of
           Inl f \<Rightarrow> (Inl f, cs)
         | Inr (msg_undelegate, amount) \<Rightarrow>
             let cs1 = prune_matured_unbondings (bi_time b) cs in
             (case and_then (check_unbonding d cs1 msg_undelegate amount) (\<lambda>(key, n, secs).
                    add_unbonding_pair (fst key) (snd key) n (bi_time b) secs cs1) of
                Inl f \<Rightarrow> (Inl f, cs1)
              | Inr cs2 \<Rightarrow>
                  (and_then (convert_addr_by_prefix d (validator_from msg_undelegate)
                       VALIDATOR_ADDR_PREFIX) (\<lambda>validator.
                   and_then (uint128_from_str (proto_amount amount)) (\<lambda>n.
                   router b sender
                     (EpochUndelegate validator \<lparr>coin_denom = proto_denom amount, coin_amount = n\<rparr>) s)),
                   cs2)))
      else (Inl (Err UnknownMessageType), cs))"

section \<open>The application (testing.rs)\<close>

record 'k babylon_app =
  app_block :: block_info
  app_store :: "'k epoch_store"

definition babylon_app_new :: "(unit \<Rightarrow> 'k) \<Rightarrow> u64 \<Rightarrow> 'k babylon_app" where
  "babylon_app_new init_fn t =
     \<lparr>app_block = \<lparr>bi_height = STAKING_EPOCH_START_BLOCK_HEIGHT, bi_time = t\<rparr>,
      app_store = \<lparr>msg_queue = [], other_modules = init_fn ()\<rparr>\<rparr>"

definition next_block :: "block_info \<Rightarrow> ('e, block_info) outcome" where
  "next_block b =
     (let passed_blocks = (if STAKING_EPOCH_START_BLOCK_HEIGHT \<le> bi_height b
        then bi_height b - STAKING_EPOCH_START_BLOCK_HEIGHT else 0) in
      and_then (udiv passed_blocks STAKING_EPOCH_LENGTH_BLOCKS) (\<lambda>current_epoch.
      and_then (uadd current_epoch 1) (\<lambda>next_epoch.
      and_then (umul next_epoch STAKING_EPOCH_LENGTH_BLOCKS) (\<lambda>blocks.
      and_then (uadd STAKING_EPOCH_START_BLOCK_HEIGHT blocks) (\<lambda>height.
      and_then (plus_seconds (bi_time b) EPOCH_LENGTH) (\<lambda>t.
      Inr \<lparr>bi_height = height, bi_time = t\<rparr>))))))"

text \<open>The execution of the application is a transaction: an error leaves the storage as it was.
  The answer is returned next to the application.\<close>

definition next_epoch ::
    "deps \<Rightarrow> 'k staking_router \<Rightarrow> addr \<Rightarrow> 'k babylon_app
     \<Rightarrow> ((harness_error + event list) \<times> 'k babylon_app) any_result" where
  "next_epoch d router sender app =
     and_then (case babylon_execute d router (app_block app) sender NextEpoch (app_store app) of
         Inl (Panic p) \<Rightarrow> Inl (Panic p)
       | Inl (Err er) \<Rightarrow> Inr (Inl er, app_store app)
       | Inr (evs, s) \<Rightarrow> Inr (Inr evs, s)) (\<lambda>(res, s).
     and_then (next_block (app_block app)) (\<lambda>b.
     Inr (res, app\<lparr>app_block := b, app_store := s\<rparr>)))"

fun next_many_epochs ::
    "deps \<Rightarrow> 'k staking_router \<Rightarrow> addr \<Rightarrow> nat \<Rightarrow> 'k babylon_app
     \<Rightarrow> ((harness_error + event list) list \<times> 'k babylon_app) any_result" where
  "next_many_epochs d router sender 0 app = Inr ([], app)"
| "next_many_epochs d router sender (Suc n) app =
     and_then (next_epoch d router sender app) (\<lambda>(res, app').
     and_then (next_many_epochs d router sender n app') (\<lambda>(ress, app'').
     Inr (res # ress, app'')))"

section \<open>The end of an epoch\<close>

text \<open>
  The staking module keeps its data in a namespace of its own: it works on the rest of the
  storage and leaves the queue alone. Then the loop ends, and runs the queue from front to back.
\<close>

definition keeper_local :: "'k staking_router \<Rightarrow>
    (block_info \<Rightarrow> addr \<Rightarrow> staking_msg \<Rightarrow> 'k \<Rightarrow> (event list \<times> 'k) any_result) \<Rightarrow> bool" where
  "keeper_local router keeper \<longleftrightarrow> (\<forall>b a m s. router b a m s =
     and_then (keeper b a m (other_modules s)) (\<lambda>(evs, k). Inr (evs, s\<lparr>other_modules := k\<rparr>)))"

definition run_item ::
    "(block_info \<Rightarrow> addr \<Rightarrow> staking_msg \<Rightarrow> 'k \<Rightarrow> (event list \<times> 'k) any_result)
     \<Rightarrow> block_info \<Rightarrow> epoching_item \<Rightarrow> event list \<times> 'k \<Rightarrow> (event list \<times> 'k) any_result" where
  "run_item keeper b item p =
     (case change_custom (item_msg item) of
        None \<Rightarrow> Inl (Panic UnwrapFailed)
      | Some m \<Rightarrow> and_then (keeper b (item_sender item) m (snd p)) (\<lambda>(evs, k).
          Inr (fst p @ evs, k)))"

lemma epoch_loop_runs:
  assumes "keeper_local router keeper"
  shows "epoch_loop router b evs s = Some (
    and_then (for_each (run_item keeper b) (msg_queue s) (evs, other_modules s)) (\<lambda>(evs', k).
    Inr (evs', \<lparr>msg_queue = [], other_modules = k\<rparr>)))"
proof (induction "msg_queue s" arbitrary: s evs)
  case Nil
  then show ?case by (subst epoch_loop.simps) (simp add: Nil [symmetric])
next
  case (Cons item rest)
  show ?case
  proof (cases "change_custom (item_msg item)")
    case None
    then show ?thesis
      by (subst epoch_loop.simps) (simp add: Cons.hyps(2) [symmetric] run_item_def)
  next
    case (Some m)
    show ?thesis
    proof (cases "keeper b (item_sender item) m (other_modules s)")
      case (Inl f)
      with Some assms show ?thesis
        by (subst epoch_loop.simps)
          (simp add: Cons.hyps(2) [symmetric] run_item_def keeper_local_def)
    next
      case (Inr p)
      obtain evs' k where p: "p = (evs', k)" by (cases p)
      have upd: "s\<lparr>msg_queue := rest, other_modules := k\<rparr> = \<lparr>msg_queue = rest, other_modules = k\<rparr>"
        by (cases s) simp
      have "epoch_loop router b evs s
          = epoch_loop router b (evs @ evs') \<lparr>msg_queue = rest, other_modules = k\<rparr>"
        using Some Inr assms
        by (subst epoch_loop.simps) (simp add: p upd Cons.hyps(2) [symmetric] keeper_local_def)
      also have "\<dots> = Some (and_then
          (for_each (run_item keeper b) rest (evs @ evs', k)) (\<lambda>(evs', k).
          Inr (evs', \<lparr>msg_queue = [], other_modules = k\<rparr>)))"
        using Cons.hyps(1) [of "\<lparr>msg_queue = rest, other_modules = k\<rparr>"] by simp
      finally show ?thesis
        using Some Inr by (simp add: p Cons.hyps(2) [symmetric] run_item_def)
    qed
  qed
qed

lemma next_epoch_message_runs:
  "keeper_local router keeper \<Longrightarrow> babylon_execute d router b sender NextEpoch s =
    and_then (for_each (run_item keeper b) (msg_queue s) ([], other_modules s)) (\<lambda>(evs, k).
    Inr (evs, \<lparr>msg_queue = [], other_modules = k\<rparr>))"
  by (simp add: babylon_execute_def on_epoch_end_def epoch_loop_runs)

text \<open>The next block is the first of the next epoch.\<close>

lemma next_block_first:
  assumes "next_block b = Inr b'"
  shows "unat (bi_height b') = (unat (bi_height b) div 360 + 1) * 360"
  using assms
  by (auto simp: next_block_def STAKING_EPOCH_START_BLOCK_HEIGHT_def STAKING_EPOCH_LENGTH_BLOCKS_def
      outcome_simps Let_def checked split: if_splits)

section \<open>Amounts survive the wrapping\<close>

lemma nat_to_string_digits: "nat_to_string n \<noteq> [] \<and> list_all is_digit (nat_to_string n)"
proof (induction n rule: nat_to_string.induct)
  case (1 n)
  have "is_digit (char_of (48 + m))" if "m < 10" for m :: nat
    unfolding is_digit_def using that by (simp only: digit_roundtrip) simp
  with 1 show ?case by (subst (1 2) nat_to_string.simps) simp
qed

lemma uint128_from_str_to_string [simp]: "uint128_from_str (to_string w) = Inr w"
proof -
  obtain c r where cs: "to_string w = c # r" "is_digit c" "list_all is_digit r"
    using nat_to_string_digits [of "unat w"] by (cases "to_string w") (auto simp: to_string_def)
  moreover have "c \<noteq> CHR ''+''" using cs(2) by (auto simp: is_digit_def)
  moreover have "nat_of_string (c # r) = unat w"
    using nat_of_string_word [of w] by (simp only: cs(1))
  ultimately show ?thesis
    using unat_less [of w] by (simp add: uint128_from_str_def)
qed

text \<open>The library decodes what it encoded.\<close>

definition codec_law :: "proto_codec \<Rightarrow> bool" where
  "codec_law px \<longleftrightarrow>
     (\<forall>m. decode_delegate px (MsgWrappedDelegate m) = Inr m)
   \<and> (\<forall>m. decode_undelegate px (MsgWrappedUndelegate m) = Inr m)"

section \<open>The limit of unbonding entries\<close>

definition matured_removed :: "u64 \<Rightarrow> custom_stargate \<Rightarrow> string \<times> string \<Rightarrow> unbond_entry list" where
  "matured_removed t cs k = filter (\<lambda>en. t < completion_time en) (entries_of cs k)"

lemma entries_of_prune [simp]:
  "entries_of (prune_matured_unbondings t cs) k = matured_removed t cs k"
  by (auto simp: entries_of_def prune_matured_unbondings_def matured_removed_def Let_def
      split: option.splits)

lemma prune_fields [simp]:
  "max_unbonding_entries (prune_matured_unbondings t cs) = max_unbonding_entries cs"
  "unbonding_time_secs (prune_matured_unbondings t cs) = unbonding_time_secs cs"
  by (simp_all add: prune_matured_unbondings_def)

definition within_limit :: "custom_stargate \<Rightarrow> bool" where
  "within_limit cs \<longleftrightarrow>
     (\<forall>k. entries_of cs k \<noteq> [] \<longrightarrow>
        (\<exists>n. max_unbonding_entries cs = Some n \<and> length (entries_of cs k) \<le> unat n))"

lemma within_limit_prune:
  assumes "within_limit cs"
  shows "within_limit (prune_matured_unbondings t cs)"
  unfolding within_limit_def
proof (intro allI impI)
  fix k assume "entries_of (prune_matured_unbondings t cs) k \<noteq> []"
  then have "entries_of cs k \<noteq> []" by (auto simp: matured_removed_def)
  with assms obtain n where "max_unbonding_entries cs = Some n" "length (entries_of cs k) \<le> unat n"
    unfolding within_limit_def by blast
  then show "\<exists>n. max_unbonding_entries (prune_matured_unbondings t cs) = Some n
      \<and> length (entries_of (prune_matured_unbondings t cs) k) \<le> unat n"
    by (auto simp: matured_removed_def intro: order_trans [OF length_filter_le])
qed

lemma entries_of_update [simp]:
  "entries_of (cs\<lparr>unbonding_entries := (unbonding_entries cs)(k := Some v)\<rparr>)
    = (entries_of cs)(k := v)"
  by (rule ext) (simp add: entries_of_def)

lemma added_entry:
  assumes "and_then (check_unbonding d cs m amount) (\<lambda>(key, n, secs).
    add_unbonding_pair (fst key) (snd key) n t secs cs) = Inr cs'"
  obtains key en limit where "max_unbonding_entries cs' = Some limit"
    and "length (entries_of cs key) < unat limit"
    and "entries_of cs' = (entries_of cs)(key := entries_of cs key @ [en])"
  using assms
  by (auto simp: check_unbonding_def add_unbonding_pair_def outcome_simps Let_def not_le
      split: if_splits)

text \<open>The simulation as a transition system: a message that fails leaves the storage as it was, but
  not the entries.\<close>

inductive app_initial :: "'k epoch_store \<times> custom_stargate \<Rightarrow> bool" where
  "app_initial (s, custom_stargate_new\<lparr>max_unbonding_entries := n, unbonding_time_secs := t\<rparr>)"

inductive app_step :: "'k epoch_store \<times> custom_stargate \<Rightarrow> 'k epoch_store \<times> custom_stargate \<Rightarrow> bool" where
  app_message: "execute_any d px router b sender url v s cs = (res, cs') \<Longrightarrow>
    app_step (s, cs) (case res of Inl _ \<Rightarrow> s | Inr (_, s') \<Rightarrow> s', cs')"
| app_epoch: "next_epoch d router sender \<lparr>app_block = b, app_store = s\<rparr> = Inr (res, app) \<Longrightarrow>
    app_step (s, cs) (app_store app, cs)"

inductive_cases app_initialE: "app_initial x"
inductive_cases app_stepE: "app_step x y"

lemma execute_any_entries:
  assumes "execute_any d px router b sender url v s cs = (res, cs')"
  obtains "cs' = cs"
  | "cs' = prune_matured_unbondings (bi_time b) cs"
  | m amount where "and_then (check_unbonding d (prune_matured_unbondings (bi_time b) cs) m amount)
      (\<lambda>(key, n, secs). add_unbonding_pair (fst key) (snd key) n (bi_time b) secs
        (prune_matured_unbondings (bi_time b) cs)) = Inr cs'"
  using assms by (auto simp: execute_any_def Let_def split: if_splits sum.splits)

lemma execute_any_within_limit:
  assumes "execute_any d px router b sender url v s cs = (res, cs')" and ok: "within_limit cs"
  shows "within_limit cs'"
  using assms(1)
proof (cases rule: execute_any_entries)
  case (3 m amount)
  let ?pruned = "prune_matured_unbondings (bi_time b) cs"
  from 3 obtain key en limit where "max_unbonding_entries cs' = Some limit"
    and "length (entries_of ?pruned key) < unat limit"
    and "entries_of cs' = (entries_of ?pruned)(key := entries_of ?pruned key @ [en])"
    by (rule added_entry)
  moreover have "max_unbonding_entries cs' = max_unbonding_entries ?pruned"
    using 3 by (auto simp: check_unbonding_def add_unbonding_pair_def outcome_simps Let_def)
  ultimately show ?thesis
    using within_limit_prune [OF ok, of "bi_time b"] unfolding within_limit_def by auto
qed (use ok within_limit_prune in auto)

interpretation app: invariant_of app_initial app_step "\<lambda>(s, cs). within_limit cs"
proof
  show "case x of (s, cs) \<Rightarrow> within_limit cs" if "app_initial x" for x :: "'a epoch_store \<times> custom_stargate"
    using that by (auto elim!: app_initialE
        simp: within_limit_def entries_of_def custom_stargate_new_def)
  show "case y of (s, cs) \<Rightarrow> within_limit cs"
    if "case x of (s, cs) \<Rightarrow> within_limit cs" and "app_step x y"
    for x y :: "'a epoch_store \<times> custom_stargate"
    using that by (auto elim!: app_stepE intro: execute_any_within_limit)
qed

section \<open>From the hub to the validators\<close>

text \<open>The wrapped messages of a response, executed in order on behalf of the contract.\<close>

fun deliver ::
    "deps \<Rightarrow> proto_codec \<Rightarrow> 'k staking_router \<Rightarrow> block_info \<Rightarrow> addr \<Rightarrow> cosmos_msg list
     \<Rightarrow> 'k epoch_store \<Rightarrow> custom_stargate \<Rightarrow> 'k epoch_store any_result \<times> custom_stargate" where
  "deliver d px router b sender [] s cs = (Inr s, cs)"
| "deliver d px router b sender (AnyMsg url v # msgs) s cs =
     (case execute_any d px (babylon_execute d router) b sender url v s cs of
        (Inl f, cs') \<Rightarrow> (Inl f, cs')
      | (Inr (_, s'), cs') \<Rightarrow> deliver d px router b sender msgs s' cs')"
| "deliver d px router b sender (_ # msgs) s cs = deliver d px router b sender msgs s cs"

definition delegation_item :: "addr \<Rightarrow> string \<Rightarrow> string \<times> uint128 \<Rightarrow> epoching_item" where
  "delegation_item sender denom share =
     \<lparr>item_msg = Staking (StakingDelegate (fst share)
        \<lparr>coin_denom = denom, coin_amount = snd share\<rparr>), item_sender = sender\<rparr>"

text \<open>A validator's own address is left as it is by the conversion.\<close>

definition is_operator :: "deps \<Rightarrow> string \<Rightarrow> bool" where
  "is_operator d v \<longleftrightarrow>
     (convert_addr_by_prefix d v VALIDATOR_ADDR_PREFIX :: string any_result) = Inr v"

lemma execute_any_delegate:
  assumes "codec_law px" and "is_operator d v"
  shows "execute_any d px (babylon_execute d router) b sender
      ''/babylon.epoching.v1.MsgWrappedDelegate''
      (MsgWrappedDelegate (Some (MsgDelegate x v (Some (ProtoCoin denom (to_string (a :: uint128))))))) s cs
    = (Inr ([\<lparr>ev_type = ''delegate'', ev_attributes =
         [(''validator'', v), (''amount'', to_string a @ denom)]\<rparr>],
       s\<lparr>msg_queue := msg_queue s @ [delegation_item sender denom (v, a)]\<rparr>), cs)"
  using assms by (simp add: execute_any_def reroute_delegate_def codec_law_def is_operator_def
      babylon_execute_def push_msg_def from_err_def delegation_item_def)

lemma deliver_delegations:
  assumes "codec_law px" and "\<forall>(v, a) \<in> set shares. is_operator d v"
  shows "deliver d px router b sender
      (map (\<lambda>(v, a). prepare_wrapped_delegate_msg denom (to_string (a :: uint128)) x v) shares @ msgs) s cs
    = deliver d px router b sender msgs
        (s\<lparr>msg_queue := msg_queue s @ map (delegation_item sender denom) shares\<rparr>) cs"
  using assms(2)
  by (induction shares arbitrary: s)
    (auto simp: prepare_wrapped_delegate_msg_def to_any_def execute_any_delegate [OF assms(1)])

text \<open>What the staking module is asked to do for the shares of a stake.\<close>

definition delegate_share ::
    "(block_info \<Rightarrow> addr \<Rightarrow> staking_msg \<Rightarrow> 'k \<Rightarrow> (event list \<times> 'k) any_result)
     \<Rightarrow> block_info \<Rightarrow> addr \<Rightarrow> string \<Rightarrow> string \<times> uint128 \<Rightarrow> event list \<times> 'k \<Rightarrow> (event list \<times> 'k) any_result" where
  "delegate_share keeper b sender denom share p =
     and_then (keeper b sender (StakingDelegate (fst share)
       \<lparr>coin_denom = denom, coin_amount = snd share\<rparr>) (snd p)) (\<lambda>(evs, k). Inr (fst p @ evs, k))"

lemma run_delegation_item:
  "run_item keeper b (delegation_item sender denom share) = delegate_share keeper b sender denom share"
  by (rule ext) (simp add: run_item_def delegation_item_def delegate_share_def)

lemma for_each_map: "for_each body (map h as) s = for_each (\<lambda>a. body (h a)) as s"
  by (induction as arbitrary: s) (simp_all add: and_then_def split: sum.split)

lemma stake_shares:
  assumes "execute_stake d e info kind s = Inr (r, s')"
  obtains config registry vs payment rest and shares :: "(string \<times> uint128) list" where
    "s_config s = Some config" "validators_registry_contract config = Some registry"
    "query_validators_delegation d registry = Inr vs"
    "info_funds info = [payment]"
    "total_of (map snd shares) = unat (coin_amount payment)"
    "\<forall>(v, a) \<in> set shares. a \<noteq> 0 \<and> v \<in> vr_address ` set vs"
    "messages r = map (\<lambda>(v, a). prepare_wrapped_delegate_msg (coin_denom payment) (to_string a)
      (contract_address e) v) shares @ rest"
    "\<And>m. m \<in> set rest \<Longrightarrow> \<exists>t p. m = WasmExecute t p []"
  using assms unfolding execute_stake_def
proof (elim outcome_elims, goal_cases)
  case (1 params config st0 dispatcher batch payment _ evs _ st s1 issued minted supp total st'
      s2 _ evs' s3 registry vs ds msgs)
  note run = 1(2-)
  from run(24) obtain shares where shares: "nonzero_shares vs ds = Inr shares"
    and msgs: "msgs = map (\<lambda>(v, a). prepare_wrapped_delegate_msg (coin_denom payment) (to_string a)
      (contract_address e) v) shares"
    by (auto simp: delegate_messages_def outcome_simps)
  show ?case
  proof (rule 1(1) [of config registry vs payment shares "drop (length msgs) (messages r)"])
    show "info_funds info = [payment]"
      using find_single [OF _ run(7)] run(8) by (auto simp: ok_or_Inr)
    show "messages r = map (\<lambda>(v, a). prepare_wrapped_delegate_msg (coin_denom payment) (to_string a)
        (contract_address e) v) shares @ drop (length msgs) (messages r)"
      using run(25) by (cases kind) (auto simp: outcome_simps msgs)
    show "\<exists>t p. m = WasmExecute t p []" if "m \<in> set (drop (length msgs) (messages r))" for m
      using that run(25) by (cases kind) (auto simp: outcome_simps)
  qed (use run delegations.shares_totalD [OF run(23) shares]
      in \<open>auto simp: load_items_Inr outcome_simps\<close>)
qed

lemma deliver_rest:
  "(\<And>m. m \<in> set msgs \<Longrightarrow> \<exists>t p. m = WasmExecute t p []) \<Longrightarrow>
   deliver d px router b sender msgs s cs = (Inr s, cs)"
  by (induction msgs) fastforce+

section \<open>Properties\<close>

text \<open>
  C29: A stake sends the chain one wrapped delegation per validator share, in the name of the hub
  and in the payment's denomination, and besides these only calls of contracts. Executed by the
  simulation, the delegations are queued and nothing else happens; the end of the epoch then hands
  exactly these shares to the staking module, in the order of the messages and for the hub, and
  empties the queue. The shares go to registered validators, are positive, and add up to the
  payment.
\<close>

theorem stake_reaches_validators:
  assumes stake: "execute_stake d e info kind s = Inr (r, s')"
    and "codec_law px" and "keeper_local router keeper"
    and operators: "\<forall>registry vs. query_validators_delegation d registry = Inr vs \<longrightarrow>
      (\<forall>v \<in> set vs. is_operator d (vr_address v))"
  shows "\<exists>payment shares rest registry vs st'.
      info_funds info = [payment] \<and> query_validators_delegation d registry = Inr vs
    \<and> messages r = map (\<lambda>(v, a). AnyMsg ''/babylon.epoching.v1.MsgWrappedDelegate''
        (MsgWrappedDelegate (Some (MsgDelegate (contract_address e) v
          (Some (ProtoCoin (coin_denom payment) (to_string a))))))) shares @ rest
    \<and> (\<forall>m \<in> set rest. \<exists>contract payload. m = WasmExecute contract payload [])
    \<and> (\<forall>(v, a) \<in> set shares. a \<noteq> 0 \<and> v \<in> vr_address ` set vs)
    \<and> total_of (map snd shares) = unat (coin_amount payment)
    \<and> deliver d px router b (contract_address e) (messages r) \<lparr>msg_queue = [], other_modules = k\<rparr> cs
        = (Inr st', cs)
    \<and> babylon_execute d router b' anyone NextEpoch st'
        = and_then (for_each (delegate_share keeper b' (contract_address e) (coin_denom payment))
            shares ([], k)) (\<lambda>(evs, k'). Inr (evs, \<lparr>msg_queue = [], other_modules = k'\<rparr>))"
  using stake
proof (rule stake_shares)
  fix config registry vs payment rest and shares :: "(string \<times> uint128) list"
  assume vs: "query_validators_delegation d registry = Inr vs"
    and pay: "info_funds info = [payment]" "total_of (map snd shares) = unat (coin_amount payment)"
    and shares: "\<forall>(v, a) \<in> set shares. a \<noteq> 0 \<and> v \<in> vr_address ` set vs"
    and r: "messages r = map (\<lambda>(v, a). prepare_wrapped_delegate_msg (coin_denom payment)
      (to_string a) (contract_address e) v) shares @ rest"
    and rest: "\<And>m. m \<in> set rest \<Longrightarrow> \<exists>t p. m = WasmExecute t p []"
  let ?queued = "\<lparr>msg_queue = map (delegation_item (contract_address e) (coin_denom payment)) shares,
    other_modules = k\<rparr>"
  have "\<forall>(v, a) \<in> set shares. is_operator d v"
    using shares operators vs by fastforce
  then have "deliver d px router b (contract_address e) (messages r)
      \<lparr>msg_queue = [], other_modules = k\<rparr> cs = (Inr ?queued, cs)"
    by (simp add: r deliver_delegations [OF assms(2)] deliver_rest [OF rest])
  moreover have "babylon_execute d router b' anyone NextEpoch ?queued
      = and_then (for_each (delegate_share keeper b' (contract_address e) (coin_denom payment))
          shares ([], k)) (\<lambda>(evs, k'). Inr (evs, \<lparr>msg_queue = [], other_modules = k'\<rparr>))"
    by (simp add: next_epoch_message_runs [OF assms(3)] for_each_map run_delegation_item)
  moreover have "messages r = map (\<lambda>(v, a). AnyMsg ''/babylon.epoching.v1.MsgWrappedDelegate''
      (MsgWrappedDelegate (Some (MsgDelegate (contract_address e) v
        (Some (ProtoCoin (coin_denom payment) (to_string a))))))) shares @ rest"
    by (simp add: r prepare_wrapped_delegate_msg_def to_any_def)
  ultimately show ?thesis using pay shares vs rest by blast
qed

text \<open>
  The simulated limit on unbonding entries is kept in every reachable state, and an
  undelegation is refused exactly when that many entries of its delegator and validator have not
  matured; otherwise its entry is added and the undelegation queued.
\<close>

theorem unbonding_limit_kept:
  assumes reach: "reachable app_initial app_step (s, cs)"
    and limit: "max_unbonding_entries cs = Some n" and secs: "unbonding_time_secs cs = Some secs"
    and msg: "unwrap_undelegate px v = Inr (m, amount)"
    and amt: "uint128_from_str (proto_amount amount) = Inr a"
    and conv: "convert_addr_by_prefix d (undelegator_address m) VALIDATOR_ADDR_PREFIX
        = (Inr del :: string any_result)"
      "convert_addr_by_prefix d (validator_from m) VALIDATOR_ADDR_PREFIX
        = (Inr val :: string any_result)"
    and time: "plus_seconds (bi_time b) secs = (Inr t :: u64 any_result)"
    and run: "execute_any d px router b sender ''/babylon.epoching.v1.MsgWrappedUndelegate'' v s cs
      = (res, cs')"
  shows "(\<forall>k. length (entries_of cs k) \<le> unat n \<and> length (entries_of cs' k) \<le> unat n)
    \<and> (if unat n \<le> length (matured_removed (bi_time b) cs (del, val))
       then res = Inl (Err TooManyEntries) \<and> entries_of cs' = matured_removed (bi_time b) cs
       else res = router b sender
              (EpochUndelegate val \<lparr>coin_denom = proto_denom amount, coin_amount = a\<rparr>) s
          \<and> entries_of cs' = (matured_removed (bi_time b) cs)((del, val) :=
              matured_removed (bi_time b) cs (del, val)
                @ [\<lparr>ub_amount = a, completion_time = t\<rparr>]))"
proof -
  have within: "within_limit cs" using app.inv_reachable [OF reach] by simp
  have pruned: "entries_of (prune_matured_unbondings (bi_time b) cs) = matured_removed (bi_time b) cs"
    by (rule ext) simp
  have run': "if unat n \<le> length (matured_removed (bi_time b) cs (del, val))
       then res = Inl (Err TooManyEntries) \<and> cs' = prune_matured_unbondings (bi_time b) cs
       else res = router b sender
              (EpochUndelegate val \<lparr>coin_denom = proto_denom amount, coin_amount = a\<rparr>) s
          \<and> Inr cs' = (add_unbonding_pair del val a (bi_time b) secs
              (prune_matured_unbondings (bi_time b) cs) :: custom_stargate any_result)"
    using run limit secs msg amt conv time
    by (auto simp: execute_any_def check_unbonding_def Let_def expect_def add_unbonding_pair_def
        split: if_splits)
  then have "max_unbonding_entries cs' = Some n"
    using limit time by (auto simp: add_unbonding_pair_def split: if_splits)
  with within execute_any_within_limit [OF run within] limit
  have "\<forall>k. length (entries_of cs k) \<le> unat n \<and> length (entries_of cs' k) \<le> unat n"
    unfolding within_limit_def by (metis le0 list.size(3) option.inject)
  with run' time show ?thesis
    by (auto simp: add_unbonding_pair_def pruned split: if_splits)
qed

section \<open>Witnesses\<close>

text \<open>Addresses that are already operator addresses, the identity as codec, and a staking module
  that writes down what it is asked to do.\<close>

definition sample_operators :: deps where
  "sample_operators = sample_deps\<lparr>bech32_decode := \<lambda>a. Some (VALIDATOR_ADDR_PREFIX, a),
     bech32_encode := \<lambda>_ a. Some a\<rparr>"

definition sample_codec :: proto_codec where
  "sample_codec = \<lparr>
     decode_delegate = (\<lambda>v. case v of MsgWrappedDelegate m \<Rightarrow> Inr m | _ \<Rightarrow> Inl ''decode''),
     decode_undelegate = (\<lambda>v. case v of MsgWrappedUndelegate m \<Rightarrow> Inr m | _ \<Rightarrow> Inl ''decode'')\<rparr>"

definition sample_keeper ::
    "block_info \<Rightarrow> addr \<Rightarrow> staking_msg \<Rightarrow> (addr \<times> staking_msg) list
     \<Rightarrow> (event list \<times> (addr \<times> staking_msg) list) any_result" where
  "sample_keeper b a m log = Inr ([], log @ [(a, m)])"

definition sample_router :: "(addr \<times> staking_msg) list staking_router" where
  "sample_router b a m s = Inr ([], s\<lparr>other_modules := other_modules s @ [(a, m)]\<rparr>)"

definition sample_app_block :: block_info where
  "sample_app_block = \<lparr>bi_height = 100, bi_time = 1000\<rparr>"

lemma sample_simulation [simp]:
  "keeper_local sample_router sample_keeper" "codec_law sample_codec"
  "is_operator sample_operators v"
  by (simp_all add: keeper_local_def sample_router_def sample_keeper_def codec_law_def
      sample_codec_def is_operator_def convert_addr_by_prefix_def sample_operators_def
      sample_deps_def expect_def)

lemma sample_keeper_log:
  "for_each (delegate_share sample_keeper b a denom) shares (evs, log) = Inr (evs, log @
     map (\<lambda>(v, n). (a, StakingDelegate v \<lparr>coin_denom = denom, coin_amount = n\<rparr>)) shares)"
  by (induction shares arbitrary: log) (auto simp: delegate_share_def sample_keeper_def)

lemma sample_operators_stake:
  "\<exists>r s'. execute_stake sample_operators now (by_user alice [bbn 90]) LSTMint sample_hub = Inr (r, s')"
  by (simp add: sample_operators_def stake_eval slashing_eval storage_eval sample_defs split_eval
      cong: eval_cong)

lemma stake_reaches_validators_witness:
  "\<exists>r s' st' shares rest. execute_stake sample_operators now (by_user alice [bbn 90]) LSTMint sample_hub
      = Inr (r, s')
    \<and> messages r = map (\<lambda>(v, n). AnyMsg ''/babylon.epoching.v1.MsgWrappedDelegate''
        (MsgWrappedDelegate (Some (MsgDelegate sample_hub_addr v
          (Some (ProtoCoin ''ubbn'' (to_string n))))))) shares @ rest
    \<and> deliver sample_operators sample_codec sample_router sample_app_block sample_hub_addr (messages r)
        \<lparr>msg_queue = [], other_modules = []\<rparr> custom_stargate_new = (Inr st', custom_stargate_new)
    \<and> babylon_execute sample_operators sample_router sample_app_block alice NextEpoch st' = Inr ([],
        \<lparr>msg_queue = [], other_modules =
           map (\<lambda>(v, n). (sample_hub_addr, StakingDelegate v (bbn n))) shares\<rparr>)
    \<and> total_of (map snd shares) = 90"
proof -
  from sample_operators_stake obtain r s' where
    run: "execute_stake sample_operators now (by_user alice [bbn 90]) LSTMint sample_hub = Inr (r, s')"
    by blast
  have "contract_address now = sample_hub_addr" by (simp add: now_def)
  with run stake_reaches_validators [OF run sample_simulation(2,1), of sample_app_block
      "[]" custom_stargate_new sample_app_block alice]
  show ?thesis
    by (auto simp: by_user_def sample_keeper_log bbn_def)
qed

definition sample_undelegate :: cosmos_any where
  "sample_undelegate = MsgWrappedUndelegate (Some
     (MsgUndelegate sample_hub_addr ''val1'' (Some (ProtoCoin ''ubbn'' ''40''))))"

definition sample_stargate :: custom_stargate where
  "sample_stargate = custom_stargate_new\<lparr>max_unbonding_entries := Some 1,
     unbonding_time_secs := Some 100\<rparr>"

lemma sample_stargate_simps [simp]:
  "max_unbonding_entries sample_stargate = Some 1" "unbonding_time_secs sample_stargate = Some 100"
  "matured_removed t sample_stargate k = []"
  by (simp_all add: sample_stargate_def custom_stargate_new_def matured_removed_def entries_of_def)

definition queued_undelegation :: "(addr \<times> staking_msg) list epoch_store" where
  "queued_undelegation = \<lparr>msg_queue = [\<lparr>item_msg = Staking (StakingUndelegate ''val1'' (bbn 40)),
     item_sender = sample_hub_addr\<rparr>], other_modules = []\<rparr>"

lemma unbonding_limit_kept_witness:
  "\<exists>evs cs'. execute_any sample_operators sample_codec
      (babylon_execute sample_operators sample_router) sample_app_block sample_hub_addr
      ''/babylon.epoching.v1.MsgWrappedUndelegate'' sample_undelegate
      \<lparr>msg_queue = [], other_modules = []\<rparr> sample_stargate = (Inr (evs, queued_undelegation), cs')
    \<and> entries_of cs' (sample_hub_addr, ''val1'')
        = [\<lparr>ub_amount = 40, completion_time = 100000001000\<rparr>]"
proof -
  let ?run = "execute_any sample_operators sample_codec
      (babylon_execute sample_operators sample_router) sample_app_block sample_hub_addr
      ''/babylon.epoching.v1.MsgWrappedUndelegate'' sample_undelegate
      \<lparr>msg_queue = [], other_modules = []\<rparr> sample_stargate"
  have msg: "unwrap_undelegate sample_codec sample_undelegate =
      Inr (MsgUndelegate sample_hub_addr ''val1'' (Some (ProtoCoin ''ubbn'' ''40'')),
        ProtoCoin ''ubbn'' ''40'')"
    by (simp add: unwrap_undelegate_def sample_codec_def sample_undelegate_def from_err_def)
  have "reachable app_initial app_step
      (\<lparr>msg_queue = [], other_modules = [] :: (addr \<times> staking_msg) list\<rparr>, sample_stargate)"
    unfolding sample_stargate_def by (intro reachable_init app_initial.intros)
  from unbonding_limit_kept [OF this _ _ msg, of 1 100 40 sample_operators sample_hub_addr "''val1''"
      sample_app_block 100000001000 "babylon_execute sample_operators sample_router" sample_hub_addr
      "fst ?run" "snd ?run"]
  show ?thesis
    using sample_simulation(3) [unfolded is_operator_def]
    by (simp add: uint128_from_str_def is_digit_def nat_of_string_def plus_seconds_def sample_app_block_def
        eval_simps babylon_execute_def push_msg_def queued_undelegation_def bbn_def prod_eq_iff)
qed

end
