(* ===== verification/Test_Contracts.thy ===== *)
theory Test_Contracts
  imports Epoching Registry Dispatcher Token Hub_Safety
begin

text \<open>
  How the simulation deploys the contracts: the trait \<open>TestingContract\<close> of
  \<open>packages/lst_common/src/testing.rs\<close> and its four implementations in the \<open>testing.rs\<close> of the
  contracts. The test library (\<open>cw_multi_test\<close>) is an argument: it makes addresses, stores code,
  instantiates and executes contracts, and has a storage, in which the trait keeps the address of
  each contract under its label.
\<close>

section \<open>The code\<close>

definition DENOM :: string where "DENOM = ''BABY''"
definition UNSTAKING_PERIOD :: u64 where "UNSTAKING_PERIOD = 183600"

text \<open>Messages as they are serialised for the library, and the four kinds of code.\<close>

datatype init_msg =
    HubInit hub_instantiate_msg
  | TokenInit token_instantiate_msg
  | DispatcherInit rewards_instantiate_msg
  | RegistryInit validator_instantiate_msg

datatype wrapper = HubCode | TokenCode | DispatcherCode | RegistryCode

record ('r, 'w) multi_test =
  addr_make :: "string \<Rightarrow> addr"
  app_store_code :: "wrapper \<Rightarrow> 'w \<Rightarrow> u64 \<times> 'w"
  instantiate_contract ::
    "u64 \<Rightarrow> addr \<Rightarrow> init_msg \<Rightarrow> coin list \<Rightarrow> string \<Rightarrow> string option \<Rightarrow> 'w \<Rightarrow> string + addr \<times> 'w"
  app_execute :: "addr \<Rightarrow> cosmos_msg \<Rightarrow> 'w \<Rightarrow> string + 'r \<times> 'w"
  storage_get :: "string \<Rightarrow> 'w \<Rightarrow> string option"
  storage_set :: "string \<Rightarrow> string \<Rightarrow> 'w \<Rightarrow> 'w"

definition contract_key :: "string \<Rightarrow> string" where
  "contract_key label = ''CONTRACT:'' @ label"

definition set_contract_addr :: "('r, 'w) multi_test \<Rightarrow> string \<Rightarrow> addr \<Rightarrow> 'w \<Rightarrow> 'w" where
  "set_contract_addr app label a w = storage_set app (contract_key label) a w"

definition get_contract_addr :: "('r, 'w) multi_test \<Rightarrow> string \<Rightarrow> 'w \<Rightarrow> (string, addr) outcome" where
  "get_contract_addr app label w = expect (storage_get app (contract_key label) w)"

definition test_instantiate ::
    "('r, 'w) multi_test \<Rightarrow> u64 \<Rightarrow> string \<Rightarrow> addr option \<Rightarrow> init_msg \<Rightarrow> 'w \<Rightarrow> (string, addr \<times> 'w) outcome" where
  "test_instantiate app code_id label sender msg w =
     (let admin = addr_make app ''admin'';
          sender' = (case sender of Some a \<Rightarrow> a | None \<Rightarrow> addr_make app ''owner'') in
      and_then (unwrap (from_err id
          (instantiate_contract app code_id sender' msg [] label (Some admin) w))) (\<lambda>(a, w').
      Inr (a, set_contract_addr app label a w')))"

definition test_execute_with_funds ::
    "('r, 'w) multi_test \<Rightarrow> addr \<Rightarrow> addr \<Rightarrow> wasm_payload \<Rightarrow> coin list \<Rightarrow> 'w \<Rightarrow> (string, 'r \<times> 'w) outcome" where
  "test_execute_with_funds app contract sender msg funds w =
     (let execute_msg = WasmExecute contract msg funds in
      from_err id (app_execute app sender execute_msg w))"

definition test_execute ::
    "('r, 'w) multi_test \<Rightarrow> addr \<Rightarrow> addr \<Rightarrow> wasm_payload \<Rightarrow> 'w \<Rightarrow> (string, 'r \<times> 'w) outcome" where
  "test_execute app contract sender msg w = test_execute_with_funds app contract sender msg [] w"

text \<open>\<open>query_wasm_smart\<close> of the library, which decodes the answer to the type that is asked for.\<close>

definition test_query ::
    "(addr \<Rightarrow> 'm \<Rightarrow> 'w \<Rightarrow> std_error + 't) \<Rightarrow> addr \<Rightarrow> 'm \<Rightarrow> 'w \<Rightarrow> std_error + 't" where
  "test_query query_wasm_smart contract msg w = query_wasm_smart contract msg w"

record 'i test_contract =
  tc_addr :: addr
  tc_init :: 'i

text \<open>The body that the four \<open>new\<close> share. \<open>unwrap_or\<close> takes a value, so the default message is
  built even when another one is given.\<close>

definition new_contract ::
    "('r, 'w) multi_test \<Rightarrow> wrapper \<Rightarrow> string \<Rightarrow> ('i \<Rightarrow> init_msg) \<Rightarrow> (string, 'i) outcome \<Rightarrow> 'i option \<Rightarrow> 'w
     \<Rightarrow> (string, 'i test_contract \<times> 'w) outcome" where
  "new_contract app code label to_msg fallback msg w =
     and_then fallback (\<lambda>dflt.
     let init = (case msg of Some m \<Rightarrow> m | None \<Rightarrow> dflt);
         (code_id, w1) = app_store_code app code w in
     and_then (test_instantiate app code_id label None (to_msg init) w1) (\<lambda>(a, w2).
     Inr (\<lparr>tc_addr = a, tc_init = init\<rparr>, w2)))"

definition hub_default_init :: hub_instantiate_msg where
  "hub_default_init = \<lparr>im_epoch_length = EPOCH_LENGTH, im_staking_coin_denom = DENOM,
     im_unstaking_period = UNSTAKING_PERIOD,
     im_staking_epoch_start_block_height = STAKING_EPOCH_START_BLOCK_HEIGHT,
     im_staking_epoch_length_blocks = STAKING_EPOCH_LENGTH_BLOCKS\<rparr>"

definition hub_new ::
    "('r, 'w) multi_test \<Rightarrow> hub_instantiate_msg option \<Rightarrow> 'w
     \<Rightarrow> (string, hub_instantiate_msg test_contract \<times> 'w) outcome" where
  "hub_new app msg w =
     new_contract app HubCode ''StakingHubContract'' HubInit (Inr hub_default_init) msg w"

definition token_default_init ::
    "('r, 'w) multi_test \<Rightarrow> 'w \<Rightarrow> (string, token_instantiate_msg) outcome" where
  "token_default_init app w =
     and_then (get_contract_addr app ''StakingHubContract'' w) (\<lambda>hub.
     Inr \<lparr>tim_name = ''BABY'', tim_symbol = ''BABY'', tim_decimals = 6, tim_hub_contract = hub,
          tim_marketing = None\<rparr>)"

definition token_new ::
    "('r, 'w) multi_test \<Rightarrow> token_instantiate_msg option \<Rightarrow> 'w
     \<Rightarrow> (string, token_instantiate_msg test_contract \<times> 'w) outcome" where
  "token_new app msg w =
     new_contract app TokenCode ''TokenContract'' TokenInit (token_default_init app w) msg w"

definition dispatcher_default_init ::
    "('r, 'w) multi_test \<Rightarrow> 'w \<Rightarrow> (string, rewards_instantiate_msg) outcome" where
  "dispatcher_default_init app w =
     and_then (get_contract_addr app ''StakingHubContract'' w) (\<lambda>hub.
     Inr \<lparr>rim_hub_contract = hub, rim_reward_denom = ''BABY'', rim_fee_addr = addr_make app ''fee_addr'',
          rim_fee_rate = Decimal 10\<rparr>)"

definition dispatcher_new ::
    "('r, 'w) multi_test \<Rightarrow> rewards_instantiate_msg option \<Rightarrow> 'w
     \<Rightarrow> (string, rewards_instantiate_msg test_contract \<times> 'w) outcome" where
  "dispatcher_new app msg w =
     new_contract app DispatcherCode ''RewardDispatcherContract'' DispatcherInit
       (dispatcher_default_init app w) msg w"

definition registry_default_init ::
    "('r, 'w) multi_test \<Rightarrow> 'w \<Rightarrow> (string, validator_instantiate_msg) outcome" where
  "registry_default_init app w =
     and_then (get_contract_addr app ''StakingHubContract'' w) (\<lambda>hub.
     Inr \<lparr>vim_validators = [], vim_hub_contract = hub\<rparr>)"

definition registry_new ::
    "('r, 'w) multi_test \<Rightarrow> validator_instantiate_msg option \<Rightarrow> 'w
     \<Rightarrow> (string, validator_instantiate_msg test_contract \<times> 'w) outcome" where
  "registry_new app msg w =
     new_contract app RegistryCode ''ValidatorsRegistryContract'' RegistryInit
       (registry_default_init app w) msg w"

section \<open>What they do\<close>

text \<open>The library's storage, and that instantiation leaves the labels alone.\<close>

definition labels_law :: "('r, 'w) multi_test \<Rightarrow> bool" where
  "labels_law app \<longleftrightarrow>
     (\<forall>k k' v w. storage_get app k (storage_set app k' v w) = (if k = k' then Some v else storage_get app k w))
     \<and> (\<forall>c w l. storage_get app (contract_key l) (snd (app_store_code app c w))
          = storage_get app (contract_key l) w)
     \<and> (\<forall>c a m fs l adm w a' w' l'. instantiate_contract app c a m fs l adm w = Inr (a', w') \<longrightarrow>
          storage_get app (contract_key l') w' = storage_get app (contract_key l') w)"

text \<open>A created contract is found under its label; the others stay where they are.\<close>

lemma new_contract_label:
  assumes law: "labels_law app" and run: "new_contract app code label to_msg fallback msg w = Inr (c, w')"
  shows "get_contract_addr app l w' = (if l = label then Inr (tc_addr c) else get_contract_addr app l w)"
    and "\<exists>dflt. fallback = Inr dflt \<and> tc_init c = (case msg of Some m \<Rightarrow> m | None \<Rightarrow> dflt)"
proof -
  obtain code_id w1 where store: "app_store_code app code w = (code_id, w1)" by force
  from run obtain dflt a w2 where dflt: "fallback = Inr dflt"
    and inst: "instantiate_contract app code_id (addr_make app ''owner'')
        (to_msg (case msg of Some m \<Rightarrow> m | None \<Rightarrow> dflt)) [] label (Some (addr_make app ''admin'')) w1 = Inr (a, w2)"
    and out: "c = \<lparr>tc_addr = a, tc_init = (case msg of Some m \<Rightarrow> m | None \<Rightarrow> dflt)\<rparr>"
      "w' = storage_set app (contract_key label) a w2"
    by (auto simp: new_contract_def test_instantiate_def set_contract_addr_def outcome_simps Let_def store)
  have "contract_key l = contract_key label \<longleftrightarrow> l = label" by (simp add: contract_key_def)
  moreover have "storage_get app (contract_key l) w1 = storage_get app (contract_key l) w"
    using law store unfolding labels_law_def by (metis snd_conv)
  moreover have "storage_get app (contract_key l) w2 = storage_get app (contract_key l) w1"
    using law inst unfolding labels_law_def by blast
  ultimately show "get_contract_addr app l w' = (if l = label then Inr (tc_addr c) else get_contract_addr app l w)"
    using law unfolding labels_law_def by (simp add: get_contract_addr_def out expect_def)
  show "\<exists>dflt. fallback = Inr dflt \<and> tc_init c = (case msg of Some m \<Rightarrow> m | None \<Rightarrow> dflt)"
    by (simp add: dflt out)
qed

section \<open>Properties\<close>

text \<open>
  The test deployment is connected: created after the hub, with their default messages, the other
  three contracts are instantiated with the hub's address, and every contract is found under its
  label.
\<close>

theorem test_deployment_connected:
  assumes "labels_law app" and "hub_new app hub_msg w0 = Inr (hub, w1)"
    and "token_new app None w1 = Inr (token, w2)" and "dispatcher_new app None w2 = Inr (disp, w3)"
    and "registry_new app None w3 = Inr (reg, w4)"
  shows "tim_hub_contract (tc_init token) = tc_addr hub \<and> rim_hub_contract (tc_init disp) = tc_addr hub
    \<and> vim_hub_contract (tc_init reg) = tc_addr hub
    \<and> get_contract_addr app ''StakingHubContract'' w4 = Inr (tc_addr hub)
    \<and> get_contract_addr app ''TokenContract'' w4 = Inr (tc_addr token)
    \<and> get_contract_addr app ''RewardDispatcherContract'' w4 = Inr (tc_addr disp)
    \<and> get_contract_addr app ''ValidatorsRegistryContract'' w4 = Inr (tc_addr reg)"
proof -
  note new = new_contract_label [OF assms(1)]
  note hub = new [OF assms(2) [unfolded hub_new_def]] and token = new [OF assms(3) [unfolded token_new_def]]
    and disp = new [OF assms(4) [unfolded dispatcher_new_def]] and reg = new [OF assms(5) [unfolded registry_new_def]]
  show ?thesis
    using token(2) disp(2) reg(2)
    by (auto simp: hub(1) token(1) disp(1) reg(1) token_default_init_def dispatcher_default_init_def
        registry_default_init_def outcome_simps)
qed

text \<open>
  A contract other than the hub cannot be created before the hub, not even with a message of its
  own: the default message, which asks for the hub's address, is built in any case.
\<close>

theorem hub_comes_first:
  assumes "storage_get app (contract_key ''StakingHubContract'') w = None"
  shows "token_new app msg w = Inl (Panic UnwrapFailed) \<and> dispatcher_new app msg' w = Inl (Panic UnwrapFailed)
    \<and> registry_new app msg'' w = Inl (Panic UnwrapFailed)"
  using assms by (simp add: token_new_def dispatcher_new_def registry_new_def new_contract_def
      token_default_init_def dispatcher_default_init_def registry_default_init_def get_contract_addr_def
      expect_def)

text \<open>
  The default messages of the hub and the dispatcher pass the checks of the contracts. The staking
  epoch of the hub is as long as it can be: one block more is refused.
\<close>

theorem default_inits_accepted:
  assumes "set_contract_version d CONTRACT_NAME CONTRACT_VERSION None = Inr ci"
  shows "\<exists>r s. hub_instantiate d e info hub_default_init empty_hub_storage = Inr (r, s)
    \<and> hub_instantiate d e info (hub_default_init\<lparr>im_staking_epoch_length_blocks :=
        STAKING_EPOCH_LENGTH_BLOCKS + 1\<rparr>) empty_hub_storage = hub_err InvalidEpochLength"
  using assms by (simp add: hub_instantiate_def hub_default_init_def empty_hub_storage_def query_std_def
      from_err_def MAX_EPOCH_LENGTH_def MAX_UNSTAKING_PERIOD_def AVERAGE_BLOCK_TIME_def EPOCH_LENGTH_def
      UNSTAKING_PERIOD_def STAKING_EPOCH_LENGTH_BLOCKS_def umul_def)

section \<open>Witnesses\<close>

text \<open>A test library whose storage is a map, and which gives every contract a new address.\<close>

definition sample_app :: "(unit, nat \<times> (string \<rightharpoonup> string)) multi_test" where
  "sample_app = \<lparr>addr_make = id, app_store_code = (\<lambda>c w. (1, w)),
     instantiate_contract = (\<lambda>c a m fs l adm (n, st). Inr (''contract'' @ replicate n CHR ''x'', (Suc n, st))),
     app_execute = (\<lambda>a m w. Inr ((), w)), storage_get = (\<lambda>k (n, st). st k),
     storage_set = (\<lambda>k v (n, st). (n, st(k \<mapsto> v)))\<rparr>"

lemma sample_app_law: "labels_law sample_app"
  by (auto simp: labels_law_def sample_app_def)

lemmas deploy_eval = hub_new_def token_new_def dispatcher_new_def registry_new_def new_contract_def
  test_instantiate_def token_default_init_def dispatcher_default_init_def registry_default_init_def
  get_contract_addr_def set_contract_addr_def contract_key_def expect_def from_err_def

lemma test_deployment_connected_witness:
  "\<exists>hub token disp reg w1 w2 w3 w4. hub_new sample_app None (0, \<lambda>_. None) = Inr (hub, w1)
    \<and> token_new sample_app None w1 = Inr (token, w2) \<and> dispatcher_new sample_app None w2 = Inr (disp, w3)
    \<and> registry_new sample_app None w3 = Inr (reg, w4)
    \<and> tim_hub_contract (tc_init token) = tc_addr hub \<and> vim_hub_contract (tc_init reg) = tc_addr hub"
proof -
  obtain hub w1 token w2 disp w3 reg w4 where
    run: "hub_new sample_app None (0, \<lambda>_. None) = Inr (hub, w1)" "token_new sample_app None w1 = Inr (token, w2)"
      "dispatcher_new sample_app None w2 = Inr (disp, w3)" "registry_new sample_app None w3 = Inr (reg, w4)"
    by (simp add: deploy_eval sample_app_def)
  with test_deployment_connected [OF sample_app_law run] show ?thesis by blast
qed

end
