(* ===== verification/Hub_Funds.thy ===== *)
theory Hub_Funds
  imports Hub_Claims
begin

text \<open>
  The hub together with its coins on the chain. A hub with funds is the storage of the hub, the
  block, the coins at its address, and the coins that wait in the queue of the epoching module to
  be delegated. Messages move coins as the bank does; wrapped delegations are queued and leave the
  address when the chain's staking epoch ends; coins may arrive at any time, be it completed
  undelegations or gifts. The balance that the hub is told is then no longer an arbitrary answer
  but the coins it has, and more can be said: the coins cover what is queued and what is owed for
  released batches, and a batch that has matured is paid as soon as the coins for it are back.
\<close>

section \<open>The coins that messages move\<close>

text \<open>The coins of a denomination that leave the hub with a message.\<close>

definition coins_of :: "string \<Rightarrow> coin list \<Rightarrow> nat" where
  "coins_of denom cs = (\<Sum>c \<leftarrow> cs. if coin_denom c = denom then unat (coin_amount c) else 0)"

fun message_pays :: "string \<Rightarrow> cosmos_msg \<Rightarrow> nat" where
  "message_pays denom (BankSend _ cs) = coins_of denom cs"
| "message_pays denom (WasmExecute _ _ cs) = coins_of denom cs"
| "message_pays denom _ = 0"

definition pays :: "string \<Rightarrow> cosmos_msg list \<Rightarrow> nat" where
  "pays denom msgs = sum_list (map (message_pays denom) msgs)"

lemma coins_of_simps [simp]:
  "coins_of denom [] = 0"
  "coins_of denom (c # cs) = (if coin_denom c = denom then unat (coin_amount c) else 0) + coins_of denom cs"
  by (simp_all add: coins_of_def)

lemma pays_simps [simp]:
  "pays denom [] = 0"
  "pays denom (m # ms) = message_pays denom m + pays denom ms"
  "pays denom (ms @ ms') = pays denom ms + pays denom ms'"
  by (simp_all add: pays_def)

lemma delegates_Cons [simp]: "delegates (m # ms) = message_delegates m + delegates ms"
  by (simp add: delegates_def)

text \<open>Messages that neither pay nor delegate.\<close>

definition moves_nothing :: "string \<Rightarrow> cosmos_msg list \<Rightarrow> bool" where
  "moves_nothing denom msgs \<longleftrightarrow> pays denom msgs = 0 \<and> delegates msgs = 0"

lemma pays_prepared [simp]:
  "pays denom (map (\<lambda>(v, a). prepare_wrapped_delegate_msg dn (f a) x v) shares) = 0"
  "pays denom (map (\<lambda>(v, a). prepare_wrapped_undelegate_msg dn (f a) x v) shares) = 0"
  "pays denom (map (\<lambda>(v, c). prepare_wrapped_begin_redelegate_msg (g c) (h c) x y v) reds) = 0"
  "pays denom (map (\<lambda>del. WithdrawDelegatorReward (del_validator del)) dels) = 0"
  by (induction shares, simp_all add: prepare_wrapped_delegate_msg_def prepare_wrapped_undelegate_msg_def
      to_any_def Let_def split_beta)
    (induction reds, auto simp: prepare_wrapped_begin_redelegate_msg_def to_any_def, induction dels, auto)

lemma delegates_prepared [simp]:
  "delegates (map (\<lambda>(v, a). prepare_wrapped_undelegate_msg dn (f a) x v) shares) = 0"
  "delegates (map (\<lambda>(v, c). prepare_wrapped_begin_redelegate_msg (g c) (h c) x y v) reds) = 0"
  "delegates (map (\<lambda>del. WithdrawDelegatorReward (del_validator del)) dels) = 0"
  by (induction shares, simp_all add: prepare_wrapped_undelegate_msg_def
      to_any_def Let_def split_beta)
    (induction reds, auto simp: prepare_wrapped_begin_redelegate_msg_def to_any_def, induction dels, auto)

lemma stake_moves:
  assumes "execute_stake d e info kind s = Inr (r, s')"
  shows "pays denom (messages r) = 0"
  using assms unfolding execute_stake_def
proof (elim outcome_elims, goal_cases)
  case (1 params config st0 dispatcher batch payment _ evs _ st s1 issued minted supp total st'
      s2 _ evs' s3 registry vs ds msgs)
  have "pays denom msgs = 0"
    using 1(24) by (auto simp: delegate_messages_def outcome_simps)
  with 1(25) show ?case
    by (cases kind) (auto simp: outcome_simps)
qed

lemma epoch_completion_moves:
  "check_for_unstake_batch_epoch_completion d e batch s = Inr (msgs, evs, batch', s') \<Longrightarrow>
   moves_nothing denom msgs"
  by (erule epoch_completion_cases)
    (auto simp: process_undelegations_for_batch_def pick_validator_for_undelegation_def
      outcome_simps Let_def moves_nothing_def)

lemma unstake_moves:
  assumes "execute_unstake d e amount sender flow s = Inr (r, s')"
  shows "moves_nothing denom (messages r)"
  using assms
  by (rule execute_unstake_InrD)
    (auto simp: moves_nothing_def dest!: epoch_completion_moves [where denom = denom])

lemma settings_move:
  "execute_update_config d info no token reg disp s = Inr (r, s') \<Longrightarrow> moves_nothing denom (messages r)"
  "execute_update_params info pause el up s = Inr (r, s') \<Longrightarrow> moves_nothing denom (messages r)"
  "execute_slashing d e s = Inr (r, s') \<Longrightarrow> moves_nothing denom (messages r)"
  "execute_redelegate_proxy e info src reds s = Inr (r, s') \<Longrightarrow> moves_nothing denom (messages r)"
  "execute_update_global_index d e s = Inr (r, s') \<Longrightarrow> moves_nothing denom (messages r)"
  "execute_process_undelegations d e s = Inr (r, s') \<Longrightarrow> moves_nothing denom (messages r)"
  "execute_process_withdraw_requests d e s = Inr (r, s') \<Longrightarrow> moves_nothing denom (messages r)"
proof -
  show "execute_update_config d info no token reg disp s = Inr (r, s') \<Longrightarrow> moves_nothing denom (messages r)"
    by (erule execute_update_config_InrD) (simp add: moves_nothing_def split: option.splits)
  show "execute_update_params info pause el up s = Inr (r, s') \<Longrightarrow> moves_nothing denom (messages r)"
    "execute_slashing d e s = Inr (r, s') \<Longrightarrow> moves_nothing denom (messages r)"
    "execute_redelegate_proxy e info src reds s = Inr (r, s') \<Longrightarrow> moves_nothing denom (messages r)"
    "execute_update_global_index d e s = Inr (r, s') \<Longrightarrow> moves_nothing denom (messages r)"
    by (auto simp: execute_update_params_def execute_slashing_def execute_redelegate_proxy_def
        execute_update_global_index_def withdraw_all_rewards_def moves_nothing_def
        outcome_simps response_new_def Let_def split: if_splits)
  show "execute_process_undelegations d e s = Inr (r, s') \<Longrightarrow> moves_nothing denom (messages r)"
    by (auto simp: execute_process_undelegations_def outcome_simps response_new_def moves_nothing_def
        dest!: epoch_completion_moves [where denom = denom] split: if_splits)
  show "execute_process_withdraw_requests d e s = Inr (r, s') \<Longrightarrow> moves_nothing denom (messages r)"
    unfolding execute_process_withdraw_requests_def
    by (elim outcome_elims) (auto simp: response_new_def moves_nothing_def)
qed

section \<open>The record of pending stakes against the chain's queue\<close>

text \<open>The epoch of the chain at a height; what the hub takes to be pending at a height.\<close>

definition chain_epoch :: "nat \<Rightarrow> nat \<Rightarrow> nat \<Rightarrow> nat" where
  "chain_epoch start len h = (h - start) div len"

definition pending_now :: "pending_delegation \<Rightarrow> nat \<Rightarrow> nat" where
  "pending_now pd h = (if h - unat (staking_epoch_start_block_height pd) < unat (staking_epoch_length_blocks pd)
     then unat (pending_staking_amount pd) else 0)"

definition records :: "nat \<Rightarrow> nat \<Rightarrow> nat \<Rightarrow> pending_delegation \<Rightarrow> nat \<Rightarrow> bool" where
  "records start len h pd queued \<longleftrightarrow> unat (staking_epoch_length_blocks pd) = len
     \<and> (\<exists>k. unat (staking_epoch_start_block_height pd) = start + k * len)
     \<and> unat (staking_epoch_start_block_height pd) \<le> h \<and> pending_now pd h = queued"

lemma get_pending_now:
  assumes "get_pending_delegation_amount e s = Inr (ps, pu)" and "s_pending_delegation s = Some pd"
  shows "unat ps = pending_now pd (unat (block_height e))"
  using assms
  by (auto simp: get_pending_delegation_amount_def outcome_simps usub_Inr pending_now_def
      word_less_nat_alt split: if_splits)

lemma get_pending_total:
  assumes "s_pending_delegation s = Some pd"
    and "staking_epoch_start_block_height pd \<le> block_height e"
  shows "\<exists>ps pu. get_pending_delegation_amount e s = Inr (ps, pu)"
  using assms by (simp add: get_pending_delegation_amount_def load_pending_delegation_def usub_fits Let_def)

lemma records_update:
  assumes rec: "records start len (unat (block_height e)) pd queued"
    and run: "update_pending_delegation_amount e st un s = Inr s'"
    and pd: "s_pending_delegation s = Some pd"
  obtains pd' where "s' = s\<lparr>s_pending_delegation := Some pd'\<rparr>"
    "records start len (unat (block_height e)) pd' (queued + unat (unwrap_or_zero st))"
proof -
  let ?h = "unat (block_height e)" and ?s = "unat (staking_epoch_start_block_height pd)"
  from rec obtain k where len: "unat (staking_epoch_length_blocks pd) = len"
    and k: "?s = start + k * len" and le: "?s \<le> ?h" and queued: "queued = pending_now pd ?h"
    by (auto simp: records_def)
  obtain pd' where s': "s' = s\<lparr>s_pending_delegation := Some pd'\<rparr>"
    and len': "staking_epoch_length_blocks pd' = staking_epoch_length_blocks pd"
    and within: "?h - ?s < len \<Longrightarrow>
        staking_epoch_start_block_height pd' = staking_epoch_start_block_height pd
        \<and> unat (pending_staking_amount pd') = unat (pending_staking_amount pd) + unat (unwrap_or_zero st)
        \<and> unat (pending_unstaking_amount pd')
            = unat (pending_unstaking_amount pd) + unat (unwrap_or_zero un)"
    and beyond: "len \<le> ?h - ?s \<Longrightarrow>
        unat (staking_epoch_start_block_height pd') = ?s + (?h - ?s) div len * len
        \<and> pending_staking_amount pd' = unwrap_or_zero st
        \<and> pending_unstaking_amount pd' = unwrap_or_zero un \<and> staking_epoch_length_blocks pd \<noteq> 0"
    by (rule update_pending_InrD [OF run pd, unfolded len]) (rule that)
  have "records start len ?h pd' (queued + unat (unwrap_or_zero st))"
  proof (cases "?h - ?s < len")
    case True
    with within [OF True] len' len k le show ?thesis
      by (auto simp: records_def queued pending_now_def)
  next
    case False
    then have far: "len \<le> ?h - ?s" by simp
    have "0 < len" using beyond [OF far] len by (metis unat_gt_0)
    note ar = epoch_arith [OF le this]
    have "unat (staking_epoch_start_block_height pd') = start + (k + (?h - ?s) div len) * len"
      using beyond [OF far] k by (simp add: algebra_simps)
    moreover have "pending_now pd' ?h = unat (unwrap_or_zero st)"
      using beyond [OF far] ar len' len \<open>0 < len\<close> by (simp add: pending_now_def less_diff_conv2)
    moreover have "queued = 0" using False len by (simp add: queued pending_now_def)
    ultimately show ?thesis
      using beyond [OF far] ar(1) len' len by (simp only: records_def) auto
  qed
  with s' show ?thesis by (rule that)
qed

text \<open>When the chain's epoch ends the hub takes nothing to be pending any more.\<close>

lemma records_block:
  assumes rec: "records start len h pd queued" and le: "h \<le> h'"
  shows "records start len h' pd (if chain_epoch start len h' = chain_epoch start len h then queued else 0)"
proof -
  let ?s = "unat (staking_epoch_start_block_height pd)"
  from rec obtain k where len: "unat (staking_epoch_length_blocks pd) = len"
    and k: "?s = start + k * len" and s: "?s \<le> h" and queued: "queued = pending_now pd h"
    by (auto simp: records_def)
  have epoch: "chain_epoch start len x = k + (x - ?s) div len" if "?s \<le> x" "0 < len" for x
  proof -
    have "x - start = k * len + (x - ?s)" using that(1) by (simp add: k)
    with that(2) show ?thesis by (simp add: chain_epoch_def)
  qed
  have "pending_now pd h' = (if chain_epoch start len h' = chain_epoch start len h then queued else 0)"
  proof (cases "len = 0")
    case True
    then show ?thesis by (simp add: pending_now_def len queued)
  next
    case False
    then have "0 < len" by simp
    have within: "x - ?s < len \<longleftrightarrow> (x - ?s) div len = 0" for x
      using \<open>0 < len\<close> by (simp add: div_eq_0_iff)
    have "(h - ?s) div len \<le> (h' - ?s) div len"
      using le by (intro div_le_mono) simp
    with epoch [OF s \<open>0 < len\<close>] epoch [OF _ \<open>0 < len\<close>, of h'] s le show ?thesis
      unfolding queued pending_now_def len within by auto
  qed
  with rec le show ?thesis by (auto simp: records_def)
qed

section \<open>What the handlers do to the accounts\<close>

text \<open>The unclaimed balance stays, and the record of pending stakes grows by the given amount.\<close>

definition accounts :: "env \<Rightarrow> nat \<Rightarrow> hub_storage \<Rightarrow> hub_storage \<Rightarrow> bool" where
  "accounts e staked s s' \<longleftrightarrow>
     (\<forall>st pd. s_state s = Some st \<longrightarrow> s_pending_delegation s = Some pd \<longrightarrow>
        (\<exists>st' pd'. s_state s' = Some st' \<and> s_pending_delegation s' = Some pd'
          \<and> unclaimed_unstaked_balance st' = unclaimed_unstaked_balance st
          \<and> (\<forall>start len q. records start len (unat (block_height e)) pd q \<longrightarrow>
               records start len (unat (block_height e)) pd' (q + staked))))"

text \<open>A new history is one of the open batch, of the present block, and its worth is an amount.\<close>

definition new_histories :: "env \<Rightarrow> hub_storage \<Rightarrow> hub_storage \<Rightarrow> bool" where
  "new_histories e s s' \<longleftrightarrow>
     (\<forall>b h'. may_load (s_unstake_history s') b = Some h' \<longrightarrow>
        (\<exists>h. may_load (s_unstake_history s) b = Some h \<and> (h' = h \<or> h' = h\<lparr>released := True\<rparr>))
        \<or> (\<exists>cb. s_current_batch s = Some cb \<and> b = cb_id cb \<and> uh_time h' = block_time e
            \<and> owed h' < 2 ^ 128 \<and> \<not> released h'))"

lemma new_histories_same: "s_unstake_history s' = s_unstake_history s \<Longrightarrow> new_histories e s s'"
  by (auto simp: new_histories_def)

lemma accounts_frame:
  assumes "s_pending_delegation s' = s_pending_delegation s"
    and "\<And>st. s_state s = Some st \<Longrightarrow> \<exists>st'. s_state s' = Some st'
      \<and> unclaimed_unstaked_balance st' = unclaimed_unstaked_balance st"
  shows "accounts e 0 s s'"
  using assms by (fastforce simp: accounts_def)

lemma accounts_trans: "accounts e a s1 s2 \<Longrightarrow> accounts e b s2 s3 \<Longrightarrow> accounts e (a + b) s1 s3"
  unfolding accounts_def by (metis (no_types, opaque_lifting) add.assoc)

lemma accounts_state:
  "s_state s = Some st \<Longrightarrow> unclaimed_unstaked_balance st' = unclaimed_unstaked_balance st \<Longrightarrow>
   accounts e 0 s (s\<lparr>s_state := Some st'\<rparr>)"
  by (rule accounts_frame) simp_all

lemma accounts_pending:
  assumes "update_pending_delegation_amount e st un s = Inr s'"
  shows "accounts e (unat (unwrap_or_zero st)) s s'"
  unfolding accounts_def
proof (intro allI impI)
  fix st0 pd assume st0: "s_state s = Some st0" and pd: "s_pending_delegation s = Some pd"
  obtain pd1 where s': "s' = s\<lparr>s_pending_delegation := Some pd1\<rparr>"
    using assms by (rule update_pending_frame)
  have "records start len (unat (block_height e)) pd1 (q + unat (unwrap_or_zero st))"
    if rec0: "records start len (unat (block_height e)) pd q" for start len q
  proof -
    obtain pd' where eq: "s' = s\<lparr>s_pending_delegation := Some pd'\<rparr>"
      and rec: "records start len (unat (block_height e)) pd' (q + unat (unwrap_or_zero st))"
      by (rule records_update [OF rec0 assms pd])
    have "pd' = pd1" using arg_cong [OF eq, of s_pending_delegation] by (simp add: s')
    with rec show ?thesis by simp
  qed
  with st0 show "\<exists>st' pd'. s_state s' = Some st' \<and> s_pending_delegation s' = Some pd'
      \<and> unclaimed_unstaked_balance st' = unclaimed_unstaked_balance st0
      \<and> (\<forall>start len q. records start len (unat (block_height e)) pd q \<longrightarrow>
           records start len (unat (block_height e)) pd' (q + unat (unwrap_or_zero st)))"
    by (simp add: s')
qed

lemma actual_state_unclaimed:
  "query_actual_state d e s st = Inr st' \<Longrightarrow> unclaimed_unstaked_balance st' = unclaimed_unstaked_balance st"
  by (erule query_actual_state_frame) simp

lemma stake_accounts:
  assumes "execute_stake d e info kind s = Inr (r, s')"
  shows "accounts e (delegates (messages r)) s s' \<and> new_histories e s s'
    \<and> (\<exists>p. s_parameters s = Some p
        \<and> delegates (messages r) = coins_of (staking_coin_denom p) (info_funds info))"
  using assms
proof (rule execute_stake_InrD)
  fix params :: parameters and config :: hub_config and batch :: current_batch
    and issued minted :: uint128 and st0 payment st st' s2 msgs
  assume p: "s_parameters s = Some params" and st0: "s_state s = Some st0"
    and pay: "info_funds info = [payment]" "coin_denom payment = staking_coin_denom params"
    and check: "query_actual_state d e s st0 = Inr st"
    and rate: "\<exists>total_supply total. unat total_supply = unat issued + unat minted
       \<and> unat total = unat (total_staked_amount st) + unat (coin_amount payment)
       \<and> update_lst_exchange_rate d (st\<lparr>total_staked_amount := total\<rparr>) total_supply
           (requested_lst_token_amount batch) = Inr st'"
    and pending: "update_pending_delegation_amount e (Some (coin_amount payment)) None
       (s\<lparr>s_state := Some st\<rparr>) = Inr s2"
    and s': "s' = s2\<lparr>s_state := Some st'\<rparr>" and del: "delegates msgs = unat (coin_amount payment)"
    and out: "case kind of LSTMint \<Rightarrow> \<exists>token. lst_token config = Some token
         \<and> messages r = msgs @ [WasmExecute token (Cw20Payload (Mint (info_sender info) minted)) []]
       | StakeRewardsType \<Rightarrow> messages r = msgs"
  have amount: "delegates (messages r) = unat (coin_amount payment)"
    using out del by (cases kind) auto
  have un: "unclaimed_unstaked_balance st = unclaimed_unstaked_balance st0"
    "unclaimed_unstaked_balance st' = unclaimed_unstaked_balance st"
    using actual_state_unclaimed [OF check] rate by (auto dest!: update_lst_exchange_rate_InrD)
  from pending obtain pd' where s2: "s2 = s\<lparr>s_state := Some st, s_pending_delegation := Some pd'\<rparr>"
    by (rule update_pending_frame)
  have "accounts e 0 s2 s'"
    unfolding s' by (rule accounts_state [OF _ un(2)]) (simp add: s2)
  from accounts_trans [OF accounts_trans [OF accounts_state [OF st0 un(1)] accounts_pending [OF pending]] this]
  have "accounts e (unat (coin_amount payment)) s s'"
    by (simp add: unwrap_or_zero_def)
  moreover have "new_histories e s s'"
    by (rule new_histories_same) (simp add: s' s2)
  ultimately show ?thesis
    using p pay by (auto simp: amount)
qed

lemma closing_accounts:
  assumes run: "process_undelegations_for_batch d e batch st s = Inr (msgs, batch', st', s')"
    and st: "s_state s = Some st" and cb: "s_current_batch s = Some cb" "cb_id batch = cb_id cb"
  shows "unclaimed_unstaked_balance st' = unclaimed_unstaked_balance st"
    and "accounts e 0 s s'" and "s_state s' = Some st" and "new_histories e s s'"
proof -
  from run obtain un s1 total and next_id :: u64 where
    fits: "decimal_multiplication (requested_lst_token_amount batch) (lst_exchange_rate st)
      = (Inr un :: uint128 lst_result)"
    and pending: "update_pending_delegation_amount e None (Some un) s = Inr s1"
    and s': "s' = s1\<lparr>s_unstake_history := save (cb_id batch)
         \<lparr>uh_batch_id = cb_id batch, uh_time = block_time e,
          lst_token_amount = requested_lst_token_amount batch,
          lst_applied_exchange_rate = lst_exchange_rate st,
          lst_withdraw_rate = lst_exchange_rate st, released = False\<rparr> (s_unstake_history s1)\<rparr>"
    and st': "st' = st\<lparr>total_staked_amount := total, last_unbonded_time := block_time e\<rparr>"
    by (auto simp: process_undelegations_for_batch_def outcome_simps Let_def)
  from pending obtain pd' where s1: "s1 = s\<lparr>s_pending_delegation := Some pd'\<rparr>"
    by (rule update_pending_frame)
  have "accounts e (0 + 0) s s'"
  proof (rule accounts_trans)
    show "accounts e 0 s s1" using accounts_pending [OF pending] by (simp add: unwrap_or_zero_def)
    show "accounts e 0 s1 s'" by (rule accounts_frame) (simp_all add: s' s1 st)
  qed
  then show "accounts e 0 s s'" by simp
  have "unat (requested_lst_token_amount batch) * unat (atomics (lst_exchange_rate st)) div 10 ^ 18 < 2 ^ 128"
    using fits unat_less [of un] by (simp add: decimal_multiplication_Inr)
  then show "new_histories e s s'"
    using cb by (auto simp: new_histories_def s' s1 owed_def split: if_splits)
qed (use run st in \<open>auto simp: process_undelegations_for_batch_def outcome_simps Let_def
  elim!: update_pending_frame\<close>)

lemma epoch_completion_accounts:
  assumes "check_for_unstake_batch_epoch_completion d e batch s = Inr (msgs, evs, batch', s')"
    and cb: "s_current_batch s = Some cb" "cb_id batch = cb_id cb"
  shows "accounts e 0 s s' \<and> new_histories e s s'"
  using assms(1)
proof (cases rule: epoch_completion_cases)
  case (waiting params st0 st)
  from waiting(2) actual_state_unclaimed [OF waiting(3)] show ?thesis
    by (intro conjI accounts_frame new_histories_same) (simp_all add: waiting(7,8))
next
  case (closed params st0 st st' s2)
  let ?s1 = "s\<lparr>s_state := Some st\<rparr>"
  note c = closing_accounts [OF closed(6) _ _ cb(2), simplified, OF cb(1)]
  have "accounts e (0 + 0 + 0) s s'"
  proof (rule accounts_trans [OF accounts_trans])
    show "accounts e 0 s ?s1"
      using closed(2) actual_state_unclaimed [OF closed(3)] by (rule accounts_state)
    show "accounts e 0 ?s1 s2" by (rule c(2))
    show "accounts e 0 s2 s'" by (rule accounts_frame) (simp_all add: closed(7) c(1,3))
  qed
  moreover have "new_histories e s s'"
    using c(4) by (simp add: new_histories_def closed(7))
  ultimately show ?thesis by simp
qed

lemma unstake_accounts:
  assumes "execute_unstake d e amount sender flow s = Inr (r, s')"
  shows "accounts e 0 s s' \<and> new_histories e s s'"
  using assms
proof (rule execute_unstake_InrD)
  fix batch batch1 s1 msgs evs batch2
  assume cb: "s_current_batch s = Some batch"
    and request: "update_unstake_batch_wait_list d batch sender amount s = Inr (batch1, s1)"
    and comp: "check_for_unstake_batch_epoch_completion d e batch1 s1 = Inr (msgs, evs, batch2, s')"
  from request obtain w where s1: "s1 = s\<lparr>s_unstake_wait_list := w\<rparr>" and same: "cb_id batch1 = cb_id batch"
    by (rule update_unstake_batch_wait_list_InrD) simp
  have "accounts e 0 s1 s' \<and> new_histories e s1 s'"
    by (rule epoch_completion_accounts [OF comp _ same]) (simp add: s1 cb)
  then show ?thesis by (simp add: accounts_def new_histories_def s1)
qed

lemma process_undelegations_accounts:
  "execute_process_undelegations d e s = Inr (r, s') \<Longrightarrow> accounts e 0 s s' \<and> new_histories e s s'"
  by (auto simp: execute_process_undelegations_def outcome_simps new_histories_same accounts_frame
      dest: epoch_completion_accounts split: if_splits)

lemma settings_accounts:
  "execute_update_params info pause el up s = Inr (r, s') \<Longrightarrow> accounts e 0 s s' \<and> new_histories e s s'"
  "execute_update_config d info no token reg disp s = Inr (r, s') \<Longrightarrow> accounts e 0 s s' \<and> new_histories e s s'"
  "execute_slashing d e s = Inr (r, s') \<Longrightarrow> accounts e 0 s s' \<and> new_histories e s s'"
  "execute_update_global_index d e s = Inr (r, s') \<Longrightarrow> accounts e 0 s s' \<and> new_histories e s s'"
proof -
  show "execute_update_params info pause el up s = Inr (r, s') \<Longrightarrow> accounts e 0 s s' \<and> new_histories e s s'"
    by (erule execute_update_params_InrD) (simp add: accounts_frame new_histories_same)
  show "execute_update_config d info no token reg disp s = Inr (r, s') \<Longrightarrow> accounts e 0 s s' \<and> new_histories e s s'"
    by (erule execute_update_config_InrD) (simp add: accounts_frame new_histories_same)
  show "execute_slashing d e s = Inr (r, s') \<Longrightarrow> accounts e 0 s s' \<and> new_histories e s s'"
    by (erule execute_slashing_InrD)
      (simp add: accounts_state new_histories_same actual_state_unclaimed)
  show "execute_update_global_index d e s = Inr (r, s') \<Longrightarrow> accounts e 0 s s' \<and> new_histories e s s'"
    by (auto simp: execute_update_global_index_def outcome_simps new_histories_same accounts_state)
qed

text \<open>Releases and withdrawals: what they set aside, pay and leave pending is within the balance
  that the hub was told.\<close>

definition within_balance :: "deps \<Rightarrow> env \<Rightarrow> hub_storage \<Rightarrow> hub_storage \<Rightarrow> nat \<Rightarrow> bool" where
  "within_balance d e s s' paid \<longleftrightarrow>
     s_pending_delegation s' = s_pending_delegation s \<and>
     (\<forall>p pd. s_parameters s = Some p \<longrightarrow> s_pending_delegation s = Some pd \<longrightarrow>
        (\<exists>bal st'. query_balance d (contract_address e) (staking_coin_denom p) = Inr bal
          \<and> s_state s' = Some st'
          \<and> unat (unclaimed_unstaked_balance st') + paid + pending_now pd (unat (block_height e))
              \<le> unat (coin_amount bal)))"

lemma free_within:
  assumes cut: "free_balance_and_cutoff d e s = Inr (params, free, cutoff)"
    and pd: "s_pending_delegation s = Some pd"
  shows "\<exists>bal. query_balance d (contract_address e) (staking_coin_denom params) = Inr bal
    \<and> unat (coin_amount bal) = unat free + pending_now pd (unat (block_height e))"
  using free_balance_and_cutoff_InrD(3) [OF cut] get_pending_now [OF _ pd, of e] by force

lemma withdraw_rate_new_histories:
  assumes "process_withdraw_rate d cutoff balance s = Inr (evs, left, s')" and "s_state s = Some st"
  shows "new_histories e s s'"
  by (rule process_withdraw_rate_effect [OF assms]) (auto simp: new_histories_def split: if_splits)

lemma requests_accounts:
  assumes "execute_process_withdraw_requests d e s = Inr (r, s')" and st: "s_state s = Some st"
  shows "within_balance d e s s' 0 \<and> new_histories e s s'"
  using assms(1)
proof (rule execute_process_withdraw_requests_InrD)
  fix params evs s1 st1 cutoff and free left unclaimed :: uint128
  assume cut: "free_balance_and_cutoff d e s = Inr (params, free, cutoff)"
    and rate: "process_withdraw_rate d cutoff free s = Inr (evs, left, s1)"
    and sum: "unat free = unat left + unat unclaimed"
    and s': "s' = s1\<lparr>s_state := Some (st1\<lparr>unclaimed_unstaked_balance := unclaimed\<rparr>)\<rparr>"
  obtain hist st2 where s1: "s1 = s\<lparr>s_unstake_history := hist, s_state := Some st2\<rparr>"
    using rate by (rule process_withdraw_rate_frame)
  have "new_histories e s s'"
    using withdraw_rate_new_histories [OF rate st] by (simp add: new_histories_def s')
  with free_within [OF cut] free_balance_and_cutoff_InrD(1) [OF cut] sum show ?thesis
    by (fastforce simp: within_balance_def s' s1)
qed

lemma withdraw_accounts:
  assumes run: "execute_withdraw_unstaked_impl d e info ids s = Inr (r, s')" and inv: "hub_inv s"
  shows "\<exists>p. s_parameters s = Some p
    \<and> within_balance d e s s' (pays (staking_coin_denom p) (messages r))
    \<and> delegates (messages r) = 0 \<and> new_histories e s s'"
proof -
  obtain st where st: "s_state s = Some st" and sorted: "sorted_keys (s_unstake_wait_list s)"
    using inv by (rule hub_invE) (simp add: queue_inv_def)
  from run sorted show ?thesis
  proof (rule execute_withdraw_unstaked_impl_InrD)
    fix params evs s1 wait st1 cutoff and free left paid unclaimed :: uint128
    assume cut: "free_balance_and_cutoff d e s = Inr (params, free, cutoff)"
      and rate: "process_withdraw_rate d cutoff free s = Inr (evs, left, s1)"
      and sum: "unat free = unat paid + unat left + unat unclaimed"
      and s': "s' = s1\<lparr>s_unstake_wait_list := wait,
         s_state := Some (st1\<lparr>unclaimed_unstaked_balance := unclaimed\<rparr>)\<rparr>"
      and msgs: "messages r = [BankSend (info_sender info)
        [\<lparr>coin_denom = staking_coin_denom params, coin_amount = paid\<rparr>]]"
    obtain hist st2 where s1: "s1 = s\<lparr>s_unstake_history := hist, s_state := Some st2\<rparr>"
      using rate by (rule process_withdraw_rate_frame)
    have hist: "new_histories e s s'"
      using withdraw_rate_new_histories [OF rate st] by (simp add: new_histories_def s')
    have "within_balance d e s s' (unat paid)"
      using free_within [OF cut] free_balance_and_cutoff_InrD(1) [OF cut] sum
      by (fastforce simp: within_balance_def s' s1)
    with hist free_balance_and_cutoff_InrD(1) [OF cut] show ?thesis
      by (simp add: msgs)
  qed
qed

lemma params_denom:
  assumes "hub_execute d e info msg s = Inr (r, s')" and "s_parameters s = Some p"
  shows "\<exists>p'. s_parameters s' = Some p' \<and> staking_coin_denom p' = staking_coin_denom p"
  using execute_settings [OF assms(1)]
proof
  assume "same_settings s s'"
  with assms(2) show ?thesis by (simp add: same_settings_def)
next
  assume "\<exists>c. s_config s = Some c \<and> info_sender info = hc_owner c"
  show ?thesis
    using assms(1)
  proof (cases rule: hub_execute_cases)
    case (1 pause el up)
    with assms(2) show ?thesis by (auto elim!: execute_update_params_InrD)
  next
    case (7 no token reg disp)
    with assms(2) show ?thesis by (auto elim!: execute_update_config_InrD)
  qed (use assms(2) in \<open>auto simp: same_settings_def dest!: settings\<close>)
qed

text \<open>Every message, seen from the accounts.\<close>

lemma hub_accounts:
  assumes run: "hub_execute d e info msg s = Inr (r, s')" and inv: "hub_inv s"
    and p: "s_parameters s = Some p"
  shows "new_histories e s s'
    \<and> (accounts e (delegates (messages r)) s s' \<and> pays (staking_coin_denom p) (messages r) = 0
         \<and> delegates (messages r) \<le> coins_of (staking_coin_denom p) (info_funds info)
       \<or> within_balance d e s s' (pays (staking_coin_denom p) (messages r))
         \<and> delegates (messages r) = 0)"
proof -
  obtain st where st: "s_state s = Some st" using inv by (rule hub_invE)
  have quiet: ?thesis if "accounts e 0 s s' \<and> new_histories e s s'"
    "moves_nothing (staking_coin_denom p) (messages r)"
    using that by (simp add: moves_nothing_def)
  from run show ?thesis
  proof (cases rule: hub_execute_cases)
    case (1 pause el up)
    show ?thesis using settings_accounts(1) [OF 1(2)] settings_move(2) [OF 1(2)] by (rule quiet)
  next
    case (2 ids)
    from withdraw_accounts [OF 2(2) inv] p show ?thesis by auto
  next
    case 3
    from withdraw_accounts [OF 3(2) inv] p show ?thesis by auto
  next
    case (4 kind)
    from stake_accounts [OF 4(2)] stake_moves [OF 4(2)] p show ?thesis by auto
  next
    case (5 amount sender flow)
    show ?thesis using unstake_accounts [OF 5(1)] unstake_moves [OF 5(1)] by (rule quiet)
  next
    case 6
    show ?thesis using settings_accounts(3) [OF 6(2)] settings_move(3) [OF 6(2)] by (rule quiet)
  next
    case (7 no token reg disp)
    show ?thesis using settings_accounts(2) [OF 7(2)] settings_move(1) [OF 7(2)] by (rule quiet)
  next
    case (8 src reds)
    then have "execute_redelegate_proxy e info src reds s = Inr (r, s')"
      using run by (auto simp: hub_execute_def outcome_simps split: if_splits)
    from settings_move(4) [OF this] 8(2) show ?thesis
      by (intro quiet) (simp_all add: accounts_frame new_histories_same)
  next
    case 9
    show ?thesis using settings_accounts(4) [OF 9(2)] settings_move(5) [OF 9(2)] by (rule quiet)
  next
    case 10
    show ?thesis using process_undelegations_accounts [OF 10(2)] settings_move(6) [OF 10(2)] by (rule quiet)
  next
    case 11
    from requests_accounts [OF 11(2) st] settings_move(7) [OF 11(2)] show ?thesis
      by (simp add: moves_nothing_def)
  qed
qed

section \<open>The hub with its coins\<close>

record funded_hub =
  fh_store :: hub_storage
  fh_height :: nat
  fh_time :: nat
  fh_cash :: nat      \<comment> \<open>the coins of the staking denomination at the hub's address\<close>
  fh_queued :: nat    \<comment> \<open>those of them that wait to be delegated\<close>

definition denom_of :: "hub_storage \<Rightarrow> string" where
  "denom_of s = (case s_parameters s of None \<Rightarrow> [] | Some p \<Rightarrow> staking_coin_denom p)"

text \<open>The chain answers in the present block, and the balance with the coins that are there, to
  which those of the message have been added.\<close>

definition truthful :: "deps \<Rightarrow> env \<Rightarrow> message_info \<Rightarrow> funded_hub \<Rightarrow> bool" where
  "truthful d e info x \<longleftrightarrow> unat (block_height e) = fh_height x \<and> unat (block_time e) = fh_time x
     \<and> (\<exists>bal. query_balance d (contract_address e) (denom_of (fh_store x)) = Inr bal
          \<and> unat (coin_amount bal) = fh_cash x + coins_of (denom_of (fh_store x)) (info_funds info))"

text \<open>The owner has configured the staking epochs of the chain.\<close>

inductive funded_initial :: "nat \<Rightarrow> nat \<Rightarrow> funded_hub \<Rightarrow> bool" for start len where
  "hub_instantiate d e info msg empty_hub_storage = Inr (r, s) \<Longrightarrow>
   unat (im_staking_epoch_start_block_height msg) = start \<Longrightarrow>
   unat (im_staking_epoch_length_blocks msg) = len \<Longrightarrow> start \<le> unat (block_height e) \<Longrightarrow>
   funded_initial start len \<lparr>fh_store = s, fh_height = unat (block_height e),
     fh_time = unat (block_time e), fh_cash = cash, fh_queued = 0\<rparr>"

text \<open>At the end of a staking epoch the queue is run: every queued delegation takes its coins, or
  fails and leaves them.\<close>

inductive funded_step :: "(hub_execute_msg \<Rightarrow> bool) \<Rightarrow> nat \<Rightarrow> nat \<Rightarrow> funded_hub \<Rightarrow> funded_hub \<Rightarrow> bool"
  for admitted start len where
  funded_message: "admitted msg \<Longrightarrow> truthful d e info x \<Longrightarrow>
    hub_execute d e info msg (fh_store x) = Inr (r, s') \<Longrightarrow> denom = denom_of (fh_store x) \<Longrightarrow>
    pays denom (messages r) + cash = fh_cash x + coins_of denom (info_funds info) \<Longrightarrow>
    funded_step admitted start len x (x\<lparr>fh_store := s', fh_cash := cash,
      fh_queued := fh_queued x + delegates (messages r)\<rparr>)"
| funded_migrate: "hub_migrate d (fh_store x) = Inr (r, s') \<Longrightarrow>
    funded_step admitted start len x (x\<lparr>fh_store := s'\<rparr>)"
| coins_arrive: "funded_step admitted start len x (x\<lparr>fh_cash := fh_cash x + n\<rparr>)"
| next_block: "fh_height x \<le> h \<Longrightarrow> fh_time x \<le> t \<Longrightarrow> cash \<le> fh_cash x \<Longrightarrow>
    (if chain_epoch start len h = chain_epoch start len (fh_height x)
     then queued = fh_queued x \<and> cash = fh_cash x
     else queued = 0 \<and> fh_cash x \<le> cash + fh_queued x) \<Longrightarrow>
    funded_step admitted start len x
      (x\<lparr>fh_height := h, fh_time := t, fh_cash := cash, fh_queued := queued\<rparr>)"

inductive_cases funded_initialE: "funded_initial start len x"
inductive_cases funded_stepE: "funded_step admitted start len x y"

text \<open>Histories are worth an amount, and are as old as their batches.\<close>

definition histories_ok :: "nat \<Rightarrow> hub_storage \<Rightarrow> bool" where
  "histories_ok clock s \<longleftrightarrow>
     (\<forall>b h. may_load (s_unstake_history s) b = Some h \<longrightarrow> owed h < 2 ^ 128 \<and> unat (uh_time h) \<le> clock
        \<and> (\<forall>b' h'. may_load (s_unstake_history s) b' = Some h' \<longrightarrow> unat b \<le> unat b' \<longrightarrow>
             uh_time h \<le> uh_time h'))"

definition funded_inv :: "(hub_execute_msg \<Rightarrow> bool) \<Rightarrow> nat \<Rightarrow> nat \<Rightarrow> funded_hub \<Rightarrow> bool" where
  "funded_inv admitted start len x \<longleftrightarrow> hub_inv (fh_store x) \<and> histories_ok (fh_time x) (fh_store x)
     \<and> ((\<forall>m. admitted m \<longrightarrow> repeats_no_batch m) \<longrightarrow> solvent (fh_store x))
     \<and> (\<exists>st pd. s_state (fh_store x) = Some st \<and> s_pending_delegation (fh_store x) = Some pd
         \<and> records start len (fh_height x) pd (fh_queued x)
         \<and> unat (unclaimed_unstaked_balance st) + fh_queued x \<le> fh_cash x)"

lemma released_same [simp]:
  "owed (h\<lparr>released := r\<rparr>) = owed h" "uh_time (h\<lparr>released := r\<rparr>) = uh_time h"
  by (simp_all add: owed_def)

lemma histories_step:
  assumes ok: "histories_ok clock s" and inv: "hub_inv s" and new: "new_histories e s s'"
    and clock: "unat (block_time e) = clock"
  shows "histories_ok clock s'"
proof -
  obtain cb lp where cb: "s_current_batch s = Some cb" and "queue_inv s cb lp"
    using inv by (rule hub_invE)
  then have below: "unat b < unat (cb_id cb)" if "may_load (s_unstake_history s) b = Some h" for b h
    using that by (auto simp: queue_inv_def)
  have old: "(\<exists>h0. may_load (s_unstake_history s) b = Some h0 \<and> owed h = owed h0 \<and> uh_time h = uh_time h0)
      \<or> b = cb_id cb \<and> uh_time h = block_time e \<and> owed h < 2 ^ 128"
    if "may_load (s_unstake_history s') b = Some h" for b h
    using new that cb unfolding new_histories_def by fastforce
  show ?thesis
    unfolding histories_ok_def
  proof (intro allI impI conjI)
    fix b h assume h: "may_load (s_unstake_history s') b = Some h"
    show "owed h < 2 ^ 128" "unat (uh_time h) \<le> clock"
      using old [OF h] ok clock by (auto simp: histories_ok_def)
    fix b' h' assume h': "may_load (s_unstake_history s') b' = Some h'" and le: "unat b \<le> unat b'"
    from old [OF h] old [OF h'] show "uh_time h \<le> uh_time h'"
    proof (elim disjE exE conjE)
      fix h0 h0' assume "may_load (s_unstake_history s) b = Some h0" "may_load (s_unstake_history s) b' = Some h0'"
        "uh_time h = uh_time h0" "uh_time h' = uh_time h0'"
      with ok le show ?thesis by (simp add: histories_ok_def)
    next
      fix h0 assume "may_load (s_unstake_history s) b = Some h0" "uh_time h = uh_time h0"
        "uh_time h' = block_time e"
      with ok clock show ?thesis by (simp add: histories_ok_def word_le_nat_alt)
    next
      fix h0 assume "b = cb_id cb" "may_load (s_unstake_history s) b' = Some h0"
      with below le show ?thesis by fastforce
    qed simp
  qed
qed

lemma funded_message_inv:
  assumes inv: "funded_inv admitted start len x" and "admitted msg" and true: "truthful d e info x"
    and run: "hub_execute d e info msg (fh_store x) = Inr (r, s')"
    and denom: "denom = denom_of (fh_store x)"
    and cash: "pays denom (messages r) + cash = fh_cash x + coins_of denom (info_funds info)"
  shows "funded_inv admitted start len (x\<lparr>fh_store := s', fh_cash := cash,
      fh_queued := fh_queued x + delegates (messages r)\<rparr>)"
proof -
  let ?s = "fh_store x"
  have hub: "hub_inv ?s" using inv by (simp add: funded_inv_def)
  obtain p where p: "s_parameters ?s = Some p" using hub by (rule hub_invE)
  have dn: "denom = staking_coin_denom p" by (simp add: denom denom_of_def p)
  obtain st pd where st: "s_state ?s = Some st" and pd: "s_pending_delegation ?s = Some pd"
    and rec: "records start len (fh_height x) pd (fh_queued x)"
    and cover: "unat (unclaimed_unstaked_balance st) + fh_queued x \<le> fh_cash x"
    using inv by (auto simp: funded_inv_def)
  have height: "unat (block_height e) = fh_height x" and time: "unat (block_time e) = fh_time x"
    using true by (simp_all add: truthful_def)
  note eff = hub_accounts [OF run hub p, folded dn]
  have "\<exists>st' pd'. s_state s' = Some st' \<and> s_pending_delegation s' = Some pd'
      \<and> records start len (fh_height x) pd' (fh_queued x + delegates (messages r))
      \<and> unat (unclaimed_unstaked_balance st') + (fh_queued x + delegates (messages r)) \<le> cash"
  proof (cases "accounts e (delegates (messages r)) ?s s' \<and> pays denom (messages r) = 0
      \<and> delegates (messages r) \<le> coins_of denom (info_funds info)")
    case True
    then obtain st' pd' where "s_state s' = Some st'" "s_pending_delegation s' = Some pd'"
      "unclaimed_unstaked_balance st' = unclaimed_unstaked_balance st"
      "records start len (fh_height x) pd' (fh_queued x + delegates (messages r))"
      using st pd rec unfolding accounts_def height by blast
    with True cover cash show ?thesis by fastforce
  next
    case False
    then have within: "within_balance d e ?s s' (pays denom (messages r))" "delegates (messages r) = 0"
      using eff by auto
    then obtain bal st' where "query_balance d (contract_address e) denom = Inr bal" "s_state s' = Some st'"
      "unat (unclaimed_unstaked_balance st') + pays denom (messages r) + pending_now pd (fh_height x)
         \<le> unat (coin_amount bal)" "s_pending_delegation s' = Some pd"
      using p pd dn height by (auto simp: within_balance_def)
    moreover have "pending_now pd (fh_height x) = fh_queued x" using rec by (simp add: records_def)
    ultimately show ?thesis
      using true within(2) rec cash by (auto simp: truthful_def denom)
  qed
  moreover have "histories_ok (fh_time x) s'"
    using histories_step [OF _ hub _ time] inv eff by (auto simp: funded_inv_def)
  ultimately show ?thesis
    using inv execute_keeps [OF run hub] assms(2) by (simp add: funded_inv_def)
qed

lemma funded_invariant:
  "invariant_of (funded_initial start len) (funded_step admitted start len) (funded_inv admitted start len)"
proof
  show "funded_inv admitted start len x" if "funded_initial start len x" for x
    using that
  proof (rule funded_initialE)
    fix d e info msg r s cash
    assume run: "hub_instantiate d e info msg empty_hub_storage = Inr (r, s)"
      and ep: "unat (im_staking_epoch_start_block_height msg) = start"
        "unat (im_staking_epoch_length_blocks msg) = len" "start \<le> unat (block_height e)"
      and x: "x = \<lparr>fh_store = s, fh_height = unat (block_height e), fh_time = unat (block_time e),
        fh_cash = cash, fh_queued = 0\<rparr>"
    obtain st pd where s: "s_state s = Some st" "s_pending_delegation s = Some pd"
      "s_unstake_history s = []" "unclaimed_unstaked_balance st = 0"
      and pd: "staking_epoch_start_block_height pd = im_staking_epoch_start_block_height msg"
        "staking_epoch_length_blocks pd = im_staking_epoch_length_blocks msg"
        "pending_staking_amount pd = 0"
      using run unfolding hub_instantiate_def
      by (elim outcome_elims) (auto simp: empty_hub_storage_def)
    have "\<exists>k. start = start + k * len" by (rule exI [of _ 0]) simp
    then have "records start len (unat (block_height e)) pd 0"
      using ep by (simp add: records_def pending_now_def pd)
    moreover have "hub_inv s \<and> solvent s"
      using run by (intro initial_inv hub_initial.intros)
    ultimately show ?thesis
      using s by (simp add: funded_inv_def x histories_ok_def may_load_def)
  qed
  show "funded_inv admitted start len y"
    if inv: "funded_inv admitted start len x" and "funded_step admitted start len x y" for x y
    using that(2)
  proof cases
    case (funded_message msg d e info r s' denom cash)
    from funded_message_inv [OF inv funded_message(2-6)] show ?thesis by (simp add: funded_message(1))
  next
    case (funded_migrate d r s')
    from funded_migrate(2) obtain ci where s': "s' = (fh_store x)\<lparr>s_contract_info := ci\<rparr>"
      by (auto simp: hub_migrate_def outcome_simps)
    from migrate_keeps [OF funded_migrate(2)] inv show ?thesis
      by (auto simp: funded_migrate(1) funded_inv_def keeps_def s' histories_ok_def)
  next
    case (coins_arrive n)
    with inv show ?thesis by (fastforce simp: funded_inv_def)
  next
    case (next_block h t cash queued)
    from inv obtain st pd where st: "s_state (fh_store x) = Some st"
      "s_pending_delegation (fh_store x) = Some pd"
      and rec: "records start len (fh_height x) pd (fh_queued x)"
      and cover: "unat (unclaimed_unstaked_balance st) + fh_queued x \<le> fh_cash x"
      by (auto simp: funded_inv_def)
    have "histories_ok t (fh_store x)"
      using inv next_block(3) by (fastforce simp: funded_inv_def histories_ok_def)
    with records_block [OF rec next_block(2)] st cover inv next_block(5) show ?thesis
      by (auto simp: next_block(1) funded_inv_def split: if_splits)
  qed
qed

lemmas funded_reachable = invariant_of.inv_reachable [OF funded_invariant]

section \<open>Processing the withdraw requests never fails\<close>

lemma unprocessed_loop_total:
  assumes "\<And>b h. may_load (s_unstake_history s) b = Some h \<Longrightarrow> owed h < 2 ^ 128 \<and> unat b + 1 < 2 ^ 64"
  shows "\<exists>hs left. unprocessed_loop s cutoff batch_id remaining histories = Inr (hs, left)"
  using assms
proof (induction s cutoff batch_id remaining histories rule: unprocessed_loop.induct)
  case (1 s cutoff batch_id remaining histories)
  note unfold = unprocessed_loop.simps [of s cutoff batch_id remaining histories]
  show ?case
  proof (cases "may_load (s_unstake_history s) batch_id")
    case None
    then show ?thesis by (simp add: unfold read_unstake_history_def)
  next
    case (Some h)
    then have read: "read_unstake_history s batch_id = Inr h"
      by (simp add: read_unstake_history_def)
    have fits: "owed h < 2 ^ 128" "unat batch_id + 1 < 2 ^ 64" using 1(2) [OF Some] by simp_all
    obtain required :: uint128 where
      req: "decimal_multiplication (lst_token_amount h) (lst_withdraw_rate h) = (Inr required :: uint128 lst_result)"
      using decimal_multiplication_fits [of "lst_token_amount h" "lst_withdraw_rate h"] fits(1)
      by (auto simp: owed_def)
    show ?thesis
    proof (cases "\<not> cutoff < uh_time h \<and> \<not> released h \<and> required \<le> remaining")
      case True
      then have sub: "checked_sub_or_overflow remaining required = Inr (remaining - required)"
        by (simp add: checked_sub_or_overflow_def checked_sub_fits)
      have inc: "uadd batch_id 1 = (Inr (batch_id + 1) :: u64 lst_result)"
        using fits(2) by (intro uadd_fits) simp
      have "\<exists>hs left. unprocessed_loop s cutoff (batch_id + 1) (remaining - required)
          (histories @ [(batch_id, h)]) = Inr (hs, left)"
        using 1(1) [OF read _ _ req _ sub inc] True 1(2) by blast
      with True show ?thesis by (simp add: unfold read req sub inc)
    next
      case False
      then show ?thesis by (auto simp: unfold read req)
    qed
  qed
qed

lemma process_withdraw_rate_total:
  assumes inv: "hub_inv s" and hist: "histories_ok clock s" and st: "s_state s = Some st"
    and covered: "unat (unclaimed_unstaked_balance st) \<le> unat balance"
  shows "\<exists>evs left s'. process_withdraw_rate d cutoff balance s = Inr (evs, left, s')"
proof -
  obtain cb where "queue_inv s cb (last_processed_batch st)"
    using inv st by (auto elim!: hub_invE)
  then have below: "unat b < unat (cb_id cb)" if "may_load (s_unstake_history s) b = Some h" for b h
    using that by (auto simp: queue_inv_def)
  have lp: "unat (last_processed_batch st) < unat (cb_id cb)"
    using \<open>queue_inv s cb (last_processed_batch st)\<close> by (simp add: queue_inv_def)
  have top: "unat (cb_id cb) < 2 ^ 64" using unat_less [of "cb_id cb"] by simp
  have "uadd (last_processed_batch st) 1 = (Inr (last_processed_batch st + 1) :: u64 lst_result)"
    using lp top by (intro uadd_fits) simp
  moreover have "\<exists>hs left. unprocessed_loop s cutoff (last_processed_batch st + 1)
      (balance - unclaimed_unstaked_balance st) [] = Inr (hs, left)"
    using hist below top by (intro unprocessed_loop_total) (fastforce simp: histories_ok_def)
  moreover have "checked_sub_or_overflow balance (unclaimed_unstaked_balance st)
      = Inr (balance - unclaimed_unstaked_balance st)"
    using covered by (simp add: checked_sub_or_overflow_def checked_sub_fits word_le_nat_alt)
  ultimately obtain hs left where
    unprocessed: "get_unprocessed_histories s (last_processed_batch st) cutoff
      (balance - unclaimed_unstaked_balance st) = Inr (hs, left)"
    and sub: "checked_sub_or_overflow balance (unclaimed_unstaked_balance st)
      = Inr (balance - unclaimed_unstaked_balance st)"
    by (auto simp: get_unprocessed_histories_def)
  obtain hist' where "for_each release_batch hs (st, s)
      = (Inr (st\<lparr>last_processed_batch := (if hs = [] then last_processed_batch st else fst (last hs))\<rparr>,
             s\<lparr>s_unstake_history := hist'\<rparr>) :: _ lst_result)"
    using release_loop_Inr by blast
  with unprocessed sub st show ?thesis
    by (auto simp: process_withdraw_rate_def load_state_def update_state_def Let_def)
qed

text \<open>In a reachable state the coins cover everything that processing subtracts.\<close>

lemma requests_total:
  assumes inv: "funded_inv admitted start len x" and true: "truthful d e info x"
    and p: "s_parameters (fh_store x) = Some p" "unat (unstaking_period p) \<le> fh_time x"
    and st: "s_state (fh_store x) = Some st"
  obtains free :: uint128 and left :: uint128 and cutoff r evs s1 s' where
    "free_balance_and_cutoff d e (fh_store x) = Inr (p, free, cutoff)"
    "unat cutoff = fh_time x - unat (unstaking_period p)"
    "unat free + fh_queued x = fh_cash x + coins_of (staking_coin_denom p) (info_funds info)"
    "process_withdraw_rate d cutoff free (fh_store x) = Inr (evs, left, s1)"
    "execute_process_withdraw_requests d e (fh_store x) = Inr (r, s')"
    "s_unstake_history s' = s_unstake_history s1" "s_unstake_wait_list s' = s_unstake_wait_list s1"
proof -
  let ?s = "fh_store x"
  have dn: "denom_of ?s = staking_coin_denom p" by (simp add: denom_of_def p(1))
  obtain pd where pd: "s_pending_delegation ?s = Some pd"
    and rec: "records start len (fh_height x) pd (fh_queued x)"
    and cover: "unat (unclaimed_unstaked_balance st) + fh_queued x \<le> fh_cash x"
    using inv st by (auto simp: funded_inv_def)
  have height: "unat (block_height e) = fh_height x" and time: "unat (block_time e) = fh_time x"
    using true by (simp_all add: truthful_def)
  obtain bal where bal: "query_balance d (contract_address e) (staking_coin_denom p) = Inr bal"
    "unat (coin_amount bal) = fh_cash x + coins_of (staking_coin_denom p) (info_funds info)"
    using true by (auto simp: truthful_def dn)
  obtain ps pu where pend: "get_pending_delegation_amount e ?s = Inr (ps, pu)"
    using get_pending_total [OF pd, of e] rec height by (auto simp: records_def word_le_nat_alt)
  have ps: "unat ps = fh_queued x"
    using get_pending_now [OF pend pd] rec height by (simp add: records_def)
  have le: "ps \<le> coin_amount bal" using cover bal(2) ps by (simp add: word_le_nat_alt)
  let ?free = "coin_amount bal - ps" and ?cutoff = "block_time e - unstaking_period p"
  have period: "unstaking_period p \<le> block_time e" using p(2) time by (simp add: word_le_nat_alt)
  have cut: "free_balance_and_cutoff d e ?s = Inr (p, ?free, ?cutoff)"
    using p(1) bal(1) pend le period
    by (simp add: free_balance_and_cutoff_def load_parameters_def usub_fits query_std_def from_err_def
        checked_sub_or_overflow_def checked_sub_fits Let_def)
  have free: "unat ?free + fh_queued x = fh_cash x + coins_of (staking_coin_denom p) (info_funds info)"
    using le bal(2) ps by (simp add: unat_sub_exact word_le_nat_alt)
  have "unat (unclaimed_unstaked_balance st) \<le> unat ?free"
    using cover free by linarith
  from process_withdraw_rate_total [OF _ _ st this, of "fh_time x" d ?cutoff] inv obtain evs left s1 where
    rate: "process_withdraw_rate d ?cutoff ?free ?s = Inr (evs, left, s1)"
    by (auto simp: funded_inv_def)
  obtain run where "unat ?free = unat (unclaimed_unstaked_balance st) + run + unat left"
    using process_withdraw_rate_effect [OF rate st] by metis
  then have "left \<le> ?free" by (simp add: word_le_nat_alt)
  moreover obtain hist st1 where "s1 = ?s\<lparr>s_unstake_history := hist, s_state := Some st1\<rparr>"
    using rate by (rule process_withdraw_rate_frame)
  ultimately obtain r s' where "execute_process_withdraw_requests d e ?s = Inr (r, s')"
    "s_unstake_history s' = s_unstake_history s1" "s_unstake_wait_list s' = s_unstake_wait_list s1"
    using cut rate
    by (simp add: execute_process_withdraw_requests_def save_unclaimed_balance_def load_state_def
        checked_sub_or_overflow_def checked_sub_fits)
  moreover have "unat ?cutoff = fh_time x - unat (unstaking_period p)"
    using period time by (simp add: unat_sub_exact)
  ultimately show thesis using that [OF cut _ free rate] by blast
qed

section \<open>Matured batches\<close>

text \<open>What an entry is worth when its batch is released or has matured, and what is still to be
  set aside for matured batches.\<close>

definition matured_worth :: "hub_storage \<Rightarrow> nat \<Rightarrow> addr \<Rightarrow> u64 \<Rightarrow> nat" where
  "matured_worth s cutoff a b =
     (case (may_load (s_unstake_wait_list s) (a, b), may_load (s_unstake_history s) b) of
        (Some v, Some h) \<Rightarrow>
          if released h \<or> unat (uh_time h) \<le> cutoff
          then unat v * unat (atomics (lst_applied_exchange_rate h)) div 10 ^ 18 else 0
      | _ \<Rightarrow> 0)"

definition outstanding :: "hub_storage \<Rightarrow> nat \<Rightarrow> nat" where
  "outstanding s cutoff = smap.weight (\<lambda>b h.
     if \<not> released h \<and> unat (uh_time h) \<le> cutoff then owed h else 0) (s_unstake_history s)"

lemma outstanding_ge:
  assumes "sorted_keys (s_unstake_history s)" and "distinct (map fst xs)"
    and stored: "\<And>b h. (b, h) \<in> set xs \<Longrightarrow>
      may_load (s_unstake_history s) b = Some h \<and> \<not> released h \<and> unat (uh_time h) \<le> cutoff"
  shows "(\<Sum>(b, h) \<leftarrow> xs. owed h) \<le> outstanding s cutoff"
proof -
  let ?m = "s_unstake_history s"
  let ?f = "\<lambda>(b :: u64) h. if \<not> released h \<and> unat (uh_time h) \<le> cutoff then owed h else 0"
  have at: "owed h = smap.at ?f ?m b" if "(b, h) \<in> set xs" for b h
    using stored [OF that] by (simp add: smap.at_def)
  have "(\<Sum>(b, h) \<leftarrow> xs. owed h) = (\<Sum>b \<leftarrow> map fst xs. smap.at ?f ?m b)"
    using at by (auto simp: comp_def intro!: arg_cong [where f = sum_list] map_cong)
  also have "\<dots> = (\<Sum>b \<in> fst ` set xs. smap.at ?f ?m b)"
    using sum_list_distinct_conv_sum_set [OF assms(2)] by simp
  also have "\<dots> \<le> (\<Sum>b \<in> dom (may_load ?m). smap.at ?f ?m b)"
    using stored by (intro sum_mono2 smap.finite_dom [OF assms(1)]) auto
  finally show ?thesis
    by (simp add: outstanding_def smap.weight_at [OF assms(1)])
qed

lemma releasable_run_time:
  "releasable_run s c n run \<Longrightarrow> (b, h) \<in> set run \<Longrightarrow> unat (uh_time h) \<le> unat c"
  by (induction s c n run rule: releasable_run.induct) (auto simp: word_le_nat_alt)

text \<open>When the coins for the matured batches are there, exactly these are released afterwards.\<close>

lemma all_matured_released:
  assumes inv: "hub_inv s" and hist: "histories_ok clock s" and st: "s_state s = Some st"
    and rate: "process_withdraw_rate d cutoff free s = Inr (evs, left, s1)"
    and enough: "unat (unclaimed_unstaked_balance st) + outstanding s (unat cutoff) \<le> unat free"
    and h: "may_load (s_unstake_history s) b = Some h"
  shows "\<exists>h'. may_load (s_unstake_history s1) b = Some h'
    \<and> lst_applied_exchange_rate h' = lst_applied_exchange_rate h
    \<and> (released h' \<longleftrightarrow> released h \<or> unat (uh_time h) \<le> unat cutoff)"
proof -
  obtain cb where q: "queue_inv s cb (last_processed_batch st)"
    using inv st by (auto elim!: hub_invE)
  let ?n = "unat (last_processed_batch st) + 1"
  obtain run where run: "releasable_run s cutoff ?n run"
    and stops: "run_stops s cutoff (?n + length run) left"
    and free: "unat free = unat (unclaimed_unstaked_balance st) + (\<Sum>(b, h) \<leftarrow> run. owed h) + unat left"
    and hist1: "\<And>b. may_load (s_unstake_history s1) b =
       (if b \<in> fst ` set run then map_option (\<lambda>h. h\<lparr>released := True\<rparr>) (may_load (s_unstake_history s) b)
        else may_load (s_unstake_history s) b)"
    by (rule process_withdraw_rate_effect [OF rate st], rule that)
  have mem: "may_load (s_unstake_history s) b = Some h \<and> \<not> released h \<and> unat (uh_time h) \<le> unat cutoff"
    if "(b, h) \<in> set run" for b h
    using releasable_run_stored [OF run that] releasable_run_time [OF run that] by simp
  show ?thesis
  proof (cases "b \<in> fst ` set run")
    case True
    then obtain h0 where "(b, h0) \<in> set run" by auto
    from mem [OF this] h True show ?thesis by (simp add: hist1)
  next
    case False
    have "cutoff < uh_time h" if unreleased: "\<not> released h"
    proof (rule ccontr)
      assume "\<not> cutoff < uh_time h"
      then have old: "uh_time h \<le> cutoff" by simp
      have lp: "unat (last_processed_batch st) < unat b"
        using q h unreleased by (force simp: queue_inv_def not_le)
      have "?n + length run \<le> 2 ^ 64"
      proof (cases "run = []")
        case True
        then show ?thesis using unat_less [of b] lp by simp
      next
        case False
        from releasable_run_last [OF run False] unat_less [of "fst (last run)"] show ?thesis by simp
      qed
      note keys = releasable_run_keys [OF run this]
      define k where "k = ?n + length run"
      have le: "k \<le> unat b" using keys [of b] False lp by (auto simp: k_def)
      let ?b = "of_nat k :: u64"
      have n: "unat ?b = k"
        using le unat_less [of b] by (simp add: unat_of_nat)
      have "1 \<le> unat ?b \<and> unat ?b < unat (cb_id cb)"
      proof
        show "1 \<le> unat ?b" by (simp only: n) (simp add: k_def)
        have "unat b < unat (cb_id cb)" using q h by (auto simp: queue_inv_def)
        with le show "unat ?b < unat (cb_id cb)" by (simp only: n)
      qed
      then obtain h1 where h1: "may_load (s_unstake_history s) ?b = Some h1"
        using q unfolding queue_inv_def by blast
      have fresh: "\<not> released h1" "uh_time h1 \<le> cutoff"
      proof -
        show "\<not> released h1" using q h1 n by (force simp: queue_inv_def k_def)
        have "uh_time h1 \<le> uh_time h" using hist h1 h le n by (simp add: histories_ok_def)
        with old show "uh_time h1 \<le> cutoff" by simp
      qed
      have short: "unat left < owed h1"
        using stops [folded k_def, unfolded run_stops_def, rule_format, OF n] h1 fresh by auto
      have "?b \<notin> fst ` set run"
        using keys [of ?b] n by (simp add: k_def)
      then have "(\<Sum>(b, h) \<leftarrow> run @ [(?b, h1)]. owed h) \<le> outstanding s (unat cutoff)"
        using q releasable_run_distinct [OF run] mem h1 fresh
        by (intro outstanding_ge) (auto simp: queue_inv_def word_le_nat_alt)
      with enough free short show False by simp
    qed
    with False h show ?thesis by (auto simp: hist1 word_less_nat_alt)
  qed
qed

lemma matured_claims:
  assumes inv: "hub_inv s" and hist: "histories_ok clock s" and st: "s_state s = Some st"
    and rate: "process_withdraw_rate d cutoff free s = Inr (evs, left, s1)"
    and enough: "unat (unclaimed_unstaked_balance st) + outstanding s (unat cutoff) \<le> unat free"
  shows "user_claim s1 a b = matured_worth s (unat cutoff) a b"
proof -
  obtain hist' st1 where s1: "s1 = s\<lparr>s_unstake_history := hist', s_state := Some st1\<rparr>"
    using rate by (rule process_withdraw_rate_frame)
  have same: "s_unstake_wait_list s1 = s_unstake_wait_list s" by (simp add: s1)
  show ?thesis
  proof (cases "may_load (s_unstake_history s) b")
    case None
    have "may_load (s_unstake_history s1) b = None"
      by (rule process_withdraw_rate_effect [OF rate st]) (simp add: None)
    with None show ?thesis
      by (auto simp: user_claim_def claim_def matured_worth_def same split: option.splits)
  next
    case (Some h)
    from all_matured_released [OF assms Some] Some show ?thesis
      by (auto simp: user_claim_def claim_def matured_worth_def same split: option.splits)
  qed
qed

section \<open>Properties\<close>

text \<open>
  C4: The coins are there. In every state that the hub reaches with its coins, whatever messages,
  gifts and blocks came before, the coins at its address cover the unclaimed balance together
  with the stakes that wait in the queue of the chain. If no admitted message repeats a batch,
  the unclaimed balance in turn covers everything owed for released batches. A hub that paid out
  coins of a stake, or set aside coins twice, would fail this.
\<close>

theorem coins_cover_claims:
  assumes "reachable (funded_initial start len) (funded_step admitted start len) x"
  shows "\<exists>st. s_state (fh_store x) = Some st
    \<and> unat (unclaimed_unstaked_balance st) + fh_queued x \<le> fh_cash x
    \<and> ((\<forall>m. admitted m \<longrightarrow> repeats_no_batch m) \<longrightarrow> claims (fh_store x) + fh_queued x \<le> fh_cash x)"
  using funded_reachable [OF assms] by (fastforce simp: funded_inv_def solvent_def)

text \<open>
  Matured claims are paid. Take any reachable state of the hub with its coins in which no
  message repeated a batch, and suppose the coins for all matured batches have come back from
  the chain. Then every user whose entries in released or matured batches are worth something can
  withdraw at once, unless the hub is paused, and is sent exactly that worth: no other user, no
  earlier message and no overflow can prevent it.
\<close>

theorem matured_claims_are_paid:
  assumes "reachable (funded_initial start len) (funded_step repeats_no_batch start len) x"
    and "truthful d e info x"
    and "s_parameters (fh_store x) = Some p" "\<not> paused p" "unat (unstaking_period p) \<le> fh_time x"
    and "s_state (fh_store x) = Some st"
    and "cutoff = fh_time x - unat (unstaking_period p)"
    and "unat (unclaimed_unstaked_balance st) + fh_queued x + outstanding (fh_store x) cutoff \<le> fh_cash x"
    and "due = (\<Sum>b \<leftarrow> all_batches (fh_store x) (info_sender info).
      matured_worth (fh_store x) cutoff (info_sender info) b)" "0 < due"
  shows "\<exists>r s' paid. hub_execute d e info WithdrawUnstaked (fh_store x) = Inr (r, s')
    \<and> messages r = [BankSend (info_sender info)
        [\<lparr>coin_denom = staking_coin_denom p, coin_amount = paid\<rparr>]] \<and> unat paid = due"
proof -
  let ?s = "fh_store x" and ?a = "info_sender info"
  have inv: "funded_inv repeats_no_batch start len x" by (rule funded_reachable [OF assms(1)])
  then have hub: "hub_inv ?s" "solvent ?s" and hist: "histories_ok (fh_time x) ?s"
    by (simp_all add: funded_inv_def)
  obtain free left :: uint128 and cut r1 evs s1 s2 where
    cut: "free_balance_and_cutoff d e ?s = Inr (p, free, cut)" "unat cut = cutoff"
    and free: "unat free + fh_queued x = fh_cash x + coins_of (staking_coin_denom p) (info_funds info)"
    and rate: "process_withdraw_rate d cut free ?s = Inr (evs, left, s1)"
    and requests: "execute_process_withdraw_requests d e ?s = Inr (r1, s2)"
    and same: "s_unstake_history s2 = s_unstake_history s1" "s_unstake_wait_list s2 = s_unstake_wait_list s1"
    by (rule requests_total [OF inv assms(2,3,5,6)]) (simp add: assms(7))
  have "unat (unclaimed_unstaked_balance st) + outstanding ?s (unat cut) \<le> unat free"
    using assms(8) free cut(2) by simp
  note worth = matured_claims [OF hub(1) hist assms(6) rate this, unfolded cut(2)]
  obtain hist' st1 where "s1 = ?s\<lparr>s_unstake_history := hist', s_state := Some st1\<rparr>"
    using rate by (rule process_withdraw_rate_frame)
  with same have "all_batches s2 ?a = all_batches ?s ?a" by (simp add: all_batches_def)
  moreover have "user_claim s2 ?a b = user_claim s1 ?a b" for b
    by (simp add: user_claim_def claim_def same cong: option.case_cong)
  ultimately have "due = (\<Sum>b \<leftarrow> all_batches s2 ?a. user_claim s2 ?a b)"
    by (simp add: assms(9) worth)
  from solvent_withdrawal [OF hub requests refl this assms(10)] obtain r s' denom paid where
    run: "execute_withdraw_unstaked d e info ?s = Inr (r, s')"
    and msgs: "messages r = [BankSend ?a [\<lparr>coin_denom = denom, coin_amount = paid\<rparr>]]" "unat paid = due"
    by blast
  have "denom = staking_coin_denom p"
    using run msgs cut(1)
    by (auto simp: execute_withdraw_unstaked_def execute_withdraw_unstaked_impl_def outcome_simps
        split: if_splits)
  moreover have "hub_execute d e info WithdrawUnstaked ?s = Inr (r, s')"
    using run assms(3,4) by (simp add: hub_execute_def load_parameters_def)
  ultimately show ?thesis using msgs by blast
qed

section \<open>Witnesses\<close>

text \<open>
  A day of a hub: 150 coins are a gift, 90 are staked, the epoch ends and takes them, 30 tokens
  are unstaked and their batch closes, and after the unstaking period the gift pays for them.
\<close>

definition at_block :: "u64 \<Rightarrow> u64 \<Rightarrow> env" where
  "at_block h t = now\<lparr>block_height := h, block_time := t\<rparr>"

definition quiet_chain :: "uint128 \<Rightarrow> uint128 \<Rightarrow> delegation list \<Rightarrow> deps" where
  "quiet_chain cash each dels = sample_deps\<lparr>query_balance := (\<lambda>_ _. Inr (bbn cash)),
     query_all_delegations := (\<lambda>_. Inr dels), query_token_supply := (\<lambda>_. Inr (2 * each)),
     query_validators_delegation := (\<lambda>_. Inr [\<lparr>total_delegated = each, vr_address = ''val1''\<rparr>,
       \<lparr>total_delegated = each, vr_address = ''val2''\<rparr>])\<rparr>"

definition closed_hub :: hub_storage where
  "closed_hub = fresh_hub\<lparr>
     s_state := Some (fresh_state\<lparr>total_staked_amount := 60, last_unbonded_time := 1001001\<rparr>),
     s_current_batch := Some \<lparr>cb_id = 2, requested_lst_token_amount = 0\<rparr>,
     s_unstake_wait_list := [((alice, 1), 30)],
     s_unstake_history := [(1, (sample_history 1 30 False)\<lparr>uh_time := 1001001\<rparr>)],
     s_pending_delegation := Some \<lparr>staking_epoch_length_blocks = 10,
       staking_epoch_start_block_height = 120, pending_staking_amount = 0,
       pending_unstaking_amount = 30\<rparr>\<rparr>"

definition funded :: "hub_storage \<Rightarrow> nat \<Rightarrow> nat \<Rightarrow> nat \<Rightarrow> nat \<Rightarrow> funded_hub" where
  "funded s h t cash queued = \<lparr>fh_store = s, fh_height = h, fh_time = t, fh_cash = cash,
     fh_queued = queued\<rparr>"

lemmas day_eval = hub_execute_def storage_eval stake_eval slashing_eval unstake_eval split_eval
  fresh_hub_def fresh_state_def staked_hub_def closed_hub_def quiet_chain_def at_block_def
  sample_defs

lemma day_stake:
  "\<exists>r. hub_execute (quiet_chain 240 0 []) (at_block 115 1000000) (by_user alice [bbn 90]) Stake fresh_hub
      = Inr (r, staked_hub) \<and> pays ''ubbn'' (messages r) = 0 \<and> delegates (messages r) = 90"
proof -
  obtain r where run: "hub_execute (quiet_chain 240 0 []) (at_block 115 1000000) (by_user alice [bbn 90])
      Stake fresh_hub = Inr (r, staked_hub)"
    by (simp add: day_eval cong: eval_cong)
  then obtain kind where "execute_stake (quiet_chain 240 0 []) (at_block 115 1000000)
      (by_user alice [bbn 90]) kind fresh_hub = Inr (r, staked_hub)"
    by (auto simp: hub_execute_def outcome_simps split: if_splits)
  from stake_moves [OF this] stake_accounts [OF this] run show ?thesis
    by (simp add: fresh_hub_def sample_params_def by_user_def bbn_def)
qed

lemma day_unstake:
  "\<exists>r. hub_execute (quiet_chain 150 45 [\<lparr>del_validator = ''val1'', del_amount = bbn 45\<rparr>,
        \<lparr>del_validator = ''val2'', del_amount = bbn 45\<rparr>]) (at_block 125 1001001) (by_user alice [])
      (Unstake 30) staked_hub = Inr (r, closed_hub)
    \<and> moves_nothing ''ubbn'' (messages r)"
proof -
  obtain r where run: "hub_execute (quiet_chain 150 45 [\<lparr>del_validator = ''val1'', del_amount = bbn 45\<rparr>,
        \<lparr>del_validator = ''val2'', del_amount = bbn 45\<rparr>]) (at_block 125 1001001) (by_user alice [])
      (Unstake 30) staked_hub = Inr (r, closed_hub)"
    by (simp add: day_eval cong: eval_cong)
  then have "execute_unstake (quiet_chain 150 45 [\<lparr>del_validator = ''val1'', del_amount = bbn 45\<rparr>,
        \<lparr>del_validator = ''val2'', del_amount = bbn 45\<rparr>]) (at_block 125 1001001) 30
      (info_sender (by_user alice [])) BurnFromFlow staked_hub = Inr (r, closed_hub)"
    by (auto simp: hub_execute_def outcome_simps split: if_splits)
  from unstake_moves [OF this] run show ?thesis by blast
qed

lemma hub_denoms: "denom_of fresh_hub = ''ubbn''" "denom_of staked_hub = ''ubbn''" "denom_of closed_hub = ''ubbn''"
  by (simp_all add: denom_of_def fresh_hub_def staked_hub_def closed_hub_def sample_params_def)

lemma truthful_quiet:
  "denom_of s = ''ubbn'' \<Longrightarrow> unat cash = c + coins_of ''ubbn'' cs \<Longrightarrow> unat h = h' \<Longrightarrow> unat t = t' \<Longrightarrow>
   truthful (quiet_chain cash each dels) (at_block h t) (by_user a cs) (funded s h' t' c q)"
  by (simp add: truthful_def funded_def quiet_chain_def at_block_def by_user_def bbn_def sample_deps_def)

lemma by_user_parts [simp]: "info_sender (by_user a cs) = a" "info_funds (by_user a cs) = cs"
  by (simp_all add: by_user_def)

lemma day_message:
  assumes "hub_execute d e info msg s = Inr (r, s')" and "repeats_no_batch msg"
    and "denom_of s = ''ubbn''" and "truthful d e info (funded s h t c q)"
    and "pays ''ubbn'' (messages r) + c' = c + coins_of ''ubbn'' (info_funds info)"
    and "q' = q + delegates (messages r)"
  shows "funded_step repeats_no_batch start len (funded s h t c q) (funded s' h t c' q')"
proof -
  have "funded_step repeats_no_batch start len (funded s h t c q) ((funded s h t c q)\<lparr>fh_store := s',
      fh_cash := c', fh_queued := fh_queued (funded s h t c q) + delegates (messages r)\<rparr>)"
    using funded_message [of repeats_no_batch msg d e info "funded s h t c q" r s' "''ubbn''" c' start len]
      assms by (simp add: funded_def)
  then show ?thesis by (simp add: funded_def assms(6))
qed

lemma day_of_a_hub:
  "reachable (funded_initial 100 10) (funded_step repeats_no_batch 100 10) (funded closed_hub 235 1003001 150 0)"
proof -
  let ?r = "reachable (funded_initial 100 10) (funded_step repeats_no_batch 100 10)"
    and ?step = "funded_step repeats_no_batch 100 10"
  note step = reachable.intros(2)
  have careful [simp]: "repeats_no_batch (UpdateConfig a b c d)" "repeats_no_batch Stake"
    "repeats_no_batch (Unstake n)" for a b c d n
    by (simp_all add: repeats_no_batch_def)
  obtain h0 r r' where h0: "hub_instantiate sample_deps now (by_user sample_owner []) (sample_instantiate 10)
      empty_hub_storage = Inr (r, h0)"
    and conf: "hub_execute sample_deps now (by_user sample_owner []) (UpdateConfig None (Some sample_token)
        (Some sample_registry) (Some sample_dispatcher)) h0 = Inr (r', fresh_hub)"
    using fresh_hub_runs by blast
  have params: "s_parameters h0 = Some sample_params"
    using h0 by (auto simp: instantiate_eval storage_eval sample_defs eval_simps)
  have "funded_initial 100 10 (funded h0 115 1000000 150 0)"
    using funded_initial.intros [OF h0, of 100 10 150]
    by (simp add: funded_def now_def sample_instantiate_def)
  then have "?r (funded h0 115 1000000 150 0)" by (rule reachable.intros)
  moreover have "?step (funded h0 115 1000000 150 0) (funded fresh_hub 115 1000000 150 0)"
  proof -
    have "truthful sample_deps now (by_user sample_owner []) (funded h0 115 1000000 150 0)"
      by (simp add: truthful_def funded_def now_def sample_deps_def by_user_def bbn_def)
    moreover have "execute_update_config sample_deps (by_user sample_owner []) None (Some sample_token)
        (Some sample_registry) (Some sample_dispatcher) h0 = Inr (r', fresh_hub)"
      using conf by (auto simp: hub_execute_def outcome_simps split: if_splits)
    from settings_move(1) [OF this] have "moves_nothing ''ubbn'' (messages r')" .
    moreover have "denom_of h0 = ''ubbn''" by (simp add: denom_of_def params sample_params_def)
    ultimately show ?thesis
      using conf by (intro day_message [OF conf]) (simp_all add: moves_nothing_def)
  qed
  ultimately have "?r (funded fresh_hub 115 1000000 150 0)" by (rule step)
  moreover obtain r1 where "hub_execute (quiet_chain 240 0 []) (at_block 115 1000000) (by_user alice [bbn 90])
      Stake fresh_hub = Inr (r1, staked_hub)" "pays ''ubbn'' (messages r1) = 0" "delegates (messages r1) = 90"
    using day_stake by blast
  then have "?step (funded fresh_hub 115 1000000 150 0) (funded staked_hub 115 1000000 240 90)"
    by (elim day_message [OF _ careful(2) hub_denoms(1) truthful_quiet [OF hub_denoms(1)]])
      (simp_all add: bbn_def)
  ultimately have "?r (funded staked_hub 115 1000000 240 90)" by (rule step)
  moreover have "?step (funded staked_hub 115 1000000 240 90) (funded staked_hub 125 1001001 150 0)"
    using next_block [of "funded staked_hub 115 1000000 240 90" 125 1001001 150 100 10 0]
    by (simp add: funded_def chain_epoch_def)
  ultimately have "?r (funded staked_hub 125 1001001 150 0)" by (rule step)
  moreover obtain r2 dels where "hub_execute (quiet_chain 150 45 dels) (at_block 125 1001001)
      (by_user alice []) (Unstake 30) staked_hub = Inr (r2, closed_hub)"
    "moves_nothing ''ubbn'' (messages r2)"
    using day_unstake by blast
  then have "?step (funded staked_hub 125 1001001 150 0) (funded closed_hub 125 1001001 150 0)"
    by (elim day_message [OF _ careful(3) hub_denoms(2) truthful_quiet [OF hub_denoms(2)]])
      (simp_all add: moves_nothing_def)
  ultimately have "?r (funded closed_hub 125 1001001 150 0)" by (rule step)
  moreover have "?step (funded closed_hub 125 1001001 150 0) (funded closed_hub 235 1003001 150 0)"
    using next_block [of "funded closed_hub 125 1001001 150 0" 235 1003001 150 100 10 0]
    by (simp add: funded_def chain_epoch_def)
  ultimately show ?thesis by (rule step)
qed

lemma coins_cover_claims_witness:
  "\<exists>st. s_state closed_hub = Some st \<and> unat (unclaimed_unstaked_balance st) \<le> 150 \<and> claims closed_hub \<le> 150"
  using coins_cover_claims [OF day_of_a_hub] by (simp add: funded_def)

lemma matured_claims_are_paid_witness:
  "\<exists>r s' paid. hub_execute (quiet_chain 150 30 []) (at_block 235 1003001) (by_user alice [])
      WithdrawUnstaked closed_hub = Inr (r, s')
    \<and> messages r = [BankSend alice [\<lparr>coin_denom = ''ubbn'', coin_amount = paid\<rparr>]] \<and> unat paid = 30"
proof -
  let ?x = "funded closed_hub 235 1003001 150 0"
  have true: "truthful (quiet_chain 150 30 []) (at_block 235 1003001) (by_user alice []) ?x"
    by (rule truthful_quiet [OF hub_denoms(3)]) simp_all
  have items: "s_parameters (fh_store ?x) = Some sample_params" "\<not> paused sample_params"
    "unat (unstaking_period sample_params) \<le> fh_time ?x"
    "s_state (fh_store ?x) = Some (fresh_state\<lparr>total_staked_amount := 60, last_unbonded_time := 1001001\<rparr>)"
    by (simp_all add: funded_def closed_hub_def fresh_hub_def sample_params_def)
  have cutoff: "1001001 = fh_time ?x - unat (unstaking_period sample_params)"
    by (simp add: funded_def sample_params_def)
  have enough: "unat (unclaimed_unstaked_balance (fresh_state\<lparr>total_staked_amount := 60,
      last_unbonded_time := 1001001\<rparr>)) + fh_queued ?x + outstanding (fh_store ?x) 1001001 \<le> fh_cash ?x"
    by (simp add: funded_def fresh_state_def closed_hub_def outstanding_def smap.weight_def owed_def
        sample_history_def decimal_one_def)
  have due: "30 = (\<Sum>b \<leftarrow> all_batches (fh_store ?x) (info_sender (by_user alice [])).
      matured_worth (fh_store ?x) 1001001 (info_sender (by_user alice [])) b)"
    by (simp add: funded_def closed_hub_def all_batches_def prefix_range_def range_from_def
        matured_worth_def may_load_def sample_history_def decimal_one_def by_user_def)
  from matured_claims_are_paid [OF day_of_a_hub true items(1-4) cutoff enough due] show ?thesis
    by (simp add: funded_def by_user_def sample_params_def)
qed

end
