(* ===== verification/Hub_Unbonding.thy ===== *)
theory Hub_Unbonding
  imports Hub_Funds
begin

text \<open>
  The hub with its coins on a chain that returns undelegated coins in time. What the hub
  undelegates when it closes a batch is exactly what the batch is worth, so the coins on their way
  back, together with those at the hub's address, always cover the batches that are not released,
  each by the time of its undelegation. If the chain's unbonding time is not longer than the
  unstaking period of the hub, every matured claim can be withdrawn.
\<close>

section \<open>What a release sets aside\<close>

lemma releasable_run_fits:
  "releasable_run s c n run \<Longrightarrow> run \<noteq> [] \<Longrightarrow> n + length run \<le> 2 ^ 64"
  using releasable_run_last [of s c n run] unat_less [of "fst (last run)"] by (cases run) auto

lemma outstanding_at:
  assumes "sorted_keys (s_unstake_history s)"
  shows "outstanding s cutoff = (\<Sum>b \<in> dom (may_load (s_unstake_history s)).
    case may_load (s_unstake_history s) b of None \<Rightarrow> 0
    | Some h \<Rightarrow> if \<not> released h \<and> unat (uh_time h) \<le> cutoff then owed h else 0)"
  by (simp only: outstanding_def smap.weight_at [OF assms] smap.at_def)

text \<open>Batches are released in the order of their times: either everything that was released had
  matured by the cutoff, or nothing that had matured is left.\<close>

lemma release_outstanding:
  assumes inv: "hub_inv s" and hist: "histories_ok clock s" and st: "s_state s = Some st"
    and rate: "process_withdraw_rate d c free s = Inr (evs, left, s1)"
    and sorted1: "sorted_keys (s_unstake_history s1)"
  shows "\<exists>aside. unat free = unat (unclaimed_unstaked_balance st) + aside + unat left
    \<and> (outstanding s1 cutoff = 0 \<or> outstanding s1 cutoff + aside \<le> outstanding s cutoff)"
proof -
  let ?m = "s_unstake_history s"
  obtain cb where q: "queue_inv s cb (last_processed_batch st)"
    using inv st by (auto elim!: hub_invE)
  then have sorted: "sorted_keys ?m" by (simp add: queue_inv_def)
  let ?n = "unat (last_processed_batch st) + 1"
  obtain run where run: "releasable_run s c ?n run"
    and free: "unat free = unat (unclaimed_unstaked_balance st) + (\<Sum>(b, h) \<leftarrow> run. owed h) + unat left"
    and hist1: "\<And>b. may_load (s_unstake_history s1) b =
       (if b \<in> fst ` set run then map_option (\<lambda>h. h\<lparr>released := True\<rparr>) (may_load ?m b) else may_load ?m b)"
    by (rule process_withdraw_rate_effect [OF rate st], rule that)
  have stored: "may_load ?m b = Some h \<and> \<not> released h" if "(b, h) \<in> set run" for b h
    using releasable_run_stored [OF run that] .
  let ?w = "\<lambda>b. case may_load ?m b of None \<Rightarrow> 0
    | Some h \<Rightarrow> if \<not> released h \<and> unat (uh_time h) \<le> cutoff then owed h else 0"
  have dom1: "dom (may_load (s_unstake_history s1)) = dom (may_load ?m)"
    by (auto simp: hist1 split: if_splits)
  have out1: "outstanding s1 cutoff = (\<Sum>b \<in> dom (may_load ?m). if b \<in> fst ` set run then 0 else ?w b)"
    unfolding outstanding_at [OF sorted1] dom1
    by (rule sum.cong) (auto simp: hist1 split: option.splits)
  have "outstanding s1 cutoff = 0 \<or> outstanding s1 cutoff + (\<Sum>(b, h) \<leftarrow> run. owed h) \<le> outstanding s cutoff"
  proof (cases "\<forall>(b, h) \<in> set run. unat (uh_time h) \<le> cutoff")
    case True
    have "(\<Sum>(b, h) \<leftarrow> run. owed h) = (\<Sum>b \<leftarrow> map fst run. ?w b)"
      using True stored by (auto simp: comp_def intro!: arg_cong [where f = sum_list] map_cong)
    also have "\<dots> = (\<Sum>b \<in> fst ` set run. ?w b)"
      using sum_list_distinct_conv_sum_set [OF releasable_run_distinct [OF run]] by simp
    finally have aside: "(\<Sum>(b, h) \<leftarrow> run. owed h) = (\<Sum>b \<in> fst ` set run. ?w b)" .
    have sub: "fst ` set run \<subseteq> dom (may_load ?m)" using stored by auto
    have "outstanding s1 cutoff = (\<Sum>b \<in> dom (may_load ?m) - fst ` set run. ?w b)"
      unfolding out1 by (rule sum.mono_neutral_cong_right) (auto intro: smap.finite_dom [OF sorted])
    with aside show ?thesis
      using sum.subset_diff [OF sub smap.finite_dom [OF sorted], of ?w]
      by (simp add: outstanding_at [OF sorted])
  next
    case False
    then obtain b0 h0 where b0: "(b0, h0) \<in> set run" "cutoff < unat (uh_time h0)" by auto
    then have "run \<noteq> []" by auto
    note keys = releasable_run_keys [OF run releasable_run_fits [OF run this]]
    have zero: "?w b = 0" if "b \<in> dom (may_load ?m)" "b \<notin> fst ` set run" for b
    proof (rule ccontr)
      assume "?w b \<noteq> 0"
      then obtain h where h: "may_load ?m b = Some h" "\<not> released h" "unat (uh_time h) \<le> cutoff"
        by (auto split: option.splits if_splits)
      then have "unat (last_processed_batch st) < unat b"
        using q by (force simp: queue_inv_def not_le)
      moreover have "\<not> unat b0 \<le> unat b"
      proof
        assume "unat b0 \<le> unat b"
        then have "uh_time h0 \<le> uh_time h"
          using hist h(1) stored [OF b0(1)] unfolding histories_ok_def by blast
        with h(3) b0(2) show False by (simp add: word_le_nat_alt)
      qed
      moreover have "unat b0 < ?n + length run"
        using keys [of b0] b0(1) by force
      ultimately show False using keys [of b] that(2) by simp
    qed
    have "outstanding s1 cutoff = 0"
      unfolding out1 by (rule sum.neutral) (use zero in simp)
    then show ?thesis ..
  qed
  with free show ?thesis by blast
qed

section \<open>What each message does to the batches that are not released\<close>

lemma outstanding_same: "s_unstake_history s' = s_unstake_history s \<Longrightarrow> outstanding s' = outstanding s"
  by (simp add: outstanding_def fun_eq_iff)

text \<open>Closing a batch undelegates what the new history is worth.\<close>

lemma epoch_completion_outstanding:
  assumes "check_for_unstake_batch_epoch_completion d e batch s = Inr (msgs, evs, batch', s')"
    and sorted: "sorted_keys (s_unstake_history s)"
  shows "outstanding s' cutoff \<le> outstanding s cutoff
    + (if unat (block_time e) \<le> cutoff then undelegates msgs else 0)"
  using assms(1)
proof (cases rule: epoch_completion_cases)
  case (waiting params st0 st)
  then show ?thesis by (simp add: outstanding_def)
next
  case (closed params st0 st st' s2)
  show ?thesis
    using closed(6)
  proof (rule process_undelegations_for_batch_InrD)
    fix unstaked total :: uint128 and next_id :: u64 and pd'
    let ?h = "\<lparr>uh_batch_id = cb_id batch, uh_time = block_time e,
      lst_token_amount = requested_lst_token_amount batch,
      lst_applied_exchange_rate = lst_exchange_rate st,
      lst_withdraw_rate = lst_exchange_rate st, released = False\<rparr>"
    let ?f = "\<lambda>b h. if \<not> released h \<and> unat (uh_time h) \<le> cutoff then owed h else 0"
    assume "unat unstaked = unat (requested_lst_token_amount batch)
        * unat (atomics (lst_exchange_rate st)) div 10 ^ 18" "undelegates msgs = unat unstaked"
      and s2: "s2 = s\<lparr>s_state := Some st, s_pending_delegation := Some pd',
       s_unstake_history := save (cb_id batch) ?h (s_unstake_history (s\<lparr>s_state := Some st\<rparr>))\<rparr>"
    then have worth: "owed ?h = undelegates msgs" by (simp add: owed_def)
    have "outstanding s' cutoff = smap.weight ?f (save (cb_id batch) ?h (s_unstake_history s))"
      by (simp add: outstanding_def closed(7) s2)
    also have "\<dots> \<le> outstanding s cutoff + ?f (cb_id batch) ?h"
      using smap.weight_save [OF sorted, of ?f "cb_id batch" ?h] by (simp add: outstanding_def)
    finally show ?thesis using worth by (auto split: if_splits)
  qed
qed

lemma undelegates_append [simp]: "undelegates (ms @ ms') = undelegates ms + undelegates ms'"
  by (simp add: undelegates_def)

lemma unstake_outstanding:
  assumes "execute_unstake d e amount sender flow s = Inr (r, s')" and "sorted_keys (s_unstake_history s)"
  shows "outstanding s' cutoff \<le> outstanding s cutoff
    + (if unat (block_time e) \<le> cutoff then undelegates (messages r) else 0)"
  using assms(1)
proof (rule execute_unstake_InrD)
  fix batch batch1 s1 msgs evs batch2 token burn
  assume request: "update_unstake_batch_wait_list d batch sender amount s = Inr (batch1, s1)"
    and comp: "check_for_unstake_batch_epoch_completion d e batch1 s1 = Inr (msgs, evs, batch2, s')"
    and msgs: "messages r = msgs @ [WasmExecute token (Cw20Payload burn) []]"
  from request have same: "s_unstake_history s1 = s_unstake_history s"
    by (rule update_unstake_batch_wait_list_InrD) simp
  from epoch_completion_outstanding [OF comp, of cutoff] assms(2) show ?thesis
    by (simp add: same outstanding_same [OF same] msgs split: if_splits)
qed

lemma process_undelegations_outstanding:
  assumes "execute_process_undelegations d e s = Inr (r, s')" and "sorted_keys (s_unstake_history s)"
  shows "outstanding s' cutoff \<le> outstanding s cutoff
    + (if unat (block_time e) \<le> cutoff then undelegates (messages r) else 0)"
proof -
  from assms(1) consider "s' = s"
    | batch evs batch' where "check_for_unstake_batch_epoch_completion d e batch s
        = Inr (messages r, evs, batch', s')"
    by (auto simp: execute_process_undelegations_def outcome_simps split: if_splits)
  then show ?thesis
    using epoch_completion_outstanding [OF _ assms(2)] by cases auto
qed

text \<open>Releases: with the payment, what is set aside comes off the batches that are not released.\<close>

lemma requests_outstanding:
  assumes "execute_process_withdraw_requests d e s = Inr (r, s')" and inv: "hub_inv s" "hub_inv s'"
    and hist: "histories_ok clock s" and st: "s_state s = Some st" "s_state s' = Some st'"
  shows "outstanding s' cutoff = 0 \<or> outstanding s' cutoff + unat (unclaimed_unstaked_balance st')
    \<le> outstanding s cutoff + unat (unclaimed_unstaked_balance st)"
  using assms(1)
proof (rule execute_process_withdraw_requests_InrD)
  fix params evs s1 st1 c and free left unclaimed :: uint128
  assume rate: "process_withdraw_rate d c free s = Inr (evs, left, s1)"
    and sum: "unat free = unat left + unat unclaimed"
    and s': "s' = s1\<lparr>s_state := Some (st1\<lparr>unclaimed_unstaked_balance := unclaimed\<rparr>)\<rparr>"
  have "sorted_keys (s_unstake_history s1)"
    using inv(2) by (auto elim!: hub_invE simp: queue_inv_def s')
  from release_outstanding [OF inv(1) hist st(1) rate this, of cutoff] sum st(2) show ?thesis
    by (auto simp: outstanding_def s')
qed

lemma withdraw_outstanding:
  assumes run: "execute_withdraw_unstaked_impl d e info ids s = Inr (r, s')"
    and inv: "hub_inv s" "hub_inv s'"
    and hist: "histories_ok clock s" and st: "s_state s = Some st" "s_state s' = Some st'"
  shows "outstanding s' cutoff = 0
    \<or> outstanding s' cutoff + unat (unclaimed_unstaked_balance st') + pays denom (messages r)
        \<le> outstanding s cutoff + unat (unclaimed_unstaked_balance st)"
proof -
  have "sorted_keys (s_unstake_wait_list s)" using inv(1) by (auto elim!: hub_invE simp: queue_inv_def)
  with run show ?thesis
  proof (rule execute_withdraw_unstaked_impl_InrD)
    fix params evs s1 wait st1 c and free left paid unclaimed :: uint128
    assume rate: "process_withdraw_rate d c free s = Inr (evs, left, s1)"
      and sum: "unat free = unat paid + unat left + unat unclaimed"
      and s': "s' = s1\<lparr>s_unstake_wait_list := wait,
         s_state := Some (st1\<lparr>unclaimed_unstaked_balance := unclaimed\<rparr>)\<rparr>"
      and msgs: "messages r = [BankSend (info_sender info)
        [\<lparr>coin_denom = staking_coin_denom params, coin_amount = paid\<rparr>]]"
    have "sorted_keys (s_unstake_history s1)"
      using inv(2) by (auto elim!: hub_invE simp: queue_inv_def s')
    from release_outstanding [OF inv(1) hist st(1) rate this, of cutoff] sum st(2) show ?thesis
      by (auto simp: outstanding_def s' msgs)
  qed
qed

text \<open>Messages that leave the histories and the unclaimed balance alone.\<close>

lemma settings_histories:
  "execute_update_params info pause el up s = Inr (r, s') \<Longrightarrow> s_unstake_history s' = s_unstake_history s"
  "execute_update_config d info no token reg disp s = Inr (r, s') \<Longrightarrow> s_unstake_history s' = s_unstake_history s"
  "execute_slashing d e s = Inr (r, s') \<Longrightarrow> s_unstake_history s' = s_unstake_history s"
  "execute_update_global_index d e s = Inr (r, s') \<Longrightarrow> s_unstake_history s' = s_unstake_history s"
  "execute_stake d e info kind s = Inr (r, s') \<Longrightarrow> s_unstake_history s' = s_unstake_history s"
  by (auto simp: execute_update_global_index_def outcome_simps elim!: execute_update_params_InrD
      execute_update_config_InrD execute_slashing_InrD execute_stake_InrD update_pending_frame)

text \<open>Every message. Either nothing that had matured is left, or the unclaimed balance, the payment
  and the batches that are not released grow by no more than what is undelegated.\<close>

lemma hub_outstanding:
  assumes run: "hub_execute d e info msg s = Inr (r, s')" and inv: "hub_inv s" "hub_inv s'"
    and hist: "histories_ok clock s" and st: "s_state s = Some st" "s_state s' = Some st'"
    and p: "s_parameters s = Some p"
  shows "outstanding s' cutoff = 0
    \<or> outstanding s' cutoff + unat (unclaimed_unstaked_balance st') + pays (staking_coin_denom p) (messages r)
        \<le> outstanding s cutoff + unat (unclaimed_unstaked_balance st)
          + (if unat (block_time e) \<le> cutoff then undelegates (messages r) else 0)"
proof -
  let ?denom = "staking_coin_denom p"
  let ?und = "if unat (block_time e) \<le> cutoff then undelegates (messages r) else 0"
  obtain pd where pd: "s_pending_delegation s = Some pd" using inv(1) by (rule hub_invE)
  have sorted: "sorted_keys (s_unstake_history s)"
    using inv(1) by (auto elim!: hub_invE simp: queue_inv_def)
  have keeps: "unclaimed_unstaked_balance st' = unclaimed_unstaked_balance st"
    if "accounts e n s s'" for n
    using that st pd by (auto simp: accounts_def)
  have quiet: ?thesis if "accounts e n s s'" "pays ?denom (messages r) = 0"
    "outstanding s' cutoff \<le> outstanding s cutoff + ?und" for n
    using keeps [OF that(1)] that(2,3) by simp
  have still: ?thesis if "accounts e n s s'" "pays ?denom (messages r) = 0"
    "s_unstake_history s' = s_unstake_history s" for n
    using that(1,2) by (rule quiet) (simp add: outstanding_same [OF that(3)])
  from run show ?thesis
  proof (cases rule: hub_execute_cases)
    case (1 pause el up)
    from settings_accounts(1) [OF 1(2)] settings_move(2) [OF 1(2)] settings_histories(1) [OF 1(2)]
    show ?thesis by (intro still) (auto simp: moves_nothing_def)
  next
    case (2 ids)
    from withdraw_outstanding [OF 2(2) inv hist st, of cutoff ?denom] show ?thesis by auto
  next
    case 3
    from withdraw_outstanding [OF 3(2) inv hist st, of cutoff ?denom] show ?thesis by auto
  next
    case (4 kind)
    from stake_accounts [OF 4(2)] stake_moves [OF 4(2)] settings_histories(5) [OF 4(2)]
    show ?thesis by (intro still) auto
  next
    case (5 amount sender flow)
    from unstake_accounts [OF 5(1)] unstake_moves [OF 5(1)] unstake_outstanding [OF 5(1) sorted]
    show ?thesis by (intro quiet) (auto simp: moves_nothing_def)
  next
    case 6
    from settings_accounts(3) [OF 6(2)] settings_move(3) [OF 6(2)] settings_histories(3) [OF 6(2)]
    show ?thesis by (intro still) (auto simp: moves_nothing_def)
  next
    case (7 no token reg disp)
    from settings_accounts(2) [OF 7(2)] settings_move(1) [OF 7(2)] settings_histories(2) [OF 7(2)]
    show ?thesis by (intro still) (auto simp: moves_nothing_def)
  next
    case (8 src reds)
    then have "execute_redelegate_proxy e info src reds s = Inr (r, s')"
      using run by (auto simp: hub_execute_def outcome_simps split: if_splits)
    from settings_move(4) [OF this] 8(2) show ?thesis
      by (intro still [of 0]) (simp_all add: moves_nothing_def accounts_frame)
  next
    case 9
    from settings_accounts(4) [OF 9(2)] settings_move(5) [OF 9(2)] settings_histories(4) [OF 9(2)]
    show ?thesis by (intro still) (auto simp: moves_nothing_def)
  next
    case 10
    from process_undelegations_accounts [OF 10(2)] settings_move(6) [OF 10(2)]
      process_undelegations_outstanding [OF 10(2) sorted]
    show ?thesis by (intro quiet) (auto simp: moves_nothing_def)
  next
    case 11
    from requests_outstanding [OF 11(2) inv hist st, of cutoff] settings_move(7) [OF 11(2), of ?denom]
    show ?thesis by (auto simp: moves_nothing_def)
  qed
qed

section \<open>A chain that returns the coins in time\<close>

record timely_hub =
  th_hub :: funded_hub
  th_unbonding :: "(nat \<times> nat) list"   \<comment> \<open>the time of an undelegation and its coins\<close>

definition coins_by :: "nat \<Rightarrow> (nat \<times> nat) list \<Rightarrow> nat" where
  "coins_by cutoff us = (\<Sum>(t, a) \<leftarrow> us. if t \<le> cutoff then a else 0)"

lemma coins_by_simps [simp]:
  "coins_by cutoff [] = 0" "coins_by cutoff (us @ us') = coins_by cutoff us + coins_by cutoff us'"
  "coins_by cutoff ((t, a) # us) = (if t \<le> cutoff then a else 0) + coins_by cutoff us"
  by (simp_all add: coins_by_def)

text \<open>
  The coins of an undelegation come back at some time; the chain does not reach the time that is
  \<open>period\<close> after an undelegation before its coins are back. What else the chain does is as before:
  blocks, the queue of delegations, gifts, and the migration of the contract.
\<close>

inductive timely_step ::
    "(hub_execute_msg \<Rightarrow> bool) \<Rightarrow> nat \<Rightarrow> nat \<Rightarrow> nat \<Rightarrow> timely_hub \<Rightarrow> timely_hub \<Rightarrow> bool"
  for admitted start len period where
  timely_message: "admitted msg \<Longrightarrow> truthful d e info x \<Longrightarrow>
    hub_execute d e info msg (fh_store x) = Inr (r, s') \<Longrightarrow> denom = denom_of (fh_store x) \<Longrightarrow>
    pays denom (messages r) + cash = fh_cash x + coins_of denom (info_funds info) \<Longrightarrow>
    timely_step admitted start len period \<lparr>th_hub = x, th_unbonding = us\<rparr>
      \<lparr>th_hub = x\<lparr>fh_store := s', fh_cash := cash, fh_queued := fh_queued x + delegates (messages r)\<rparr>,
       th_unbonding = us @ [(fh_time x, undelegates (messages r))]\<rparr>"
| timely_chain: "funded_step (\<lambda>_. False) start len x y \<Longrightarrow>
    \<forall>(t, _) \<in> set us. fh_time y < t + period \<Longrightarrow>
    timely_step admitted start len period \<lparr>th_hub = x, th_unbonding = us\<rparr>
      \<lparr>th_hub = y, th_unbonding = us\<rparr>"
| coins_return: "timely_step admitted start len period
    \<lparr>th_hub = x, th_unbonding = us @ (t, a) # us'\<rparr>
    \<lparr>th_hub = x\<lparr>fh_cash := fh_cash x + a\<rparr>, th_unbonding = us @ us'\<rparr>"

inductive timely_initial :: "nat \<Rightarrow> nat \<Rightarrow> timely_hub \<Rightarrow> bool" for start len where
  "funded_initial start len x \<Longrightarrow> timely_initial start len \<lparr>th_hub = x, th_unbonding = []\<rparr>"

text \<open>Every step of the timely chain is one of the chain that returns coins at will.\<close>

lemma chain_step_admits:
  "funded_step (\<lambda>_. False) start len x y \<Longrightarrow> funded_step admitted start len x y"
  by (erule funded_stepE) (auto intro: funded_step.intros)

lemma timely_step_funded:
  "timely_step admitted start len period x y \<Longrightarrow> funded_step admitted start len (th_hub x) (th_hub y)"
  by (induction rule: timely_step.induct)
    (auto intro: funded_message coins_arrive chain_step_admits)

lemma timely_reachable_funded:
  "reachable (timely_initial start len) (timely_step admitted start len period) x \<Longrightarrow>
   reachable (funded_initial start len) (funded_step admitted start len) (th_hub x)"
  by (induction rule: reachable.induct)
    (auto intro: reachable.intros timely_step_funded elim!: timely_initial.cases)

text \<open>The coins that are there or were undelegated by a time cover the batches closed by it.\<close>

definition covers :: "timely_hub \<Rightarrow> nat \<Rightarrow> bool" where
  "covers x cutoff \<longleftrightarrow> (\<forall>st. s_state (fh_store (th_hub x)) = Some st \<longrightarrow>
     unat (unclaimed_unstaked_balance st) + fh_queued (th_hub x) + outstanding (fh_store (th_hub x)) cutoff
       \<le> fh_cash (th_hub x) + coins_by cutoff (th_unbonding x))"

definition timely_inv :: "(hub_execute_msg \<Rightarrow> bool) \<Rightarrow> nat \<Rightarrow> nat \<Rightarrow> nat \<Rightarrow> timely_hub \<Rightarrow> bool" where
  "timely_inv admitted start len period x \<longleftrightarrow> funded_inv admitted start len (th_hub x)
     \<and> (\<forall>cutoff. covers x cutoff) \<and> (\<forall>(t, _) \<in> set (th_unbonding x). fh_time (th_hub x) < t + period)"

lemma message_covers:
  assumes inv: "funded_inv admitted start len x" and adm: "admitted msg" and true: "truthful d e info x"
    and run: "hub_execute d e info msg (fh_store x) = Inr (r, s')"
    and denom: "denom = denom_of (fh_store x)"
    and cash: "pays denom (messages r) + cash = fh_cash x + coins_of denom (info_funds info)"
    and covers: "covers \<lparr>th_hub = x, th_unbonding = us\<rparr> cutoff"
  shows "covers \<lparr>th_hub = x\<lparr>fh_store := s', fh_cash := cash, fh_queued := fh_queued x + delegates (messages r)\<rparr>,
    th_unbonding = us @ [(fh_time x, undelegates (messages r))]\<rparr> cutoff"
proof -
  let ?s = "fh_store x"
  from funded_message_inv [OF inv adm true run denom cash]
  obtain st' where inv': "hub_inv s'" and st': "s_state s' = Some st'"
    and there: "unat (unclaimed_unstaked_balance st') + (fh_queued x + delegates (messages r)) \<le> cash"
    by (auto simp: funded_inv_def)
  have hub: "hub_inv ?s" "histories_ok (fh_time x) ?s" using inv by (simp_all add: funded_inv_def)
  obtain p st where p: "s_parameters ?s = Some p" and st: "s_state ?s = Some st"
    using hub(1) by (rule hub_invE)
  have dn: "denom = staking_coin_denom p" by (simp add: denom denom_of_def p)
  have time: "unat (block_time e) = fh_time x" using true by (simp add: truthful_def)
  have "delegates (messages r) \<le> coins_of denom (info_funds info)"
    using hub_accounts [OF run hub(1) p, folded dn] by auto
  with hub_outstanding [OF run hub(1) inv' hub(2) st st' p, of cutoff, folded dn] covers st there cash
  show ?thesis by (auto simp: covers_def st' time split: if_splits)
qed

lemma chain_covers:
  assumes "funded_step (\<lambda>_. False) start len x y" and "covers \<lparr>th_hub = x, th_unbonding = us\<rparr> cutoff"
  shows "covers \<lparr>th_hub = y, th_unbonding = us\<rparr> cutoff"
  using assms(1)
proof cases
  case (funded_migrate d r s')
  with assms(2) show ?thesis
    by (auto simp: covers_def hub_migrate_def outcome_simps outstanding_def)
next
  case (coins_arrive n)
  with assms(2) show ?thesis by (fastforce simp: covers_def)
next
  case (next_block h t cash queued)
  show ?thesis
    unfolding covers_def
  proof (intro allI impI)
    fix st assume "s_state (fh_store (th_hub \<lparr>th_hub = y, th_unbonding = us\<rparr>)) = Some st"
    with assms(2) next_block(5)
    show "unat (unclaimed_unstaked_balance st) + fh_queued (th_hub \<lparr>th_hub = y, th_unbonding = us\<rparr>)
        + outstanding (fh_store (th_hub \<lparr>th_hub = y, th_unbonding = us\<rparr>)) cutoff
      \<le> fh_cash (th_hub \<lparr>th_hub = y, th_unbonding = us\<rparr>)
        + coins_by cutoff (th_unbonding \<lparr>th_hub = y, th_unbonding = us\<rparr>)"
      by (auto simp: covers_def next_block(1) split: if_splits)
  qed
qed simp

lemma timely_invariant:
  assumes "0 < period"
  shows "invariant_of (timely_initial start len) (timely_step admitted start len period)
    (timely_inv admitted start len period)"
proof
  show "timely_inv admitted start len period x" if "timely_initial start len x" for x
    using that
  proof cases
    case (1 y)
    from 1(2) have inv: "funded_inv admitted start len y"
      by (intro funded_reachable reachable.intros)
    obtain s where "fh_store y = s" "s_unstake_history s = []"
      using 1(2) by (auto elim!: funded_initialE outcome_elims simp: hub_instantiate_def empty_hub_storage_def)
    then have "outstanding (fh_store y) cutoff = 0" for cutoff
      by (simp add: outstanding_def smap.weight_def)
    with inv show ?thesis by (auto simp: timely_inv_def 1(1) covers_def funded_inv_def)
  qed
  show "timely_inv admitted start len period y"
    if inv: "timely_inv admitted start len period x" and step: "timely_step admitted start len period x y" for x y
  proof -
    have funded: "funded_inv admitted start len (th_hub y)"
      using inv invariant_of.inv_step [OF funded_invariant _ timely_step_funded [OF step]]
      by (simp add: timely_inv_def)
    from step show ?thesis
    proof cases
      case (timely_message msg d e info x' r s' denom cash us)
      from message_covers [where admitted = admitted, OF _ timely_message(3-7)] inv funded assms show ?thesis
        by (auto simp: timely_inv_def timely_message(1,2))
    next
      case (timely_chain x' y' us)
      have "covers y cutoff" for cutoff
        using inv chain_covers [OF timely_chain(3)] unfolding timely_inv_def timely_chain(1,2) by simp
      with funded timely_chain(4) show ?thesis by (auto simp: timely_inv_def timely_chain(2))
    next
      case (coins_return x' us t a us')
      have "covers y cutoff" for cutoff
      proof -
        have "covers x cutoff" using inv by (simp add: timely_inv_def)
        then show ?thesis by (cases "t \<le> cutoff") (fastforce simp: coins_return covers_def)+
      qed
      with inv funded show ?thesis by (simp add: timely_inv_def coins_return)
    qed
  qed
qed

section \<open>Properties\<close>

lemma coins_by_late: "\<forall>(t, _) \<in> set us. cutoff < t \<Longrightarrow> coins_by cutoff us = 0"
  by (induction us) auto

text \<open>
  C3: On a timely chain matured claims are always paid. Suppose that the chain returns undelegated
  coins within its unbonding time, that the hub's unstaking period is at least as long, and that no
  message repeats a batch. Then, in every state reached so, every user whose entries in released
  or matured batches are worth something can withdraw at once unless the hub is paused, and is sent
  exactly that worth. No coins are assumed to be there: those that the hub undelegated for a batch
  are enough, and no other user, message, gift or overflow gets in the way.
\<close>

theorem timely_chain_pays:
  assumes "0 < period"
    and "reachable (timely_initial start len) (timely_step repeats_no_batch start len period) x"
    and "s = fh_store (th_hub x)" and "truthful d e info (th_hub x)"
    and "s_parameters s = Some p" "\<not> paused p" "period \<le> unat (unstaking_period p)"
    and "unat (unstaking_period p) \<le> fh_time (th_hub x)"
    and "cutoff = fh_time (th_hub x) - unat (unstaking_period p)"
    and "due = (\<Sum>b \<leftarrow> all_batches s (info_sender info). matured_worth s cutoff (info_sender info) b)" "0 < due"
  shows "\<exists>r s' paid. hub_execute d e info WithdrawUnstaked s = Inr (r, s')
    \<and> messages r = [BankSend (info_sender info)
        [\<lparr>coin_denom = staking_coin_denom p, coin_amount = paid\<rparr>]] \<and> unat paid = due"
proof -
  have inv: "timely_inv repeats_no_batch start len period x"
    by (rule invariant_of.inv_reachable [OF timely_invariant [OF assms(1)] assms(2)])
  obtain st where st: "s_state (fh_store (th_hub x)) = Some st"
    using inv by (auto simp: timely_inv_def funded_inv_def)
  have "coins_by cutoff (th_unbonding x) = 0"
    using inv assms(7-9) by (intro coins_by_late) (auto simp: timely_inv_def)
  moreover have "covers x cutoff" using inv by (simp add: timely_inv_def)
  ultimately have "unat (unclaimed_unstaked_balance st) + fh_queued (th_hub x)
      + outstanding (fh_store (th_hub x)) cutoff \<le> fh_cash (th_hub x)"
    using st by (simp add: covers_def)
  from matured_claims_are_paid [OF timely_reachable_funded [OF assms(2)] assms(4)
      assms(5) [unfolded assms(3)] assms(6,8) st assms(9) this assms(10) [unfolded assms(3)] assms(11)]
  show ?thesis by (simp add: assms(3))
qed

section \<open>Witnesses\<close>

text \<open>
  Two days of a hub without gifts: 90 coins are staked and delegated, 30 tokens are unstaked, the
  coins come back, and after the unstaking period they are paid out.
\<close>

definition timely :: "hub_storage \<Rightarrow> nat \<Rightarrow> nat \<Rightarrow> nat \<Rightarrow> nat \<Rightarrow> (nat \<times> nat) list \<Rightarrow> timely_hub" where
  "timely s h t c q us = \<lparr>th_hub = funded s h t c q, th_unbonding = us\<rparr>"

lemma timely_day_message:
  assumes "hub_execute d e info msg s = Inr (r, s')" and "repeats_no_batch msg"
    and "denom_of s = ''ubbn''" and "truthful d e info (funded s h t c q)"
    and "pays ''ubbn'' (messages r) + c' = c + coins_of ''ubbn'' (info_funds info)"
    and "q' = q + delegates (messages r)" and "u = undelegates (messages r)"
  shows "timely_step repeats_no_batch start len period (timely s h t c q us) (timely s' h t c' q' (us @ [(t, u)]))"
proof -
  have "timely_step repeats_no_batch start len period \<lparr>th_hub = funded s h t c q, th_unbonding = us\<rparr>
      \<lparr>th_hub = (funded s h t c q)\<lparr>fh_store := s', fh_cash := c',
         fh_queued := fh_queued (funded s h t c q) + delegates (messages r)\<rparr>,
       th_unbonding = us @ [(fh_time (funded s h t c q), undelegates (messages r))]\<rparr>"
    using timely_message [of repeats_no_batch msg d e info "funded s h t c q" r s' "''ubbn''" c' start len]
      assms(1-5) by (simp add: funded_def)
  then show ?thesis by (simp add: timely_def funded_def assms(6,7))
qed

lemma timely_day_block:
  assumes "funded_step (\<lambda>_. False) start len (funded s h t c q) (funded s' h' t' c' q')"
    and "\<forall>(sent, _) \<in> set us. t' < sent + period"
  shows "timely_step repeats_no_batch start len period (timely s h t c q us) (timely s' h' t' c' q' us)"
  unfolding timely_def using assms by (intro timely_chain) (simp_all add: funded_def)

lemma timely_day_return:
  assumes "reachable initial (timely_step repeats_no_batch start len period) (timely s h t c q ((sent, a) # us))"
  shows "reachable initial (timely_step repeats_no_batch start len period) (timely s h t (c + a) q us)"
proof -
  have "timely_step repeats_no_batch start len period (timely s h t c q ((sent, a) # us)) (timely s h t (c + a) q us)"
    using coins_return [of repeats_no_batch start len period "funded s h t c q" "[]" sent a us]
    by (simp add: timely_def funded_def)
  with assms show ?thesis by (rule reachable.intros)
qed

lemma timely_stake:
  "\<exists>r. hub_execute (quiet_chain 90 0 []) (at_block 115 1000000) (by_user alice [bbn 90]) Stake fresh_hub
      = Inr (r, staked_hub) \<and> pays ''ubbn'' (messages r) = 0 \<and> delegates (messages r) = 90
    \<and> undelegates (messages r) = 0"
proof -
  obtain r where run: "hub_execute (quiet_chain 90 0 []) (at_block 115 1000000) (by_user alice [bbn 90])
      Stake fresh_hub = Inr (r, staked_hub)" and und: "undelegates (messages r) = 0"
    by (simp add: day_eval undelegates_def prepare_wrapped_delegate_msg_def to_any_def cong: eval_cong)
  then obtain kind where "execute_stake (quiet_chain 90 0 []) (at_block 115 1000000)
      (by_user alice [bbn 90]) kind fresh_hub = Inr (r, staked_hub)"
    by (auto simp: hub_execute_def outcome_simps split: if_splits)
  from stake_moves [OF this] stake_accounts [OF this] run und show ?thesis
    by (simp add: fresh_hub_def sample_params_def by_user_def bbn_def)
qed

lemma timely_unstake:
  "\<exists>r. hub_execute (quiet_chain 0 45 [\<lparr>del_validator = ''val1'', del_amount = bbn 45\<rparr>,
        \<lparr>del_validator = ''val2'', del_amount = bbn 45\<rparr>]) (at_block 125 1001001) (by_user alice [])
      (Unstake 30) staked_hub = Inr (r, closed_hub)
    \<and> moves_nothing ''ubbn'' (messages r) \<and> undelegates (messages r) = 30"
proof -
  obtain r where run: "hub_execute (quiet_chain 0 45 [\<lparr>del_validator = ''val1'', del_amount = bbn 45\<rparr>,
        \<lparr>del_validator = ''val2'', del_amount = bbn 45\<rparr>]) (at_block 125 1001001) (by_user alice [])
      (Unstake 30) staked_hub = Inr (r, closed_hub)" and und: "undelegates (messages r) = 30"
    by (simp add: day_eval undelegates_def prepare_wrapped_undelegate_msg_def to_any_def cong: eval_cong)
  then have "execute_unstake (quiet_chain 0 45 [\<lparr>del_validator = ''val1'', del_amount = bbn 45\<rparr>,
        \<lparr>del_validator = ''val2'', del_amount = bbn 45\<rparr>]) (at_block 125 1001001) 30
      (info_sender (by_user alice [])) BurnFromFlow staked_hub = Inr (r, closed_hub)"
    by (auto simp: hub_execute_def outcome_simps split: if_splits)
  from unstake_moves [OF this] run und show ?thesis by blast
qed

lemma timely_config:
  "\<exists>h0 r r'. hub_instantiate sample_deps now (by_user sample_owner []) (sample_instantiate 10)
      empty_hub_storage = Inr (r, h0) \<and> s_parameters h0 = Some sample_params
    \<and> hub_execute (quiet_chain 0 0 []) now (by_user sample_owner []) (UpdateConfig None (Some sample_token)
        (Some sample_registry) (Some sample_dispatcher)) h0 = Inr (r', fresh_hub)
    \<and> undelegates (messages r') = 0"
  by (simp add: hub_execute_def execute_update_config_def is_authorized_sender_def fresh_hub_def
      to_checked_address_def instantiate_eval storage_eval sample_defs eval_simps fresh_state_def
      empty_hub_storage_def quiet_chain_def undelegates_def)

lemma two_days_of_a_hub:
  "reachable (timely_initial 100 10) (timely_step repeats_no_batch 100 10 2000) (timely closed_hub 235 1003001 30 0 [])"
proof -
  let ?r = "reachable (timely_initial 100 10) (timely_step repeats_no_batch 100 10 2000)"
    and ?step = "timely_step repeats_no_batch 100 10 2000"
  note step = reachable.intros(2)
  have careful [simp]: "repeats_no_batch (UpdateConfig a b c d)" "repeats_no_batch Stake"
    "repeats_no_batch (Unstake n)" for a b c d n
    by (simp_all add: repeats_no_batch_def)
  obtain h0 r r' where h0: "hub_instantiate sample_deps now (by_user sample_owner []) (sample_instantiate 10)
      empty_hub_storage = Inr (r, h0)" and params: "s_parameters h0 = Some sample_params"
    and conf: "hub_execute (quiet_chain 0 0 []) now (by_user sample_owner []) (UpdateConfig None
        (Some sample_token) (Some sample_registry) (Some sample_dispatcher)) h0 = Inr (r', fresh_hub)"
      "undelegates (messages r') = 0"
    using timely_config by blast
  have "funded_initial 100 10 (funded h0 115 1000000 0 0)"
    using funded_initial.intros [OF h0, of 100 10 0]
    by (simp add: funded_def now_def sample_instantiate_def)
  then have "?r (timely h0 115 1000000 0 0 [])"
    unfolding timely_def by (intro reachable.intros timely_initial.intros)
  moreover have "?step (timely h0 115 1000000 0 0 []) (timely fresh_hub 115 1000000 0 0 ([] @ [(1000000, 0)]))"
  proof -
    have denom: "denom_of h0 = ''ubbn''" by (simp add: denom_of_def params sample_params_def)
    have "truthful (quiet_chain 0 0 []) (at_block 115 1000000) (by_user sample_owner []) (funded h0 115 1000000 0 0)"
      by (rule truthful_quiet [OF denom]) simp_all
    moreover have "at_block 115 1000000 = now" by (simp add: at_block_def now_def)
    moreover have "execute_update_config (quiet_chain 0 0 []) (by_user sample_owner []) None (Some sample_token)
        (Some sample_registry) (Some sample_dispatcher) h0 = Inr (r', fresh_hub)"
      using conf by (auto simp: hub_execute_def outcome_simps split: if_splits)
    from settings_move(1) [OF this] have "moves_nothing ''ubbn'' (messages r')" .
    ultimately show ?thesis
      by (intro timely_day_message [OF conf(1)]) (simp_all add: moves_nothing_def denom conf(2))
  qed
  ultimately have "?r (timely fresh_hub 115 1000000 0 0 [(1000000, 0)])" by (auto intro: step)
  then have "?r (timely fresh_hub 115 1000000 0 0 [])"
    using timely_day_return by fastforce
  moreover obtain r1 where "hub_execute (quiet_chain 90 0 []) (at_block 115 1000000) (by_user alice [bbn 90])
      Stake fresh_hub = Inr (r1, staked_hub)" "pays ''ubbn'' (messages r1) = 0" "delegates (messages r1) = 90"
      "undelegates (messages r1) = 0"
    using timely_stake by blast
  then have "?step (timely fresh_hub 115 1000000 0 0 []) (timely staked_hub 115 1000000 90 90 ([] @ [(1000000, 0)]))"
    by (elim timely_day_message [OF _ careful(2) hub_denoms(1) truthful_quiet [OF hub_denoms(1)]])
      (simp_all add: bbn_def)
  ultimately have "?r (timely staked_hub 115 1000000 90 90 [(1000000, 0)])" by (auto intro: step)
  then have "?r (timely staked_hub 115 1000000 90 90 [])"
    using timely_day_return by fastforce
  moreover have "?step (timely staked_hub 115 1000000 90 90 []) (timely staked_hub 125 1001001 0 0 [])"
    using next_block [of "funded staked_hub 115 1000000 90 90" 125 1001001 0 100 10 0]
    by (intro timely_day_block) (simp_all add: funded_def chain_epoch_def)
  ultimately have "?r (timely staked_hub 125 1001001 0 0 [])" by (rule step)
  moreover obtain r2 dels where "hub_execute (quiet_chain 0 45 dels) (at_block 125 1001001)
      (by_user alice []) (Unstake 30) staked_hub = Inr (r2, closed_hub)"
    "moves_nothing ''ubbn'' (messages r2)" "undelegates (messages r2) = 30"
    using timely_unstake by blast
  then have "?step (timely staked_hub 125 1001001 0 0 []) (timely closed_hub 125 1001001 0 0 ([] @ [(1001001, 30)]))"
    by (elim timely_day_message [OF _ careful(3) hub_denoms(2) truthful_quiet [OF hub_denoms(2)]])
      (simp_all add: moves_nothing_def)
  ultimately have "?r (timely closed_hub 125 1001001 0 0 [(1001001, 30)])" by (auto intro: step)
  then have "?r (timely closed_hub 125 1001001 30 0 [])"
    using timely_day_return by fastforce
  moreover have "?step (timely closed_hub 125 1001001 30 0 []) (timely closed_hub 235 1003001 30 0 [])"
    using next_block [of "funded closed_hub 125 1001001 30 0" 235 1003001 30 100 10 0]
    by (intro timely_day_block) (simp_all add: funded_def chain_epoch_def)
  ultimately show ?thesis by (rule step)
qed

lemma timely_chain_pays_witness:
  "\<exists>r s' paid. hub_execute (quiet_chain 30 30 []) (at_block 235 1003001) (by_user alice [])
      WithdrawUnstaked closed_hub = Inr (r, s')
    \<and> messages r = [BankSend alice [\<lparr>coin_denom = ''ubbn'', coin_amount = paid\<rparr>]] \<and> unat paid = 30"
proof -
  let ?x = "timely closed_hub 235 1003001 30 0 []"
  have true: "truthful (quiet_chain 30 30 []) (at_block 235 1003001) (by_user alice []) (th_hub ?x)"
    unfolding timely_def timely_hub.simps by (rule truthful_quiet [OF hub_denoms(3)]) simp_all
  have items: "s_parameters closed_hub = Some sample_params" "\<not> paused sample_params"
    "2000 \<le> unat (unstaking_period sample_params)" "unat (unstaking_period sample_params) \<le> fh_time (th_hub ?x)"
    by (simp_all add: timely_def funded_def closed_hub_def fresh_hub_def sample_params_def)
  have cutoff: "1001001 = fh_time (th_hub ?x) - unat (unstaking_period sample_params)"
    by (simp add: timely_def funded_def sample_params_def)
  have due: "30 = (\<Sum>b \<leftarrow> all_batches closed_hub (info_sender (by_user alice [])).
      matured_worth closed_hub 1001001 (info_sender (by_user alice [])) b)"
    by (simp add: closed_hub_def all_batches_def prefix_range_def range_from_def
        matured_worth_def may_load_def sample_history_def decimal_one_def by_user_def)
  have "closed_hub = fh_store (th_hub ?x)" by (simp add: timely_def funded_def)
  from timely_chain_pays [OF _ two_days_of_a_hub this true items cutoff due] show ?thesis
    by (simp add: by_user_def sample_params_def)
qed

end
