(* ===== verification/Hub_Book.thy ===== *)
theory Hub_Book
  imports Hub_Claims
begin

text \<open>
  What the hub promises about unstaking, apart from how it stores it: a book of claims over
  natural numbers, with four operations. A request adds to an entry of the open batch; closing
  fixes the rate and the time of the open batch and opens the next; a release marks the batches
  that have matured and are covered, in order; a payment settles entries of released batches. The
  storage of the hub (current batch, wait list, histories, state) abstracts to a book, and every
  message of the hub is a sequence of these operations on it (refinement).
\<close>

section \<open>The book\<close>

record closed_batch =
  c_tokens :: nat
  c_rate :: nat        \<comment> \<open>in units of \<open>10 ^ -18\<close>\<close>
  c_time :: u64
  c_released :: bool

record book =
  bk_open :: u64
  bk_requested :: nat
  bk_entries :: "addr \<Rightarrow> u64 \<Rightarrow> nat"
  bk_batches :: "u64 \<Rightarrow> closed_batch option"
  bk_done :: u64
  bk_unclaimed :: nat

definition empty_book :: book where
  "empty_book = \<lparr>bk_open = 1, bk_requested = 0, bk_entries = (\<lambda>_ _. 0), bk_batches = (\<lambda>_. None),
     bk_done = 0, bk_unclaimed = 0\<rparr>"

datatype book_op =
    Request addr nat
  | Close nat u64                     \<comment> \<open>the rate, the time\<close>
  | Release u64 nat                   \<comment> \<open>the latest time, the coins at hand\<close>
  | Pay addr "u64 list option"        \<comment> \<open>the batches, all closed ones by default\<close>

definition worth :: "closed_batch \<Rightarrow> nat \<Rightarrow> nat" where
  "worth c n = n * c_rate c div 10 ^ 18"

definition entry_worth :: "book \<Rightarrow> addr \<Rightarrow> u64 \<Rightarrow> nat" where
  "entry_worth b a i = (case bk_batches b i of None \<Rightarrow> 0
     | Some c \<Rightarrow> if c_released c then worth c (bk_entries b a i) else 0)"

definition released_in :: "book \<Rightarrow> u64 \<Rightarrow> bool" where
  "released_in b i = (case bk_batches b i of None \<Rightarrow> False | Some c \<Rightarrow> c_released c)"

definition closed_ids :: "book \<Rightarrow> u64 list" where
  "closed_ids b = map of_nat [1..<unat (bk_open b)]"

text \<open>The next batch is released while it has matured and the coins cover all that is then
  unclaimed; the bound is the number of batches.\<close>

fun release :: "nat \<Rightarrow> u64 \<Rightarrow> nat \<Rightarrow> book \<Rightarrow> book" where
  "release 0 cutoff funds b = b"
| "release (Suc k) cutoff funds b =
     (let i = bk_done b + 1 in
      case bk_batches b i of
        None \<Rightarrow> b
      | Some c \<Rightarrow>
          if \<not> c_released c \<and> c_time c \<le> cutoff \<and> bk_unclaimed b + worth c (c_tokens c) \<le> funds
          then release k cutoff funds (b\<lparr>bk_done := i,
            bk_batches := (bk_batches b)(i \<mapsto> c\<lparr>c_released := True\<rparr>),
            bk_unclaimed := bk_unclaimed b + worth c (c_tokens c)\<rparr>)
          else b)"

text \<open>Each operation with the payments it makes.\<close>

fun book_do :: "book_op \<Rightarrow> book \<Rightarrow> book \<times> (addr \<times> nat) list" where
  "book_do (Request a n) b =
     (b\<lparr>bk_requested := bk_requested b + n,
        bk_entries := (\<lambda>a' i. bk_entries b a' i + (if a' = a \<and> i = bk_open b then n else 0))\<rparr>, [])"
| "book_do (Close rate t) b =
     (b\<lparr>bk_batches := (bk_batches b)(bk_open b \<mapsto>
          \<lparr>c_tokens = bk_requested b, c_rate = rate, c_time = t, c_released = False\<rparr>),
        bk_open := bk_open b + 1, bk_requested := 0\<rparr>, [])"
| "book_do (Release cutoff funds) b = (release (unat (bk_open b)) cutoff funds b, [])"
| "book_do (Pay a chosen) b =
     (let ids = (case chosen of None \<Rightarrow> closed_ids b | Some ids \<Rightarrow> ids);
          n = (\<Sum>i \<leftarrow> ids. entry_worth b a i) in
      (b\<lparr>bk_entries := (\<lambda>a' i. if a' = a \<and> i \<in> set ids \<and> released_in b i then 0 else bk_entries b a' i),
         bk_unclaimed := bk_unclaimed b - n\<rparr>, [(a, n)]))"

fun book_run :: "book_op list \<Rightarrow> book \<Rightarrow> book \<times> (addr \<times> nat) list" where
  "book_run [] b = (b, [])"
| "book_run (oper # opers) b =
     (let (b', paid) = book_do oper b; (b'', paid') = book_run opers b' in (b'', paid @ paid'))"

section \<open>The hub as a book\<close>

definition closed_of :: "unstake_history \<Rightarrow> closed_batch" where
  "closed_of h = \<lparr>c_tokens = unat (lst_token_amount h), c_rate = unat (atomics (lst_withdraw_rate h)),
     c_time = uh_time h, c_released = released h\<rparr>"

definition book_with :: "hub_storage \<Rightarrow> current_batch \<Rightarrow> hub_state \<Rightarrow> book" where
  "book_with s cb st = \<lparr>bk_open = cb_id cb, bk_requested = unat (requested_lst_token_amount cb),
     bk_entries = waiting s, bk_batches = (\<lambda>i. map_option closed_of (may_load (s_unstake_history s) i)),
     bk_done = last_processed_batch st, bk_unclaimed = unat (unclaimed_unstaked_balance st)\<rparr>"

definition book_of :: "hub_storage \<Rightarrow> book" where
  "book_of s = (case s_current_batch s of None \<Rightarrow> empty_book | Some cb \<Rightarrow>
     (case s_state s of None \<Rightarrow> empty_book | Some st \<Rightarrow> book_with s cb st))"

text \<open>What a message is on the book. The inputs come from outside: whose address it is, the rate
  of the slashing check and the time, and the coins at hand.\<close>

definition request_ops :: "deps \<Rightarrow> string \<Rightarrow> uint128 \<Rightarrow> book_op list" where
  "request_ops d sender amount =
     (case addr_validate d sender of Inl _ \<Rightarrow> [] | Inr a \<Rightarrow> [Request a (unat amount)])"

definition closing_ops :: "deps \<Rightarrow> env \<Rightarrow> hub_storage \<Rightarrow> book_op list" where
  "closing_ops d e s = (case (s_parameters s, s_state s) of
       (Some p, Some st0) \<Rightarrow> (case query_actual_state d e s st0 of
           Inr st \<Rightarrow>
             if unat (epoch_length p) < unat (block_time e) - unat (last_unbonded_time st)
             then [Close (unat (atomics (lst_exchange_rate st))) (block_time e)] else []
         | Inl _ \<Rightarrow> [])
     | _ \<Rightarrow> [])"

definition release_ops :: "deps \<Rightarrow> env \<Rightarrow> hub_storage \<Rightarrow> book_op list" where
  "release_ops d e s = (case s_parameters s of None \<Rightarrow> [] | Some p \<Rightarrow>
     (case (get_pending_delegation_amount e s,
            query_balance d (contract_address e) (staking_coin_denom p)) of
        (Inr (ps, pu), Inr bal) \<Rightarrow>
          [Release (block_time e - unstaking_period p) (unat (coin_amount bal) - unat ps)]
      | _ \<Rightarrow> []))"

definition ops_of ::
    "deps \<Rightarrow> env \<Rightarrow> message_info \<Rightarrow> hub_execute_msg \<Rightarrow> hub_storage \<Rightarrow> book_op list" where
  "ops_of d e info msg s = (case msg of
       Receive m \<Rightarrow> request_ops d (receive_sender m) (receive_amount m) @ closing_ops d e s
     | Unstake n \<Rightarrow> request_ops d (info_sender info) n @ closing_ops d e s
     | ProcessUndelegations \<Rightarrow> if bk_requested (book_of s) = 0 then [] else closing_ops d e s
     | ProcessWithdrawRequests \<Rightarrow> release_ops d e s
     | WithdrawUnstaked \<Rightarrow> release_ops d e s @ [Pay (info_sender info) None]
     | WithdrawUnstakedForBatches ids \<Rightarrow> release_ops d e s @ [Pay (info_sender info) (Some ids)]
     | _ \<Rightarrow> [])"

text \<open>The payments among the messages of a response.\<close>

fun sends :: "cosmos_msg list \<Rightarrow> (addr \<times> coin list) list" where
  "sends [] = []"
| "sends (BankSend a cs # ms) = (a, cs) # sends ms"
| "sends (_ # ms) = sends ms"

section \<open>Lemmas\<close>

lemma sends_append [simp]: "sends (ms @ ms') = sends ms @ sends ms'"
  by (induction ms rule: sends.induct) auto

lemma sends_prepared [simp]:
  "sends (map (\<lambda>(v, a). prepare_wrapped_delegate_msg denom (f a) x v) shares) = []"
  "sends (map (\<lambda>(v, a). prepare_wrapped_undelegate_msg denom (f a) x v) shares) = []"
  "sends (map (\<lambda>(v, c). prepare_wrapped_begin_redelegate_msg (g c) (h c) x y v) reds) = []"
  "sends (map (\<lambda>del. WithdrawDelegatorReward (del_validator del)) dels) = []"
  by (induction shares, simp_all add: prepare_wrapped_delegate_msg_def prepare_wrapped_undelegate_msg_def
      to_any_def Let_def split_beta)
    (induction reds, auto simp: prepare_wrapped_begin_redelegate_msg_def to_any_def, induction dels, auto)

lemma book_of_items: "s_current_batch s = Some cb \<Longrightarrow> s_state s = Some st \<Longrightarrow> book_of s = book_with s cb st"
  by (simp add: book_of_def)

text \<open>What the book does not see.\<close>

lemma book_untouched [simp]:
  "book_with (s\<lparr>s_state := x1\<rparr>) cb st = book_with s cb st"
  "book_with (s\<lparr>s_config := x2\<rparr>) cb st = book_with s cb st"
  "book_with (s\<lparr>s_parameters := x3\<rparr>) cb st = book_with s cb st"
  "book_with (s\<lparr>s_pending_delegation := x4\<rparr>) cb st = book_with s cb st"
  "book_with (s\<lparr>s_current_batch := x5\<rparr>) cb st = book_with s cb st"
  "book_with s cb (st\<lparr>total_staked_amount := x6\<rparr>) = book_with s cb st"
  "book_with s cb (st\<lparr>lst_exchange_rate := x7\<rparr>) = book_with s cb st"
  "book_with s cb (st\<lparr>last_unbonded_time := x8\<rparr>) = book_with s cb st"
  "book_with s cb (st\<lparr>last_index_modification := x9\<rparr>) = book_with s cb st"
  by (simp_all add: book_with_def waiting_def fun_eq_iff)

lemma book_run_append:
  "book_run (opers @ opers') b = (let (b', paid) = book_run opers b; (b'', paid') = book_run opers' b'
     in (b'', paid @ paid'))"
  by (induction opers arbitrary: b) (auto simp: Let_def split_beta)

lemma worth_closed [simp]: "worth (closed_of h) (c_tokens (closed_of h)) = owed h"
  by (simp add: worth_def closed_of_def owed_def)

subsection \<open>Releases\<close>

lemma release_run:
  assumes "releasable_run s cutoff n run" and "run_stops s cutoff (n + length run) left"
    and "funds = bk_unclaimed b + (\<Sum>(i, h) \<leftarrow> run. owed h) + unat left" and "length run < k"
    and "\<And>i. n \<le> unat i \<Longrightarrow> bk_batches b i = map_option closed_of (may_load (s_unstake_history s) i)"
    and "unat (bk_done b) + 1 = n" and "n + length run < 2 ^ 64"
  shows "release k cutoff funds b = b\<lparr>
      bk_done := (if run = [] then bk_done b else fst (last run)),
      bk_batches := (\<lambda>i. if i \<in> fst ` set run then map_option (\<lambda>c. c\<lparr>c_released := True\<rparr>) (bk_batches b i)
        else bk_batches b i),
      bk_unclaimed := bk_unclaimed b + (\<Sum>(i, h) \<leftarrow> run. owed h)\<rparr>"
  using assms
proof (induction run arbitrary: n b k)
  case Nil
  obtain k' where k: "k = Suc k'" using Nil.prems(4) by (cases k) auto
  have i: "unat (bk_done b + 1) = n"
    using Nil.prems(6,7) by (simp add: unat_word_ariths)
  have "case may_load (s_unstake_history s) (bk_done b + 1) of None \<Rightarrow> True
      | Some h \<Rightarrow> cutoff < uh_time h \<or> released h \<or> unat left < owed h"
    using Nil.prems(2) i by (simp add: run_stops_def)
  then show ?case
    using Nil.prems(3) Nil.prems(5) [of "bk_done b + 1"] i
    by (auto simp: k Let_def closed_of_def worth_def owed_def split: option.splits)
next
  case (Cons ih run)
  obtain i h where ih: "ih = (i, h)" by force
  obtain k' where k: "k = Suc k'" using Cons.prems(4) by (cases k) auto
  from Cons.prems(1) have first: "unat i = n" "may_load (s_unstake_history s) i = Some h"
    "\<not> released h" "uh_time h \<le> cutoff" and rest: "releasable_run s cutoff (Suc n) run"
    by (simp_all add: ih)
  have i: "bk_done b + 1 = i"
    using Cons.prems(6,7) first(1) by (simp add: word_unat_eq_iff unat_word_ariths)
  let ?b = "b\<lparr>bk_done := i, bk_batches := (bk_batches b)(i \<mapsto> (closed_of h)\<lparr>c_released := True\<rparr>),
    bk_unclaimed := bk_unclaimed b + owed h\<rparr>"
  have batch: "bk_batches b i = Some (closed_of h)"
    using Cons.prems(5) [of i] first by simp
  have step: "release k cutoff funds b = release k' cutoff funds ?b"
    using first Cons.prems(3) by (simp add: k i Let_def batch ih) (simp add: closed_of_def)
  have "release k' cutoff funds ?b = ?b\<lparr>
      bk_done := (if run = [] then bk_done ?b else fst (last run)),
      bk_batches := (\<lambda>j. if j \<in> fst ` set run then map_option (\<lambda>c. c\<lparr>c_released := True\<rparr>) (bk_batches ?b j)
        else bk_batches ?b j),
      bk_unclaimed := bk_unclaimed ?b + (\<Sum>(i, h) \<leftarrow> run. owed h)\<rparr>"
    by (rule Cons.IH [OF rest]) (use Cons.prems first in \<open>auto simp: ih k\<close>)
  moreover have "i \<notin> fst ` set run"
    using releasable_run_ge [OF rest] first(1) by force
  ultimately show ?case
    by (simp add: step ih fun_eq_iff batch)
qed


lemma release_ops_eq:
  assumes "free_balance_and_cutoff d e s = Inr (params, free, cutoff)"
  shows "release_ops d e s = [Release cutoff (unat free)]" and "s_parameters s = Some params"
proof -
  note cut = free_balance_and_cutoff_InrD [OF assms]
  have "block_time e - unstaking_period params = cutoff"
    using cut(2) by (rule cutoff_unique)
  with cut(1,3) show "release_ops d e s = [Release cutoff (unat free)]"
    by (auto simp: release_ops_def)
  show "s_parameters s = Some params" by (rule cut(1))
qed

lemma release_simulated:
  assumes rate: "process_withdraw_rate d cutoff free s = Inr (evs, left, s1)"
    and items: "s_state s = Some st" "s_current_batch s = Some cb" "s_state s1 = Some st1"
    and inv: "queue_inv s cb (last_processed_batch st)"
  shows "release (unat (cb_id cb)) cutoff (unat free) (book_with s cb st)
      = (book_with s1 cb st1)\<lparr>bk_unclaimed := unat free - unat left\<rparr>"
proof -
  obtain run st2 where run:
    "releasable_run s cutoff (unat (last_processed_batch st) + 1) run"
    "run_stops s cutoff (unat (last_processed_batch st) + 1 + length run) left"
    "unat free = unat (unclaimed_unstaked_balance st) + (\<Sum>(b, h) \<leftarrow> run. owed h) + unat left"
    "st2 = st\<lparr>last_processed_batch := (if run = [] then last_processed_batch st else fst (last run))\<rparr>"
    "\<And>b. may_load (s_unstake_history s1) b =
       (if b \<in> fst ` set run then map_option (\<lambda>h. h\<lparr>released := True\<rparr>) (may_load (s_unstake_history s) b)
        else may_load (s_unstake_history s) b)"
    "s1\<lparr>s_state := s_state s, s_unstake_history := s_unstake_history s\<rparr> = s"
    and st2: "s_state s1 = Some st2"
    by (rule process_withdraw_rate_effect [OF rate items(1)], rule that)
  have processed: "last_processed_batch st1 = (if run = [] then last_processed_batch st else fst (last run))"
    using st2 items(3) run(4) by simp
  have open_id: "unat (last_processed_batch st) < unat (cb_id cb)" "unat (cb_id cb) < 2 ^ 64"
    using inv unat_less [of "cb_id cb"] by (simp_all add: queue_inv_def)
  have short: "unat (last_processed_batch st) + length run < unat (cb_id cb)"
  proof (cases "run = []")
    case False
    then have "may_load (s_unstake_history s) (fst (last run)) \<noteq> None"
      using releasable_run_stored [OF run(1), of "fst (last run)" "snd (last run)"] by simp
    with inv have "unat (fst (last run)) < unat (cb_id cb)"
      by (simp add: queue_inv_def)
    with releasable_run_last [OF run(1) False] show ?thesis by simp
  qed (use open_id in simp)
  have waiting: "waiting s1 = waiting s"
    using arg_cong [OF run(6), of s_unstake_wait_list] by (simp add: waiting_def fun_eq_iff)
  have "release (unat (cb_id cb)) cutoff (unat free) (book_with s cb st) = (book_with s cb st)\<lparr>
      bk_done := (if run = [] then bk_done (book_with s cb st) else fst (last run)),
      bk_batches := (\<lambda>i. if i \<in> fst ` set run
        then map_option (\<lambda>c. c\<lparr>c_released := True\<rparr>) (bk_batches (book_with s cb st) i)
        else bk_batches (book_with s cb st) i),
      bk_unclaimed := bk_unclaimed (book_with s cb st) + (\<Sum>(i, h) \<leftarrow> run. owed h)\<rparr>"
    by (rule release_run [OF run(1,2)]) (use run(3) short open_id in \<open>auto simp: book_with_def\<close>)
  also have "\<dots> = (book_with s1 cb st1)\<lparr>bk_unclaimed := unat free - unat left\<rparr>"
    using run(3) by (auto simp: book_with_def waiting processed run(5) fun_eq_iff option.map_comp comp_def closed_of_def)
  finally show ?thesis .
qed

subsection \<open>Payments\<close>

lemma entry_worth_claim:
  assumes "queue_inv s cb lp"
  shows "entry_worth ((book_with s cb' st)\<lparr>bk_unclaimed := x\<rparr>) a i = user_claim s a i"
  using assms
  by (auto simp: entry_worth_def book_with_def user_claim_def claim_def waiting_def worth_def
      closed_of_def queue_inv_def split: option.splits)

lemma released_in_book:
  "released_in ((book_with s cb st)\<lparr>bk_unclaimed := x\<rparr>) i = is_released s i"
  by (simp add: released_in_def book_with_def is_released_def closed_of_def split: option.split)

lemma set_closed_ids:
  shows "i \<in> set (closed_ids b) \<longleftrightarrow> 1 \<le> unat i \<and> unat i < unat (bk_open b)"
    and "distinct (closed_ids b)"
proof -
  have unat_id: "unat (of_nat k :: u64) = k" if "k < unat (bk_open b)" for k
    using that unat_less [of "bk_open b"] by (simp add: unat_of_nat)
  show "distinct (closed_ids b)"
    unfolding closed_ids_def distinct_map
    by (intro conjI distinct_upt inj_on_inverseI [of _ unat]) (simp add: unat_id)
  have "i = of_nat (unat i)" by simp
  then show "i \<in> set (closed_ids b) \<longleftrightarrow> 1 \<le> unat i \<and> unat i < unat (bk_open b)"
    unfolding closed_ids_def using unat_id by (force simp del: of_nat_unat)
qed

text \<open>Paying all closed batches is paying the batches that the user waits for.\<close>

lemma all_closed_batches:
  assumes inv: "queue_inv s cb lp" and "bk_open b = cb_id cb"
  shows "(\<Sum>i \<leftarrow> closed_ids b. user_claim s a i) = (\<Sum>i \<leftarrow> all_batches s a. user_claim s a i)"
proof -
  have sorted: "sorted_keys (s_unstake_wait_list s)"
    using inv by (simp add: queue_inv_def)
  have entry: "i \<in> set (all_batches s a)" if "user_claim s a i \<noteq> 0" for i
  proof -
    from that obtain v where "may_load (s_unstake_wait_list s) (a, i) = Some v"
      by (auto simp: user_claim_def split: option.splits)
    with prefix_range_mem [OF sorted, of i v a] show ?thesis by (force simp: all_batches_def)
  qed
  have closed: "i \<in> set (closed_ids b)" if "user_claim s a i \<noteq> 0" for i
  proof -
    from that have "may_load (s_unstake_history s) i \<noteq> None"
      by (auto simp: user_claim_def claim_def split: option.splits)
    with inv assms(2) show ?thesis by (simp add: set_closed_ids(1) queue_inv_def)
  qed
  have "(\<Sum>i \<in> set (closed_ids b). user_claim s a i) = (\<Sum>i \<in> set (all_batches s a). user_claim s a i)"
    by (rule sum.mono_neutral_cong) (use entry closed in auto)
  then show ?thesis
    using set_closed_ids(2) distinct_all_batches [OF sorted] by (simp add: sum_list_distinct_conv_sum_set)
qed

lemma payment_simulated:
  assumes inv: "queue_inv s1 cb lp"
    and same: "s_unstake_wait_list s1 = s_unstake_wait_list s"
    and paid: "unat paid = (\<Sum>b \<leftarrow> chosen_batches s a ids. user_claim s1 a b)"
    and sum: "unat free = unat paid + unat left + unat unclaimed"
    and wait: "may_load wait = (\<lambda>(a', b). if a' = a \<and> b \<in> set (chosen_batches s a ids)
         \<and> is_released s1 b then None else may_load (s_unstake_wait_list s) (a', b))"
    and s': "s_unstake_wait_list s' = wait" "s_unstake_history s' = s_unstake_history s1"
  shows "book_do (Pay a ids) ((book_with s1 cb st1)\<lparr>bk_unclaimed := unat free - unat left\<rparr>)
    = (book_with s' cb (st1\<lparr>unclaimed_unstaked_balance := unclaimed\<rparr>), [(a, unat paid)])"
proof -
  let ?b = "(book_with s1 cb st1)\<lparr>bk_unclaimed := unat free - unat left\<rparr>"
  let ?ids = "case ids of None \<Rightarrow> closed_ids ?b | Some ids \<Rightarrow> ids"
  have opened: "bk_open ?b = cb_id cb" by (simp add: book_with_def)
  have all: "all_batches s a = all_batches s1 a" by (simp add: all_batches_def same)
  have n: "(\<Sum>i \<leftarrow> ?ids. entry_worth ?b a i) = unat paid"
    unfolding entry_worth_claim [OF inv] paid chosen_batches_def
    using all_closed_batches [OF inv opened, of a] by (cases ids) (simp_all add: all)
  have sorted: "sorted_keys (s_unstake_wait_list s)"
    using inv same by (simp add: queue_inv_def)
  have none: "waiting s a i = 0" if "i \<notin> set (all_batches s a)" for i
  proof (rule ccontr)
    assume "waiting s a i \<noteq> 0"
    then obtain v where "may_load (s_unstake_wait_list s) (a, i) = Some v"
      by (auto simp: waiting_def split: option.splits)
    with prefix_range_mem [OF sorted] have "(i, v) \<in> set (prefix_range a None (s_unstake_wait_list s))"
      by simp
    then have "i \<in> set (all_batches s a)"
      unfolding all_batches_def by force
    with that show False ..
  qed
  have released: "is_released s1 i \<Longrightarrow> i \<in> set (closed_ids ?b)" for i
    using inv by (auto simp: set_closed_ids(1) opened is_released_def queue_inv_def split: option.splits)
  have "(if a' = a \<and> i \<in> set ?ids \<and> released_in ?b i then 0 else bk_entries ?b a' i) = waiting s' a' i"
    for a' i
  proof -
    have "waiting s' a' i = (if a' = a \<and> i \<in> set (chosen_batches s a ids) \<and> is_released s1 i then 0
        else waiting s a' i)"
      by (simp add: waiting_def s'(1) wait)
    moreover have "bk_entries ?b a' i = waiting s a' i"
      by (simp add: book_with_def waiting_def same)
    ultimately show ?thesis
      using none [of i] released [of i] unfolding released_in_book
      by (cases ids) (auto simp: chosen_batches_def)
  qed
  then have entries: "(\<lambda>a' i. if a' = a \<and> i \<in> set ?ids \<and> released_in ?b i then 0
      else bk_entries ?b a' i) = waiting s'"
    by (intro ext)
  have "book_do (Pay a ids) ?b = (?b\<lparr>bk_entries := waiting s',
      bk_unclaimed := bk_unclaimed ?b - unat paid\<rparr>, [(a, unat paid)])"
    unfolding book_do.simps Let_def n entries ..
  also have "\<dots> = (book_with s' cb (st1\<lparr>unclaimed_unstaked_balance := unclaimed\<rparr>), [(a, unat paid)])"
    using sum by (simp add: book_with_def s'(2))
  finally show ?thesis .
qed

subsection \<open>Requests and closing\<close>

lemma request_simulated:
  assumes "update_unstake_batch_wait_list d cb sender amount s = Inr (cb1, s1)"
  obtains a requested v where "addr_validate d sender = Inr a"
    "cb1 = cb\<lparr>requested_lst_token_amount := requested\<rparr>"
    "s1 = s\<lparr>s_unstake_wait_list := save (a, cb_id cb) v (s_unstake_wait_list s)\<rparr>"
    "book_do (Request a (unat amount)) (book_with s cb st) = (book_with s1 cb1 st, [])"
proof -
  from assms obtain a requested v where out: "addr_validate d sender = Inr a"
    "cb1 = cb\<lparr>requested_lst_token_amount := requested\<rparr>"
    "unat requested = unat (requested_lst_token_amount cb) + unat amount"
    "s1 = s\<lparr>s_unstake_wait_list := save (a, cb_id cb) v (s_unstake_wait_list s)\<rparr>"
    "unat v = waiting s a (cb_id cb) + unat amount"
    by (rule update_unstake_batch_wait_list_InrD) (rule that)
  have load: "may_load (s_unstake_wait_list s1) = (may_load (s_unstake_wait_list s))((a, cb_id cb) \<mapsto> v)"
    by (simp add: out(4))
  have "waiting s1 a' i = waiting s a' i + (if a' = a \<and> i = cb_id cb then unat amount else 0)" for a' i
    unfolding waiting_def [of s1] load using out(5) by (simp add: waiting_def [of s])
  then have "waiting s1 = (\<lambda>a' i. waiting s a' i + (if a' = a \<and> i = cb_id cb then unat amount else 0))"
    by (simp add: fun_eq_iff)
  with out(2-4) have "book_do (Request a (unat amount)) (book_with s cb st) = (book_with s1 cb1 st, [])"
    by (simp add: book_with_def)
  with out(1,2,4) show ?thesis by (rule that)
qed

lemma closing_simulated:
  assumes run: "check_for_unstake_batch_epoch_completion d e cb s = Inr (msgs, evs, cb', s')"
    and st0: "s_state s = Some st0"
  shows "book_run (closing_ops d e s) (book_with s cb st0) = (book_of s', [])" and "sends msgs = []"
proof -
  have "book_run (closing_ops d e s) (book_with s cb st0) = (book_of s', []) \<and> sends msgs = []"
    using run
  proof (cases rule: epoch_completion_cases)
    case (waiting params st0' st)
    obtain total rate where st: "st = st0\<lparr>total_staked_amount := total, lst_exchange_rate := rate\<rparr>"
      using waiting(2,3) st0 by (auto elim!: query_actual_state_frame)
    have "book_of s' = book_with s cb st0"
      unfolding waiting(8) book_of_def by (simp add: st)
    moreover have "closing_ops d e s = []"
      using waiting st0 by (simp add: closing_ops_def)
    ultimately show ?thesis by (simp add: waiting(6))
  next
    case (closed params st0' st st' s2)
    obtain total rate where st: "st = st0\<lparr>total_staked_amount := total, lst_exchange_rate := rate\<rparr>"
      using closed(2,3) st0 by (auto elim!: query_actual_state_frame)
    obtain total' next_id pd' where out:
      "st' = st\<lparr>total_staked_amount := total', last_unbonded_time := block_time e\<rparr>"
      "unat next_id = unat (cb_id cb) + 1"
      "cb' = cb\<lparr>cb_id := next_id, requested_lst_token_amount := 0\<rparr>"
      "s2 = s\<lparr>s_state := Some st, s_pending_delegation := Some pd',
         s_unstake_history := save (cb_id cb)
           \<lparr>uh_batch_id = cb_id cb, uh_time = block_time e,
            lst_token_amount = requested_lst_token_amount cb,
            lst_applied_exchange_rate = lst_exchange_rate st,
            lst_withdraw_rate = lst_exchange_rate st, released = False\<rparr> (s_unstake_history s)\<rparr>"
      using closed(6) by (rule process_undelegations_for_batch_InrD) simp
    have ops: "closing_ops d e s = [Close (unat (atomics (lst_exchange_rate st))) (block_time e)]"
      using closed st0 by (simp add: closing_ops_def)
    have "next_id = cb_id cb + 1"
      using out(2) unat_less [of next_id] by (simp add: word_unat_eq_iff unat_word_ariths)
    then have "book_of s' = book_with s' cb' st'"
      by (simp add: book_of_def closed(7))
    moreover have "book_do (Close (unat (atomics (lst_exchange_rate st))) (block_time e)) (book_with s cb st0)
        = (book_with s' cb' st', [])"
      using \<open>next_id = _\<close>
      by (simp add: book_with_def closed(7) out(1,3,4) st closed_of_def waiting_def fun_eq_iff)
    moreover have "sends msgs = []"
      using closed(6) by (auto simp: process_undelegations_for_batch_def
          pick_validator_for_undelegation_def outcome_simps Let_def)
    ultimately show ?thesis by (simp add: ops)
  qed
  then show "book_run (closing_ops d e s) (book_with s cb st0) = (book_of s', [])" "sends msgs = []"
    by simp_all
qed

subsection \<open>The handlers\<close>

lemma stake_silent:
  assumes "execute_stake d e info kind s = Inr (r, s')"
  shows "sends (messages r) = []"
  using assms unfolding execute_stake_def
proof (elim outcome_elims, goal_cases)
  case (1 params config st0 dispatcher batch payment _ evs _ st s1 issued minted supp total st'
      s2 _ evs' s3 registry vs ds msgs)
  have "sends msgs = []"
    using 1(24) by (auto simp: delegate_messages_def outcome_simps)
  with 1(25) show ?case
    by (cases kind) (auto simp: outcome_simps)
qed

lemma stake_simulated:
  assumes "execute_stake d e info kind s = Inr (r, s')"
  shows "book_of s' = book_of s"
  using assms
proof (rule execute_stake_InrD)
  fix st0 st st' s2 and payment :: coin and issued minted :: uint128 and batch :: current_batch
  assume run: "s_state s = Some st0" "query_actual_state d e s st0 = Inr st"
    and rate: "\<exists>total_supply total. unat total_supply = unat issued + unat minted
       \<and> unat total = unat (total_staked_amount st) + unat (coin_amount payment)
       \<and> update_lst_exchange_rate d (st\<lparr>total_staked_amount := total\<rparr>) total_supply
           (requested_lst_token_amount batch) = Inr st'"
    and pend: "update_pending_delegation_amount e (Some (coin_amount payment)) None
       (s\<lparr>s_state := Some st\<rparr>) = Inr s2"
    and s': "s' = s2\<lparr>s_state := Some st'\<rparr>" and batch: "s_current_batch s = Some batch"
  obtain total rate' where st: "st = st0\<lparr>total_staked_amount := total, lst_exchange_rate := rate'\<rparr>"
    using run(2) by (rule query_actual_state_frame)
  obtain pd' where s2: "s2 = s\<lparr>s_state := Some st, s_pending_delegation := Some pd'\<rparr>"
    using update_pending_has_record [OF pend] by auto
  obtain total' rate'' where
    "st' = st\<lparr>total_staked_amount := total', lst_exchange_rate := rate''\<rparr>"
    using rate by (auto dest!: update_lst_exchange_rate_InrD)
  then show "book_of s' = book_of s"
    using run(1) batch by (simp add: book_of_def s' s2 st)
qed

lemma settings_simulated:
  "execute_update_params info pause el up s = Inr (r, s') \<Longrightarrow> book_of s' = book_of s \<and> sends (messages r) = []"
  "execute_update_config d info no token reg disp s = Inr (r, s') \<Longrightarrow>
    book_of s' = book_of s \<and> sends (messages r) = []"
  "execute_slashing d e s = Inr (r, s') \<Longrightarrow> book_of s' = book_of s \<and> sends (messages r) = []"
  "execute_update_global_index d e s = Inr (r, s') \<Longrightarrow> book_of s' = book_of s \<and> sends (messages r) = []"
  "execute_redelegate_proxy e info src reds s = Inr (r, s') \<Longrightarrow>
    book_of s' = book_of s \<and> sends (messages r) = []"
proof -
  show "execute_update_params info pause el up s = Inr (r, s') \<Longrightarrow>
      book_of s' = book_of s \<and> sends (messages r) = []"
    by (auto simp: execute_update_params_def outcome_simps response_new_def Let_def book_of_def
        split: if_splits option.split)
  show "execute_update_config d info no token reg disp s = Inr (r, s') \<Longrightarrow>
      book_of s' = book_of s \<and> sends (messages r) = []"
    by (erule execute_update_config_InrD) (simp add: book_of_def split: option.split)
  show "execute_slashing d e s = Inr (r, s') \<Longrightarrow> book_of s' = book_of s \<and> sends (messages r) = []"
  proof -
    assume run: "execute_slashing d e s = Inr (r, s')"
    then have "sends (messages r) = []"
      by (auto simp: execute_slashing_def outcome_simps response_new_def)
    moreover from run obtain st st' where st: "s_state s = Some st" "query_actual_state d e s st = Inr st'"
      "s' = s\<lparr>s_state := Some st'\<rparr>"
      by (rule execute_slashing_InrD)
    from st(2) obtain total rate where
      "st' = st\<lparr>total_staked_amount := total, lst_exchange_rate := rate\<rparr>"
      by (rule query_actual_state_frame)
    with st(1,3) have "book_of s' = book_of s"
      by (simp add: book_of_def split: option.split)
    ultimately show ?thesis by simp
  qed
  show "execute_update_global_index d e s = Inr (r, s') \<Longrightarrow> book_of s' = book_of s \<and> sends (messages r) = []"
    by (auto simp: execute_update_global_index_def withdraw_all_rewards_def outcome_simps response_new_def
        book_of_def split: if_splits option.split)
  show "execute_redelegate_proxy e info src reds s = Inr (r, s') \<Longrightarrow>
      book_of s' = book_of s \<and> sends (messages r) = []"
    by (auto simp: execute_redelegate_proxy_def outcome_simps response_new_def Let_def split: if_splits)
qed

lemma unstake_simulated:
  assumes "execute_unstake d e amount sender flow s = Inr (r, s')" and "s_state s = Some st"
  shows "book_run (request_ops d sender amount @ closing_ops d e s) (book_of s) = (book_of s', [])"
    and "sends (messages r) = []"
proof -
  from assms(1) obtain cb cb1 s1 msgs evs cb2 token burn where cb: "s_current_batch s = Some cb"
    and request: "update_unstake_batch_wait_list d cb sender amount s = Inr (cb1, s1)"
    and check: "check_for_unstake_batch_epoch_completion d e cb1 s1 = Inr (msgs, evs, cb2, s')"
    and out: "messages r = msgs @ [WasmExecute token (Cw20Payload burn) []]"
    by (rule execute_unstake_InrD)
  obtain a requested v where a: "addr_validate d sender = Inr a"
    and s1: "s1 = s\<lparr>s_unstake_wait_list := save (a, cb_id cb) v (s_unstake_wait_list s)\<rparr>"
    and first: "book_do (Request a (unat amount)) (book_with s cb st) = (book_with s1 cb1 st, [])"
    using request by (rule request_simulated)
  have st1: "s_state s1 = Some st" by (simp add: s1 assms(2))
  have "closing_ops d e s = closing_ops d e s1"
    using query_actual_state_cong [of s s1 d e] by (simp add: closing_ops_def s1 split: option.split)
  with closing_simulated [OF check st1] first a
  show "book_run (request_ops d sender amount @ closing_ops d e s) (book_of s) = (book_of s', [])"
    by (simp add: request_ops_def book_of_items [OF cb assms(2)])
  show "sends (messages r) = []"
    by (simp add: out closing_simulated(2) [OF check st1])
qed

lemma requests_simulated:
  assumes "execute_process_withdraw_requests d e s = Inr (r, s')" and "s_state s = Some st"
    and "s_current_batch s = Some cb" and inv: "queue_inv s cb (last_processed_batch st)"
  shows "book_run (release_ops d e s) (book_of s) = (book_of s', [])" and "sends (messages r) = []"
proof -
  from assms(1) obtain params evs s1 st1 and free cutoff left unclaimed where
    cut: "free_balance_and_cutoff d e s = Inr (params, free, cutoff)"
    and rate: "process_withdraw_rate d cutoff free s = Inr (evs, left, s1)"
    and sum: "unat free = unat left + unat unclaimed" and st1: "s_state s1 = Some st1"
    and s': "s' = s1\<lparr>s_state := Some (st1\<lparr>unclaimed_unstaked_balance := unclaimed\<rparr>)\<rparr>"
    by (rule execute_process_withdraw_requests_InrD)
  have cb1: "s_current_batch s1 = Some cb"
    using rate assms(3) by (auto elim!: process_withdraw_rate_frame)
  have waiting: "waiting s' = waiting s1"
    by (simp add: waiting_def fun_eq_iff s')
  have "book_of s' = (book_with s1 cb st1)\<lparr>bk_unclaimed := unat free - unat left\<rparr>"
    using sum by (simp add: book_of_def s' cb1 book_with_def waiting [unfolded s'])
  with release_simulated [OF rate assms(2,3) st1 inv]
  show "book_run (release_ops d e s) (book_of s) = (book_of s', [])"
    by (simp add: release_ops_eq(1) [OF cut] book_of_items [OF assms(3,2)] book_with_def)
  show "sends (messages r) = []"
    using assms(1) unfolding execute_process_withdraw_requests_def
    by (elim outcome_elims) (auto simp: response_new_def)
qed

lemma withdraw_simulated:
  assumes "execute_withdraw_unstaked_impl d e info ids s = Inr (r, s')" and "s_state s = Some st"
    and "s_current_batch s = Some cb" and inv: "queue_inv s cb (last_processed_batch st)"
    and "s_parameters s = Some p"
  obtains paid where
    "book_run (release_ops d e s @ [Pay (info_sender info) ids]) (book_of s)
       = (book_of s', [(info_sender info, unat paid)])"
    "sends (messages r) = [(info_sender info, [\<lparr>coin_denom = staking_coin_denom p, coin_amount = paid\<rparr>])]"
proof -
  have sorted: "sorted_keys (s_unstake_wait_list s)"
    using inv by (simp add: queue_inv_def)
  from assms(1) sorted obtain params evs s1 wait st1 and free cutoff left paid unclaimed where
    cut: "free_balance_and_cutoff d e s = Inr (params, free, cutoff)"
    and rate: "process_withdraw_rate d cutoff free s = Inr (evs, left, s1)"
    and same: "s_unstake_wait_list s1 = s_unstake_wait_list s"
    and paid: "unat paid = (\<Sum>b \<leftarrow> chosen_batches s (info_sender info) ids. user_claim s1 (info_sender info) b)"
    and sum: "unat free = unat paid + unat left + unat unclaimed" and st1: "s_state s1 = Some st1"
    and s': "s' = s1\<lparr>s_unstake_wait_list := wait,
       s_state := Some (st1\<lparr>unclaimed_unstaked_balance := unclaimed\<rparr>)\<rparr>"
    and wait: "may_load wait = (\<lambda>(a, b). if a = info_sender info
         \<and> b \<in> set (chosen_batches s (info_sender info) ids)
         \<and> is_released s1 b then None else may_load (s_unstake_wait_list s) (a, b))"
    and msgs: "messages r = [BankSend (info_sender info)
       [\<lparr>coin_denom = staking_coin_denom params, coin_amount = paid\<rparr>]]"
    by (rule execute_withdraw_unstaked_impl_InrD) (rule that)
  obtain st2 grown where st2: "s_state s1 = Some st2" "queue_inv s1 cb (last_processed_batch st2)"
    by (rule withdraw_rate_queue [OF rate assms(2) inv])
  have inv1: "queue_inv s1 cb (last_processed_batch st1)"
    using st2 st1 by simp
  have cb1: "s_current_batch s1 = Some cb"
    using rate assms(3) by (auto elim!: process_withdraw_rate_frame)
  have parts: "s_unstake_wait_list s' = wait" "s_unstake_history s' = s_unstake_history s1"
    by (simp_all add: s')
  have "book_of s' = book_with s' cb (st1\<lparr>unclaimed_unstaked_balance := unclaimed\<rparr>)"
    by (simp add: book_of_def s' cb1)
  with release_simulated [OF rate assms(2,3) st1 inv] payment_simulated [OF inv1 same paid sum wait parts]
  have "book_run (release_ops d e s @ [Pay (info_sender info) ids]) (book_of s)
       = (book_of s', [(info_sender info, unat paid)])"
    by (simp add: release_ops_eq(1) [OF cut] book_of_items [OF assms(3,2)] book_with_def del: book_do.simps(4))
  moreover have "params = p"
    using release_ops_eq(2) [OF cut] assms(5) by simp
  ultimately show ?thesis
    using msgs by (intro that) simp_all
qed

text \<open>The messages that are nothing to the book.\<close>

definition unseen :: "hub_execute_msg \<Rightarrow> bool" where
  "unseen msg = (case msg of Stake \<Rightarrow> True | StakeRewards \<Rightarrow> True | UpdateConfig _ _ _ _ \<Rightarrow> True
     | UpdateParams _ _ _ \<Rightarrow> True | CheckSlashing \<Rightarrow> True | RedelegateProxy _ _ \<Rightarrow> True
     | UpdateGlobalIndex \<Rightarrow> True | _ \<Rightarrow> False)"

lemma book_unseen:
  assumes "hub_execute d e info msg s = Inr (r, s')" and "unseen msg"
  shows "book_of s' = book_of s" and "sends (messages r) = []"
proof -
  have "book_of s' = book_of s \<and> sends (messages r) = []"
    using assms
    by (cases msg) (auto simp: unseen_def hub_execute_def outcome_simps
      dest: stake_simulated stake_silent settings_simulated split: if_splits)
  then show "book_of s' = book_of s" "sends (messages r) = []" by simp_all
qed

text \<open>A new hub is the empty book, and a migration does not touch the book.\<close>

lemma book_initial: "hub_initial s \<Longrightarrow> book_of s = empty_book"
proof (erule hub_initial.cases)
  fix d e info msg r s0 assume "hub_instantiate d e info msg empty_hub_storage = Inr (r, s0)" "s = s0"
  then show ?thesis
    unfolding hub_instantiate_def
    by (elim outcome_elims) (auto simp: book_of_def book_with_def empty_book_def empty_hub_storage_def
        waiting_def may_load_def fun_eq_iff)
qed

lemma book_migrate: "hub_migrate d s = Inr (r, s') \<Longrightarrow> book_of s' = book_of s"
  by (auto simp: hub_migrate_def outcome_simps book_of_def book_with_def waiting_def fun_eq_iff
      split: option.split)

section \<open>Properties\<close>

text \<open>
  C11: The hub refines the book. A successful message from a well-formed storage does to the book
  exactly what \<open>ops_of\<close> says and makes exactly its payments, in the staking denomination: an
  unstake is a request by the validated address and, when the epoch has passed, the closing of the
  batch at the rate of the slashing check; withdrawals release what has matured and is covered by
  the balance without the pending stakes, and settle the sender's entries; all other messages
  leave the book alone and send no coins.
\<close>

theorem hub_refines_book:
  assumes "hub_execute d e info msg s = Inr (r, s')" and "hub_inv s" and "s_parameters s = Some p"
  shows "\<exists>paid. book_run (ops_of d e info msg s) (book_of s) = (book_of s', paid)
    \<and> (\<forall>(a, n) \<in> set paid. n < 2 ^ 128)
    \<and> sends (messages r) = map (\<lambda>(a, n).
        (a, [\<lparr>coin_denom = staking_coin_denom p, coin_amount = of_nat n\<rparr>])) paid"
proof -
  obtain cb st where items: "s_state s = Some st" "s_current_batch s = Some cb"
    and inv: "queue_inv s cb (last_processed_batch st)"
    using assms(2) by (rule hub_invE)
  have quiet: ?thesis
    if "book_run (ops_of d e info msg s) (book_of s) = (book_of s', [])" "sends (messages r) = []"
    using that by (intro exI [of _ "[]"]) simp
  have other: ?thesis
    if "ops_of d e info msg s = []" "book_of s' = book_of s \<and> sends (messages r) = []"
    using that by (intro quiet) simp_all
  have pays: ?thesis
    if run: "execute_withdraw_unstaked_impl d e info ids s = Inr (r, s')"
      and ops: "ops_of d e info msg s = release_ops d e s @ [Pay (info_sender info) ids]" for ids
  proof -
    obtain paid where
      "book_run (release_ops d e s @ [Pay (info_sender info) ids]) (book_of s)
         = (book_of s', [(info_sender info, unat paid)])"
      "sends (messages r) = [(info_sender info, [\<lparr>coin_denom = staking_coin_denom p, coin_amount = paid\<rparr>])]"
      using run items inv assms(3) by (rule withdraw_simulated)
    then show ?thesis
      unfolding ops using unat_less128 [of paid]
      by (intro exI [of _ "[(info_sender info, unat paid)]"]) simp
  qed
  show ?thesis
  proof (cases msg)
    case (Receive m)
    with assms(1) have "execute_unstake d e (receive_amount m) (receive_sender m) BurnFlow s = Inr (r, s')"
      by (auto simp: hub_execute_def receive_cw20_def outcome_simps split: cw20_hook_msg.splits if_splits)
    from unstake_simulated [OF this items(1)] quiet show ?thesis by (simp add: Receive ops_of_def)
  next
    case (Unstake n)
    with assms(1) have "\<exists>flow. execute_unstake d e n (info_sender info) flow s = Inr (r, s')"
      by (auto simp: hub_execute_def outcome_simps split: if_splits)
    with unstake_simulated [OF _ items(1)] quiet show ?thesis by (auto simp: Unstake ops_of_def)
  next
    case ProcessUndelegations
    with assms(1) have run: "execute_process_undelegations d e s = Inr (r, s')"
      by (auto simp: hub_execute_def outcome_simps split: if_splits)
    note book = book_of_items [OF items(2,1)]
    have zero: "bk_requested (book_with s cb st) = 0 \<longleftrightarrow> requested_lst_token_amount cb = 0"
      by (simp add: book_with_def unat_eq_zero)
    show ?thesis
    proof (cases "requested_lst_token_amount cb = 0")
      case True
      with run items(2) have "s' = s" "sends (messages r) = []"
        by (auto simp: execute_process_undelegations_def outcome_simps response_new_def)
      with True quiet show ?thesis by (simp add: ProcessUndelegations ops_of_def zero book)
    next
      case False
      with run items(2) obtain evs cb' where
        "check_for_unstake_batch_epoch_completion d e cb s = Inr (messages r, evs, cb', s')"
        by (auto simp: execute_process_undelegations_def outcome_simps)
      from closing_simulated [OF this items(1)] False quiet show ?thesis
        by (simp add: ProcessUndelegations ops_of_def zero book)
    qed
  next
    case ProcessWithdrawRequests
    with assms(1) have "execute_process_withdraw_requests d e s = Inr (r, s')"
      by (auto simp: hub_execute_def outcome_simps split: if_splits)
    from requests_simulated [OF this items inv] quiet show ?thesis
      by (simp add: ProcessWithdrawRequests ops_of_def)
  next
    case WithdrawUnstaked
    with assms(1) have "execute_withdraw_unstaked_impl d e info None s = Inr (r, s')"
      by (auto simp: hub_execute_def execute_withdraw_unstaked_def outcome_simps split: if_splits)
    then show ?thesis by (rule pays) (simp add: WithdrawUnstaked ops_of_def)
  next
    case (WithdrawUnstakedForBatches ids)
    with assms(1) have "execute_withdraw_unstaked_impl d e info (Some ids) s = Inr (r, s')"
      by (auto simp: hub_execute_def execute_withdraw_unstaked_for_batches_def outcome_simps split: if_splits)
    then show ?thesis by (rule pays) (simp add: WithdrawUnstakedForBatches ops_of_def)
  qed (rule other; simp add: ops_of_def unseen_def book_unseen [OF assms(1)])+
qed

section \<open>Witnesses\<close>

text \<open>Alice withdraws her half of the batch that she shares with Bob.\<close>

lemma hub_refines_book_witness:
  "\<exists>r s'. hub_execute (holding 100) now (by_user alice []) WithdrawUnstaked shared_hub = Inr (r, s')
    \<and> book_run (ops_of (holding 100) now (by_user alice []) WithdrawUnstaked shared_hub)
        (book_of shared_hub) = (book_of s', [(alice, 50)])"
proof -
  obtain r s' where run: "hub_execute (holding 100) now (by_user alice []) WithdrawUnstaked shared_hub
      = Inr (r, s')" and msgs: "messages r = [BankSend alice [bbn 50]]"
    by (simp add: hub_execute_def withdraw_eval stake_eval slashing_eval storage_eval sample_defs
        shared_hub_def holding_def bob_def eval_simps cong: eval_cong)
  have "s_parameters shared_hub = Some sample_params"
    by (simp add: shared_hub_def sample_defs)
  from hub_refines_book [OF run shared_hub_inv this] obtain paid where
    ops: "book_run (ops_of (holding 100) now (by_user alice []) WithdrawUnstaked shared_hub)
        (book_of shared_hub) = (book_of s', paid)"
    and paid: "\<forall>(a, n) \<in> set paid. n < 2 ^ 128"
      "sends (messages r) = map (\<lambda>(a, n). (a, [\<lparr>coin_denom = staking_coin_denom sample_params,
        coin_amount = of_nat n\<rparr>])) paid"
    by blast
  from paid msgs obtain n where "paid = [(alice, n)]" "n < 2 ^ 128" "of_nat n = (50 :: uint128)"
    by (auto simp: bbn_def)
  then have "paid = [(alice, 50)]"
    using unat_of_nat [of n, where 'a = 128] by simp
  with run ops show ?thesis by blast
qed

end
