(* ===== verification/Unit_Tests.thy ===== *)
theory Unit_Tests
  imports Hub_Safety Registry Dispatcher
begin

text \<open>
  The unit tests of the staking hub and of \<open>lst_common\<close>, each translated statement by statement
  into a condition, and the proof that the model meets it. The mocks that the tests are written
  against are parameters: what the tests rely on is that the addresses they make are valid and
  distinct, that versions can be recorded, that an unconfigured chain answers with nothing, and
  the block that the mocked environment is in (\<open>mock_laws\<close>). A call that fails leaves the storage
  of the model as it was, where the mocked storage may keep part of it; no assertion of the tests
  is about such a storage.
\<close>

section \<open>The mocks\<close>

record mocks =
  made :: "string \<Rightarrow> addr"              \<comment> \<open>\<open>deps.api.addr_make(..)\<close>\<close>
  made_valoper :: "string \<Rightarrow> string"    \<comment> \<open>\<open>deps.api.with_prefix(VALIDATOR_ADDR_PREFIX).addr_make(..)\<close>\<close>
  mock_dependencies :: deps
  mock_env :: env
  unstake_json :: string                \<comment> \<open>\<open>to_json_binary(&Cw20HookMsg::Unstake {})\<close>\<close>

definition mock_laws :: "mocks \<Rightarrow> bool" where
  "mock_laws m \<longleftrightarrow>
     (let d = mock_dependencies m; e = mock_env m in
      inj (made m) \<and> inj (made_valoper m)
      \<and> (\<forall>n. addr_validate d (made m n) = Inr (made m n))
      \<and> (\<forall>n. convert_addr_by_prefix d (made_valoper m n) VALIDATOR_ADDR_PREFIX
           = (Inr (made_valoper m n) :: string lst_result))
      \<and> (\<forall>n v c. set_contract_version d n v c = Inr (Some (n, v)))
      \<and> decimal_ratio_law d \<and> decimal_mul_law d \<and> decimal_ceil_law d
      \<and> decimal_to_string d decimal_zero = ''0'' \<and> decimal_to_string d decimal_one = ''1''
      \<and> (\<forall>c. coin_to_string d c = to_string (coin_amount c) @ coin_denom c)
      \<and> parse_cw20_hook d (unstake_json m) = Inr HookUnstake
      \<and> (\<forall>a. query_all_delegations d a = Inr [])
      \<and> (\<forall>a denom. query_balance d a denom = Inr \<lparr>coin_denom = denom, coin_amount = 0\<rparr>)
      \<and> block_height e = 12345 \<and> block_time e = 1571797419)"

text \<open>\<open>let a = m.unwrap(); k(a)\<close>, and \<open>assert_eq!(m.unwrap_err(), err)\<close>.\<close>

definition unwrapped :: "('e, 'a) outcome \<Rightarrow> ('a \<Rightarrow> bool) \<Rightarrow> bool" where
  "unwrapped m k = (case m of Inr a \<Rightarrow> k a | Inl _ \<Rightarrow> False)"

definition fails_with :: "('e, 'a) outcome \<Rightarrow> 'e \<Rightarrow> bool" where
  "fails_with m err = (case m of Inl (Err x) \<Rightarrow> x = err | _ \<Rightarrow> False)"

definition message_info :: "addr \<Rightarrow> coin list \<Rightarrow> message_info" where
  "message_info a cs = \<lparr>info_sender = a, info_funds = cs\<rparr>"

definition coin :: "uint128 \<Rightarrow> string \<Rightarrow> coin" where
  "coin a denom = \<lparr>coin_denom = denom, coin_amount = a\<rparr>"

lemma unwrapped_simps [simp]:
  "unwrapped (Inr a) k = k a" "unwrapped (Inl f) k = False"
  "fails_with (Inl (Err x)) y = (x = y)" "fails_with (Inl (Panic p)) y = False"
  "fails_with (Inr a) y = False"
  by (simp_all add: unwrapped_def fails_with_def)

section \<open>math.rs, signed_integer.rs\<close>

definition UINT128_MAX :: uint128 where
  "UINT128_MAX = 340282366920938463463374607431768211455"

definition test_decimal_multiplication :: "mocks \<Rightarrow> bool" where
  "test_decimal_multiplication m =
     (let from_ratio = decimal_from_ratio (mock_dependencies m);
          times = (\<lambda>a b. (decimal_multiplication a b :: uint128 lst_result)) in
      times 1000 decimal_zero = Inr 0
      \<and> times 1000 decimal_one = Inr 1000
      \<and> unwrapped (or_panic (from_ratio 1 1000000) :: decimal lst_result) (\<lambda>b.
          times UINT128_MAX b = Inr 340282366920938463463374607431768)
      \<and> unwrapped (or_panic (from_ratio 999999999999 1) :: decimal lst_result) (\<lambda>b.
          times 1 b = Inr 999999999999)
      \<and> unwrapped (or_panic (from_ratio (10 ^ 18) 1) :: decimal lst_result) (\<lambda>b.
          times (10 ^ 20) b = Inr (10 ^ 38)))"

definition test_decimal_division :: "mocks \<Rightarrow> bool" where
  "test_decimal_division m =
     (let from_ratio = decimal_from_ratio (mock_dependencies m);
          divided = (\<lambda>a b. (decimal_division a b :: uint128 lst_result)) in
      unwrapped (or_panic (from_ratio 1 1000000) :: decimal lst_result) (\<lambda>b.
          divided 1000 b = Inr 1000000000)
      \<and> unwrapped (or_panic (from_ratio 3 2) :: decimal lst_result) (\<lambda>b.
          divided 1000000000000000000000 b = Inr 666666666666666666666)
      \<and> unwrapped (or_panic (from_ratio 1000000 1) :: decimal lst_result) (\<lambda>b.
          divided 1000000000000000000 b = Inr 1000000000000)
      \<and> unwrapped (or_panic (from_ratio 100 3) :: decimal lst_result) (\<lambda>b.
          divided 1000000000000000000 b = Inr 30000000000000000))"

definition test_from_subtraction :: bool where
  "test_from_subtraction =
     (unwrapped (from_subtraction (widen 1000010) (widen 1000000) :: signed_int lst_result) (\<lambda>signed_integer.
        magnitude signed_integer = 10 \<and> \<not> negative signed_integer)
      \<and> unwrapped (from_subtraction (widen 1000000) (widen 1100000) :: signed_int lst_result) (\<lambda>signed_integer.
        magnitude signed_integer = 100000 \<and> negative signed_integer))"

lemma ratio_value:
  assumes "mock_laws m"
  shows "decimal_from_ratio (mock_dependencies m) a b =
    (if b = 0 then Inl DivisionByZero
     else if unat a * 10 ^ 18 div unat b < 2 ^ 128
       then Inr (Decimal (of_nat (unat a * 10 ^ 18 div unat b))) else Inl ArithmeticOverflow)"
  using assms by (simp add: mock_laws_def decimal_ratio_law_def Let_def)

lemma math_tests:
  assumes "mock_laws m"
  shows "test_decimal_multiplication m" "test_decimal_division m"
  by (simp_all add: test_decimal_multiplication_def test_decimal_division_def ratio_value [OF assms]
      decimal_multiplication_def decimal_division_def or_panic_def decimal_zero_def decimal_one_def
      DECIMAL_FRACTIONAL_def UINT128_MAX_def widen_def narrow_def eval_simps)

lemma subtraction_test: "test_from_subtraction"
  by (simp add: test_from_subtraction_def from_subtraction_def widen_def narrow_def eval_simps)

section \<open>state.rs\<close>

text \<open>The storage is empty but for the record that is set up.\<close>

definition setup_pending_delegation ::
    "u64 \<Rightarrow> uint128 option \<Rightarrow> uint128 option \<Rightarrow> u64 \<Rightarrow> hub_storage \<Rightarrow> hub_storage" where
  "setup_pending_delegation start_height staking_amount unstaking_amount len s =
     (let pd = \<lparr>staking_epoch_length_blocks = len, staking_epoch_start_block_height = start_height,
            pending_staking_amount = unwrap_or_zero staking_amount,
            pending_unstaking_amount = unwrap_or_zero unstaking_amount\<rparr> in
      s\<lparr>s_pending_delegation := Some pd\<rparr>)"

definition at_height :: "u64 \<Rightarrow> env \<Rightarrow> env" where
  "at_height h e = e\<lparr>block_height := h\<rparr>"

definition test_get_pending_delegation_amount :: "mocks \<Rightarrow> bool" where
  "test_get_pending_delegation_amount m =
     (let e = mock_env m;
          s = setup_pending_delegation 664561 (Some 1000) (Some 500) 360 empty_hub_storage in
      unwrapped (get_pending_delegation_amount (at_height 664600 e) s) (\<lambda>(staking, unstaking).
        staking = 1000 \<and> unstaking = 500)
      \<and> unwrapped (get_pending_delegation_amount (at_height 670000 e) s) (\<lambda>(staking, unstaking).
        staking = 0 \<and> unstaking = 0)
      \<and> unwrapped (get_pending_delegation_amount (at_height 664921 e) s) (\<lambda>(staking, unstaking).
        staking = 0 \<and> unstaking = 0))"

definition pending_is :: "hub_storage \<Rightarrow> uint128 \<Rightarrow> uint128 \<Rightarrow> u64 \<Rightarrow> bool" where
  "pending_is s staking unstaking start_height =
     unwrapped (load_pending_delegation s) (\<lambda>pending_delegation.
       pending_staking_amount pending_delegation = staking
       \<and> pending_unstaking_amount pending_delegation = unstaking
       \<and> staking_epoch_start_block_height pending_delegation = start_height)"

definition test_update_pending_delegation_amount :: "mocks \<Rightarrow> bool" where
  "test_update_pending_delegation_amount m =
     (let e = mock_env m;
          s = setup_pending_delegation 664561 (Some 1000) (Some 500) 360 empty_hub_storage in
      unwrapped (update_pending_delegation_amount (at_height 664600 e) (Some 500) (Some 200) s) (\<lambda>s.
      pending_is s 1500 700 664561
      \<and> unwrapped (update_pending_delegation_amount (at_height 664930 e) (Some 2000) (Some 1000) s) (\<lambda>s.
      pending_is s 2000 1000 664921
      \<and> (let s = setup_pending_delegation 664561 (Some 1000) (Some 500) 360 s in
         unwrapped (update_pending_delegation_amount (at_height 666100 e) (Some 3000) (Some 1500) s) (\<lambda>s.
         pending_is s 3000 1500 666001)))))"

lemmas pending_tests_eval = setup_pending_delegation_def at_height_def unwrap_or_zero_def
  get_pending_delegation_amount_def update_pending_delegation_amount_def pending_is_def
  load_pending_delegation_def load_def eval_simps

lemma state_tests: "test_get_pending_delegation_amount m" "test_update_pending_delegation_amount m"
  by (simp_all add: test_get_pending_delegation_amount_def test_update_pending_delegation_amount_def
      pending_tests_eval cong: eval_cong)

section \<open>query.rs\<close>

text \<open>The entry and the history of a batch that every test of the queries stores.\<close>

definition test_history :: "u64 \<Rightarrow> uint128 \<Rightarrow> decimal \<Rightarrow> unstake_history" where
  "test_history batch_id amount rate = \<lparr>uh_batch_id = batch_id, uh_time = 1000,
     lst_token_amount = amount, lst_applied_exchange_rate = rate, lst_withdraw_rate = rate,
     released = False\<rparr>"

definition save_entry :: "addr \<Rightarrow> u64 \<Rightarrow> uint128 \<Rightarrow> hub_storage \<Rightarrow> hub_storage" where
  "save_entry a batch_id amount s =
     s\<lparr>s_unstake_wait_list := save (a, batch_id) amount (s_unstake_wait_list s)\<rparr>"

definition save_history :: "unstake_history \<Rightarrow> hub_storage \<Rightarrow> hub_storage" where
  "save_history h s = s\<lparr>s_unstake_history := save (uh_batch_id h) h (s_unstake_history s)\<rparr>"

definition test_get_unstake_requests_success :: "mocks \<Rightarrow> bool" where
  "test_get_unstake_requests_success m =
     (let address = ''user1''; batch_id = 1; lst_amount = 100 in
      unwrapped (or_panic (decimal_from_ratio (mock_dependencies m) 2 1) :: decimal lst_result) (\<lambda>rate.
      let history = test_history batch_id lst_amount rate;
          s = save_history history (save_entry address batch_id lst_amount empty_hub_storage) in
      unwrapped (get_unstake_requests s address None None) (\<lambda>result.
        length result = 1
        \<and> ur_batch_id (result ! 0) = batch_id
        \<and> ur_lst_amount (result ! 0) = lst_amount
        \<and> ur_withdraw_exchange_rate (result ! 0) = lst_withdraw_rate history
        \<and> ur_applied_exchange_rate (result ! 0) = lst_applied_exchange_rate history
        \<and> ur_time (result ! 0) = uh_time history
        \<and> ur_released (result ! 0) = released history)))"

definition test_get_unstake_requests_skip_missing_history :: "mocks \<Rightarrow> bool" where
  "test_get_unstake_requests_skip_missing_history m =
     (let address = ''user1''; batch_id1 = 1; batch_id2 = 2; lst_amount = 100 in
      unwrapped (or_panic (decimal_from_ratio (mock_dependencies m) 2 1) :: decimal lst_result) (\<lambda>rate.
      let s = save_entry address batch_id2 lst_amount
                (save_entry address batch_id1 lst_amount empty_hub_storage);
          s = save_history (test_history batch_id1 lst_amount rate) s in
      unwrapped (get_unstake_requests s address None None) (\<lambda>result.
        length result = 1 \<and> ur_batch_id (result ! 0) = batch_id1)))"

text \<open>\<open>for i in 1..=5\<close> in the two tests with several batches.\<close>

definition five_requests :: "addr \<Rightarrow> decimal \<Rightarrow> hub_storage" where
  "five_requests address rate = fold (\<lambda>i s.
     save_history (test_history i 100 rate) (save_entry address i 100 s)) [1, 2, 3, 4, 5] empty_hub_storage"

definition test_get_unstake_requests_with_limit :: "mocks \<Rightarrow> bool" where
  "test_get_unstake_requests_with_limit m =
     (let address = ''user1'' in
      unwrapped (or_panic (decimal_from_ratio (mock_dependencies m) 2 1) :: decimal lst_result) (\<lambda>rate.
      unwrapped (get_unstake_requests (five_requests address rate) address None (Some 3)) (\<lambda>result.
        length result = 3)))"

definition test_get_unstake_requests_with_start_from :: "mocks \<Rightarrow> bool" where
  "test_get_unstake_requests_with_start_from m =
     (let address = ''user1'' in
      unwrapped (or_panic (decimal_from_ratio (mock_dependencies m) 2 1) :: decimal lst_result) (\<lambda>rate.
      unwrapped (get_unstake_requests (five_requests address rate) address (Some 3) None) (\<lambda>result.
        length result = 3 \<and> ur_batch_id (result ! 0) = 3)))"

lemmas query_tests_eval = test_history_def save_entry_def save_history_def five_requests_def
  get_unstake_requests_def unstake_request_def limit_or_max_def prefix_range_def range_from_def
  read_unstake_history_def load_def may_load_def empty_hub_storage_def List.map_filter_def eval_simps

lemma start_from: "\<not> (3 :: u64) \<le> 1"
  by (simp add: word_le_nat_alt)

lemma query_tests:
  assumes "mock_laws m"
  shows "test_get_unstake_requests_success m" "test_get_unstake_requests_skip_missing_history m"
    "test_get_unstake_requests_with_limit m" "test_get_unstake_requests_with_start_from m"
  by (simp_all add: test_get_unstake_requests_success_def test_get_unstake_requests_with_limit_def
      test_get_unstake_requests_skip_missing_history_def test_get_unstake_requests_with_start_from_def
      query_tests_eval start_from ratio_value [OF assms])

section \<open>config.rs\<close>

text \<open>The message of almost all tests; the storage after instantiating with it.\<close>

definition test_msg :: "u64 \<Rightarrow> u64 \<Rightarrow> hub_instantiate_msg" where
  "test_msg len period = \<lparr>im_epoch_length = len, im_staking_coin_denom = ''denom'',
     im_unstaking_period = period, im_staking_epoch_start_block_height = 100,
     im_staking_epoch_length_blocks = 360\<rparr>"

definition instantiated :: "mocks \<Rightarrow> (hub_storage \<Rightarrow> bool) \<Rightarrow> bool" where
  "instantiated m k =
     unwrapped (hub_instantiate (mock_dependencies m) (mock_env m) (message_info (made m ''owner'') [])
       (test_msg 7200 10000) empty_hub_storage) (\<lambda>(_, s). k s)"

text \<open>\<open>execute_update_config(.., info, ..).unwrap()\<close>\<close>

definition configured ::
    "mocks \<Rightarrow> string option \<Rightarrow> string option \<Rightarrow> string option \<Rightarrow> hub_storage \<Rightarrow> (hub_storage \<Rightarrow> bool) \<Rightarrow> bool" where
  "configured m token registry dispatcher s k =
     unwrapped (execute_update_config (mock_dependencies m) (message_info (made m ''owner'') []) None
       (map_option (made m) token) (map_option (made m) registry) (map_option (made m) dispatcher) s)
       (\<lambda>(_, s). k s)"

definition hub_test_execute_update_config :: "mocks \<Rightarrow> bool" where
  "hub_test_execute_update_config m =
     (let d = mock_dependencies m; owner = made m ''owner''; info = message_info owner [] in
      instantiated m (\<lambda>s.
      unwrapped (execute_update_config d info None None None None s) (\<lambda>(response, s).
      messages response = []
      \<and> attributes response =
          [(''action'', ''update_config''), (''owner'', owner), (''lst_token'', ''None''),
           (''reward_dispatcher'', ''None''), (''validator_registry'', ''None'')]
      \<and> (let new_owner = made m ''new_owner''; token = made m ''lst_token'';
             validator_registry = made m ''validator_registry'';
             reward_dispatcher = made m ''reward_dispatcher'' in
         unwrapped (execute_update_config d info (Some new_owner) (Some token)
             (Some validator_registry) (Some reward_dispatcher) s) (\<lambda>(response, s).
         messages response = [SetWithdrawAddress reward_dispatcher]
         \<and> attributes response =
             [(''action'', ''update_config''), (''owner'', new_owner), (''lst_token'', token),
              (''reward_dispatcher'', reward_dispatcher), (''validator_registry'', validator_registry)]
         \<and> fails_with (execute_update_config d (message_info (made m ''wrong_owner'') [])
             None None None None s) Unauthorized
         \<and> fails_with (execute_update_config d (message_info new_owner [])
             None (Some (made m ''new_lst_token'')) None None s) (Hub LstTokenAlreadySet))))))"

definition hub_test_execute_update_params :: "mocks \<Rightarrow> bool" where
  "hub_test_execute_update_params m =
     (let owner = made m ''owner''; denom = ''denom''; info = message_info owner [] in
      instantiated m (\<lambda>s.
      unwrapped (execute_update_params info None None None s) (\<lambda>(response, s).
      attributes response =
        [(''action'', ''update_params''), (''paused'', bool_to_string False),
         (''staking_coin_denom'', denom), (''epoch_length'', ''7200''), (''unstaking_period'', ''10000'')]
      \<and> unwrapped (execute_update_params info (Some True) (Some 1000) (Some 8000) s) (\<lambda>(response, s).
        attributes response =
          [(''action'', ''update_params''), (''paused'', bool_to_string True),
           (''staking_coin_denom'', denom), (''epoch_length'', ''1000''), (''unstaking_period'', ''8000'')]
        \<and> fails_with (execute_update_params (message_info (made m ''wrong_owner'') []) None None None s)
            Unauthorized
        \<and> fails_with (execute_update_params info (Some True) (Some 604801) (Some 8000) s)
            (Hub InvalidEpochLength)
        \<and> fails_with (execute_update_params info (Some True) (Some 100) (Some 2419201) s)
            (Hub InvalidUnstakingPeriod)
        \<and> fails_with (execute_update_params info (Some True) (Some 1000) (Some 100) s)
            (Hub InvalidPeriods)))))"

text \<open>The hub as the tests instantiate it, and with a configuration.\<close>

definition test_hub :: "mocks \<Rightarrow> string option \<Rightarrow> string option \<Rightarrow> string option \<Rightarrow> hub_storage" where
  "test_hub m token registry dispatcher = \<lparr>
     s_config = Some \<lparr>hc_owner = made m ''owner'',
       reward_dispatcher_contract = map_option (made m) dispatcher,
       validators_registry_contract = map_option (made m) registry,
       lst_token = map_option (made m) token\<rparr>,
     s_parameters = Some \<lparr>epoch_length = 7200, staking_coin_denom = ''denom'',
       unstaking_period = 10000, paused = False\<rparr>,
     s_current_batch = Some \<lparr>cb_id = 1, requested_lst_token_amount = 0\<rparr>,
     s_state = Some \<lparr>lst_exchange_rate = decimal_one, total_staked_amount = 0,
       last_index_modification = 1571797419, unclaimed_unstaked_balance = 0,
       last_unbonded_time = 1571797419, last_processed_batch = 0\<rparr>,
     s_unstake_wait_list = [], s_unstake_history = [],
     s_pending_delegation = Some \<lparr>staking_epoch_length_blocks = 360,
       staking_epoch_start_block_height = 100, pending_staking_amount = 0,
       pending_unstaking_amount = 0\<rparr>,
     s_contract_info = Some (CONTRACT_NAME, CONTRACT_VERSION)\<rparr>"

lemma mockD:
  assumes "mock_laws m"
  shows "made m x = made m y \<longleftrightarrow> x = y" "made_valoper m x = made_valoper m y \<longleftrightarrow> x = y"
    "addr_validate (mock_dependencies m) (made m x) = Inr (made m x)"
    "convert_addr_by_prefix (mock_dependencies m) (made_valoper m x) VALIDATOR_ADDR_PREFIX
      = (Inr (made_valoper m x) :: string lst_result)"
    "set_contract_version (mock_dependencies m) n v c = Inr (Some (n, v))"
    "decimal_to_string (mock_dependencies m) decimal_zero = ''0''"
    "decimal_to_string (mock_dependencies m) decimal_one = ''1''"
    "coin_to_string (mock_dependencies m) cn = to_string (coin_amount cn) @ coin_denom cn"
    "parse_cw20_hook (mock_dependencies m) (unstake_json m) = Inr HookUnstake"
    "query_all_delegations (mock_dependencies m) a = Inr []"
    "query_balance (mock_dependencies m) a denom = Inr \<lparr>coin_denom = denom, coin_amount = 0\<rparr>"
    "block_height (mock_env m) = 12345" "block_time (mock_env m) = 1571797419"
  using assms by (auto simp: mock_laws_def Let_def inj_eq)

lemmas instantiate_tests_eval = hub_instantiate_def test_msg_def MAX_EPOCH_LENGTH_def
  MAX_UNSTAKING_PERIOD_def AVERAGE_BLOCK_TIME_def query_std_def

lemma instantiated_eval:
  assumes "mock_laws m"
  shows "instantiated m k = k (test_hub m None None None)"
  by (simp add: instantiated_def instantiate_tests_eval message_info_def empty_hub_storage_def
      test_hub_def mockD [OF assms] eval_simps)

lemmas config_tests_eval = execute_update_config_def execute_update_params_def is_authorized_sender_def
  to_checked_address_def addr_or_none_def validate_periods_def unwrap_or_def load_config_def
  load_parameters_def load_def message_info_def response_new_def MAX_EPOCH_LENGTH_def
  MAX_UNSTAKING_PERIOD_def hub_err_def unauthorized_def eval_simps

lemma configured_eval:
  assumes "mock_laws m"
  shows "configured m token registry dispatcher (test_hub m token0 registry0 dispatcher0) k =
    (if token0 \<noteq> None \<and> token \<noteq> None \<and> token \<noteq> token0 then False
     else k (test_hub m (if token = None then token0 else token)
       (if registry = None then registry0 else registry)
       (if dispatcher = None then dispatcher0 else dispatcher)))"
  by (cases token; cases registry; cases dispatcher; cases token0)
    (auto simp: configured_def config_tests_eval test_hub_def mockD [OF assms])

lemma shown_numbers:
  "to_string (7200 :: u64) = ''7200''" "to_string (10000 :: u64) = ''10000''"
  "to_string (1000 :: u64) = ''1000''" "to_string (8000 :: u64) = ''8000''"
  "to_string (1 :: u64) = ''1''" "to_string (0 :: uint128) = ''0''"
  "to_string (100 :: uint128) = ''100''" "to_string (900 :: uint128) = ''900''"
  by code_simp+

lemma config_tests:
  assumes "mock_laws m"
  shows "hub_test_execute_update_config m" "hub_test_execute_update_params m"
  by (simp_all add: hub_test_execute_update_config_def hub_test_execute_update_params_def
      instantiated_eval [OF assms] config_tests_eval test_hub_def mockD [OF assms] shown_numbers)

section \<open>contract.rs\<close>

text \<open>\<open>deps.querier.staking.update(denom, validators, delegations)\<close>, and \<open>update_wasm(..)\<close> with a
  closure that answers the query of the token's supply.\<close>

definition with_staking :: "string list \<Rightarrow> (addr \<times> delegation) list \<Rightarrow> deps \<Rightarrow> deps" where
  "with_staking validators delegations d = d\<lparr>
     query_validator := (\<lambda>a. Inr (if a \<in> set validators then Some a else None)),
     query_all_delegations := (\<lambda>a. Inr (map snd (filter (\<lambda>(delegator, _). delegator = a) delegations)))\<rparr>"

definition with_supply :: "uint128 \<Rightarrow> deps \<Rightarrow> deps" where
  "with_supply total_supply d = d\<lparr>query_token_supply := (\<lambda>_. Inr total_supply)\<rparr>"

definition full_delegation :: "addr \<Rightarrow> string \<Rightarrow> coin \<Rightarrow> addr \<times> delegation" where
  "full_delegation delegator validator amount =
     (delegator, \<lparr>del_validator = validator, del_amount = amount\<rparr>)"

definition rate_event :: "string \<Rightarrow> string \<Rightarrow> event" where
  "rate_event old new = \<lparr>ev_type = LST_EXCHANGE_RATE_UPDATED, ev_attributes = [(OLD_RATE, old), (NEW_RATE, new)]\<rparr>"

definition amount_event :: "string \<Rightarrow> string \<Rightarrow> event" where
  "amount_event old new =
     \<lparr>ev_type = TOTAL_STAKED_AMOUNT_UPDATED, ev_attributes = [(OLD_AMOUNT, old), (NEW_AMOUNT, new)]\<rparr>"

definition hub_test_instantiate :: "mocks \<Rightarrow> bool" where
  "hub_test_instantiate m =
     (let d = mock_dependencies m; e = mock_env m; info = message_info (made m ''owner'') [];
          run = (\<lambda>msg. hub_instantiate d e info msg empty_hub_storage) in
      unwrapped (run (test_msg 7200 10000)) (\<lambda>(response, _).
        response = response_new\<lparr>events := [rate_event ''0'' ''1'', amount_event ''0'' ''0'']\<rparr>)
      \<and> fails_with (run (test_msg 604801 10000)) (Hub InvalidEpochLength)
      \<and> fails_with (run (test_msg 100 10000)) (Hub InvalidEpochLength)
      \<and> fails_with (run (test_msg 7200 2419201)) (Hub InvalidUnstakingPeriod)
      \<and> fails_with (run (test_msg 72000 10000)) (Hub InvalidPeriods))"

definition hub_test_execute_slashing :: "mocks \<Rightarrow> bool" where
  "hub_test_execute_slashing m =
     (let d = mock_dependencies m; e = mock_env m;
          checked = (\<lambda>response.
            attributes response = [(''action'', ''check_slashing''), (''new_lst_exchange_rate'', ''1'')]
            \<and> events response = [rate_event ''1'' ''1'', amount_event ''0'' ''0'']) in
      instantiated m (\<lambda>s.
      unwrapped (execute_slashing d e s) (\<lambda>(response, s).
      checked response
      \<and> (let validator1 = made m ''validator1'';
             delegation = full_delegation (contract_address e) validator1 (coin 100 ''denom'');
             d = with_staking [validator1] [delegation] (with_supply 1000 d) in
         unwrapped (execute_slashing d e s) (\<lambda>(response, _). checked response)))))"

definition hub_test_execute_redelegate_proxy :: "mocks \<Rightarrow> bool" where
  "hub_test_execute_redelegate_proxy m =
     (let e = mock_env m; owner = made m ''owner''; src_validator = made m ''src_validator'';
          denom = ''denom''; info = message_info owner [] in
      instantiated m (\<lambda>s.
      fails_with (execute_redelegate_proxy e info src_validator [] s) (Hub ValidatorRegistryNotSet)
      \<and> configured m None (Some ''validator_registry'') None s (\<lambda>s.
        fails_with (execute_redelegate_proxy e info src_validator [] s) Unauthorized
        \<and> (let dst_validator = made m ''dst_validator'';
               info = message_info (made m ''validator_registry'') [] in
           unwrapped (execute_redelegate_proxy e info src_validator
               [(dst_validator, coin 100 denom)] s) (\<lambda>(response, _).
           messages response = [AnyMsg ''/babylon.epoching.v1.MsgWrappedBeginRedelegate''
             (MsgWrappedBeginRedelegate (Some (MsgBeginRedelegate (contract_address e) src_validator
                dst_validator (Some (ProtoCoin denom ''100'')))))])))))"

definition hub_test_receive_cw20 :: "mocks \<Rightarrow> bool" where
  "hub_test_receive_cw20 m =
     (let d = mock_dependencies m; e = mock_env m; owner = made m ''owner''; info = message_info owner [];
          msg = Cw20ReceiveMsg owner 100 (unstake_json m) in
      instantiated m (\<lambda>s.
      fails_with (receive_cw20 d e info msg s) (Hub LstTokenNotSet)
      \<and> configured m (Some ''lst_token'') None None s (\<lambda>s.
        let lst_info = message_info (made m ''lst_token'') [] in
        unwrapped (receive_cw20 d e lst_info msg s) (\<lambda>(_, s).
        fails_with (receive_cw20 d e info msg s) Unauthorized))))"

definition hub_test_execute_update_global_index :: "mocks \<Rightarrow> bool" where
  "hub_test_execute_update_global_index m =
     (let d = mock_dependencies m; e = mock_env m; owner = made m ''owner'';
          reward_dispatcher = made m ''reward_dispatcher'';
          dispatch = WasmExecute reward_dispatcher (RewardsPayload DispatchRewards) [] in
      instantiated m (\<lambda>s.
      fails_with (execute_update_global_index d e s) (Hub RewardDispatcherNotSet)
      \<and> configured m None None (Some ''reward_dispatcher'') s (\<lambda>s.
        unwrapped (execute_update_global_index d e s) (\<lambda>(response, s).
        messages response = [dispatch]
        \<and> attributes response = [(''action'', ''update_global_index'')]
        \<and> (let validator1 = made m ''validator1'';
               delegation = full_delegation (contract_address e) validator1 (coin 100 ''denom'');
               d = with_staking [validator1] [delegation] d in
           unwrapped (execute_update_global_index d e s) (\<lambda>(response, _).
           messages response = [WithdrawDelegatorReward validator1, dispatch]
           \<and> attributes response = [(''action'', ''update_global_index'')]))))))"

lemma chains:
  "addr_validate (with_staking vs ds d) = addr_validate d"
  "decimal_to_string (with_staking vs ds d) = decimal_to_string d"
  "query_all_delegations (with_staking vs ds d) a
     = Inr (map snd (filter (\<lambda>(delegator, _). delegator = a) ds))"
  "query_validator (with_staking vs ds d) v = Inr (if v \<in> set vs then Some v else None)"
  "query_token_supply (with_staking vs ds d) = query_token_supply d"
  "decimal_to_string (with_supply n d) = decimal_to_string d"
  "query_token_supply (with_supply n d) a = Inr n"
  by (simp_all add: with_staking_def with_supply_def)

lemma test_hub_items:
  "s_config (test_hub m token registry dispatcher) = Some \<lparr>hc_owner = made m ''owner'',
     reward_dispatcher_contract = map_option (made m) dispatcher,
     validators_registry_contract = map_option (made m) registry,
     lst_token = map_option (made m) token\<rparr>"
  "s_parameters (test_hub m token registry dispatcher) = Some \<lparr>epoch_length = 7200,
     staking_coin_denom = ''denom'', unstaking_period = 10000, paused = False\<rparr>"
  "s_current_batch (test_hub m token registry dispatcher)
     = Some \<lparr>cb_id = 1, requested_lst_token_amount = 0\<rparr>"
  "s_state (test_hub m token registry dispatcher) = Some \<lparr>lst_exchange_rate = decimal_one,
     total_staked_amount = 0, last_index_modification = 1571797419, unclaimed_unstaked_balance = 0,
     last_unbonded_time = 1571797419, last_processed_batch = 0\<rparr>"
  "s_unstake_wait_list (test_hub m token registry dispatcher) = []"
  "s_unstake_history (test_hub m token registry dispatcher) = []"
  "s_pending_delegation (test_hub m token registry dispatcher)
     = Some \<lparr>staking_epoch_length_blocks = 360, staking_epoch_start_block_height = 100,
       pending_staking_amount = 0, pending_unstaking_amount = 0\<rparr>"
  by (simp_all add: test_hub_def)

lemmas contract_tests_eval = chains full_delegation_def rate_event_def amount_event_def coin_def
  test_hub_items message_info_def response_new_def load_defs load_def query_std_def hub_err_def
  unauthorized_def eval_simps

lemma contract_tests:
  assumes "mock_laws m"
  shows "hub_test_instantiate m" "hub_test_execute_redelegate_proxy m"
    "hub_test_execute_update_global_index m"
  by (simp_all add: hub_test_instantiate_def hub_test_execute_redelegate_proxy_def
      hub_test_execute_update_global_index_def instantiate_tests_eval instantiated_eval [OF assms]
      configured_eval [OF assms] execute_redelegate_proxy_def execute_update_global_index_def
      withdraw_all_rewards_def prepare_wrapped_begin_redelegate_msg_def to_any_def type_url.simps
      empty_hub_storage_def contract_tests_eval mockD [OF assms] shown_numbers cong: eval_cong)

lemma slashing_test:
  assumes "mock_laws m"
  shows "hub_test_execute_slashing m"
  by (simp add: hub_test_execute_slashing_def instantiated_eval [OF assms] execute_slashing_def
      contract_tests_eval query_actual_state_def query_total_lst_token_issued_def
      actual_total_staked_def get_pending_delegation_amount_def update_lst_exchange_rate_def
      check_slashing_def update_state_def mockD [OF assms] shown_numbers cong: eval_cong)

lemma receive_test:
  assumes "mock_laws m"
  shows "hub_test_receive_cw20 m"
  by (simp add: hub_test_receive_cw20_def instantiated_eval [OF assms] configured_eval [OF assms]
      receive_cw20_def unstake_eval contract_tests_eval query_actual_state_def
      get_pending_delegation_amount_def update_lst_exchange_rate_def
      check_slashing_def update_state_def mockD [OF assms] cong: eval_cong)

section \<open>stake.rs\<close>

text \<open>The closure of \<open>update_wasm\<close>: it answers the supply of the token and the validators of the
  registry. Other queries panic there and are errors here, and the test would not pass in either case.\<close>

definition stake_querier :: "addr \<Rightarrow> addr \<Rightarrow> deps \<Rightarrow> deps" where
  "stake_querier token validator_registry d = d\<lparr>
     query_token_supply := (\<lambda>a. if a = token then Inr 1000 else Inl (OtherStdError ''unexpected query'')),
     query_validators_delegation := (\<lambda>a. if a = validator_registry
       then Inr [\<lparr>total_delegated = 100, vr_address = ''validator1''\<rparr>]
       else Inl (OtherStdError ''unexpected query''))\<rparr>"

definition hub_test_execute_stake :: "mocks \<Rightarrow> bool" where
  "hub_test_execute_stake m =
     (let d = mock_dependencies m; e = mock_env m; owner = made m ''owner''; denom = ''denom'';
          info = message_info owner [] in
      instantiated m (\<lambda>s.
      fails_with (execute_stake d e info LSTMint s) (Hub RewardDispatcherNotSet)
      \<and> configured m None None (Some ''reward_dispatcher'') s (\<lambda>s.
      fails_with (execute_stake d e info StakeRewardsType s) Unauthorized
      \<and> configured m None None (Some ''reward_dispatcher'') s (\<lambda>s.
      fails_with (execute_stake d e info StakeRewardsType s) Unauthorized
      \<and> configured m None None (Some ''reward_dispatcher'') s (\<lambda>s.
      fails_with (execute_stake d e (message_info owner [coin 100 denom, coin 100 ''denom1'']) LSTMint s)
        (Hub OnlyOneCoinAllowed)
      \<and> configured m None None (Some ''reward_dispatcher'') s (\<lambda>s.
      fails_with (execute_stake d e info LSTMint s) (Hub InvalidAmount)
      \<and> configured m (Some ''lst_token'') (Some ''validator_registry'') (Some ''reward_dispatcher'') s (\<lambda>s.
        let token = made m ''lst_token'';
            d = stake_querier token (made m ''validator_registry'') d;
            info = message_info owner [coin 100 denom] in
        unwrapped (execute_stake d e info LSTMint s) (\<lambda>(response, _).
        messages response =
          [AnyMsg ''/babylon.epoching.v1.MsgWrappedDelegate'' (MsgWrappedDelegate (Some
             (MsgDelegate (contract_address e) ''validator1'' (Some (ProtoCoin denom ''100''))))),
           WasmExecute token (Cw20Payload (Mint owner 100)) []]
        \<and> attributes response =
          [(''action'', ''mint''), (''from'', owner), (''staked'', ''100''), (''minted'', ''100'')]))))))))"

lemma stake_chain:
  "decimal_from_ratio (stake_querier a b d) = decimal_from_ratio d"
  "decimal_to_string (stake_querier a b d) = decimal_to_string d"
  "query_all_delegations (stake_querier a b d) = query_all_delegations d"
  "query_token_supply (stake_querier a b d) a = Inr 1000"
  "query_validators_delegation (stake_querier a b d) b
     = Inr [\<lparr>total_delegated = 100, vr_address = ''validator1''\<rparr>]"
  by (simp_all add: stake_querier_def)

lemmas hub_tests_eval = contract_tests_eval stake_eval split_eval query_actual_state_def
  query_total_lst_token_issued_def get_pending_delegation_amount_def update_lst_exchange_rate_def
  check_slashing_def update_state_def type_url.simps

lemma stake_test:
  assumes "mock_laws m"
  shows "hub_test_execute_stake m"
  by (simp add: hub_test_execute_stake_def instantiated_eval [OF assms] configured_eval [OF assms]
      stake_chain hub_tests_eval prepare_wrapped_delegate_msg_def to_any_def decimal_one_def
      ratio_value [OF assms] mockD [OF assms] shown_numbers cong: eval_cong)

section \<open>unstake.rs\<close>

text \<open>The closures of \<open>update_wasm\<close>: the balance and the allowance that the token reports. The first
  of them panics on a query of the allowance.\<close>

definition token_querier :: "uint128 \<Rightarrow> uint128 option \<Rightarrow> deps \<Rightarrow> deps" where
  "token_querier balance allowance d = d\<lparr>query_cw20_balance := (\<lambda>_ _. Inr balance),
     query_cw20_allowance := (\<lambda>_ _ _. case allowance of
       Some n \<Rightarrow> Inr n | None \<Rightarrow> Inl (OtherStdError ''unexpected query''))\<rparr>"

definition burnt :: "addr \<Rightarrow> cw20_execute_msg \<Rightarrow> addr \<Rightarrow> response \<Rightarrow> bool" where
  "burnt token msg owner response \<longleftrightarrow>
     messages response = [WasmExecute token (Cw20Payload msg) []]
     \<and> attributes response = [(''action'', ''burn''), (''from'', owner), (''burnt_amount'', ''100''),
         (''unstaked_amount'', ''100'')]"

definition hub_test_execute_unstake :: "mocks \<Rightarrow> bool" where
  "hub_test_execute_unstake m =
     (let d = mock_dependencies m; e = mock_env m; owner = made m ''owner''; amount = 100;
          token = made m ''lst_token'' in
      instantiated m (\<lambda>s.
      fails_with (execute_unstake d e amount owner BurnFlow s) (Hub LstTokenNotSet)
      \<and> configured m (Some ''lst_token'') (Some ''validator_registry'') (Some ''reward_dispatcher'') s (\<lambda>s.
      unwrapped (execute_unstake d e amount owner BurnFlow s) (\<lambda>(response, s).
      burnt token (Burn amount) owner response
      \<and> fails_with (execute_unstake (token_querier 10 None d) e amount owner BurnFromFlow s)
          (Hub HubInsufficientFunds)
      \<and> fails_with (execute_unstake (token_querier 1000 (Some 10) d) e amount owner BurnFromFlow s)
          (Hub InsufficientAllowance)
      \<and> unwrapped (execute_unstake (token_querier 1000 (Some 1000) d) e amount owner BurnFromFlow s) (\<lambda>(response, s).
        burnt token (BurnFrom owner amount) owner response)))))"

definition hub_test_execute_withdraw_unstaked :: "mocks \<Rightarrow> bool" where
  "hub_test_execute_withdraw_unstaked m =
     (let info = message_info (made m ''owner'') [] in
      instantiated m (\<lambda>s.
      fails_with (execute_withdraw_unstaked (mock_dependencies m) (mock_env m) info s)
        (Hub NoWithdrawableAssets)))"

definition hub_test_execute_withdraw_unstaked_for_batches :: "mocks \<Rightarrow> bool" where
  "hub_test_execute_withdraw_unstaked_for_batches m =
     (let info = message_info (made m ''owner'') [] in
      instantiated m (\<lambda>s.
      fails_with (execute_withdraw_unstaked_for_batches (mock_dependencies m) (mock_env m) info [1] s)
        (Hub NoWithdrawableAssets)))"

definition hub_test_execute_process_undelegations :: "mocks \<Rightarrow> bool" where
  "hub_test_execute_process_undelegations m =
     (let d = mock_dependencies m; e = mock_env m in
      instantiated m (\<lambda>s.
      unwrapped (execute_process_undelegations d e s) (\<lambda>(response, s).
      response = response_new
      \<and> (let current_batch = \<lparr>cb_id = 1, requested_lst_token_amount = 100\<rparr>;
             s = s\<lparr>s_current_batch := Some current_batch\<rparr> in
         unwrapped (execute_process_undelegations d e s) (\<lambda>(response, _).
         attributes response = [(''process undelegations'', ''1'')])))))"

definition hub_test_execute_process_withdraw_requests :: "mocks \<Rightarrow> bool" where
  "hub_test_execute_process_withdraw_requests m =
     instantiated m (\<lambda>s.
     unwrapped (execute_process_withdraw_requests (mock_dependencies m) (mock_env m) s) (\<lambda>(response, _).
     attributes response = [(''action'', ''process_withdraw_requests'')]))"

lemma token_chain:
  "addr_validate (token_querier a b d) = addr_validate d"
  "decimal_to_string (token_querier a b d) = decimal_to_string d"
  "query_all_delegations (token_querier a b d) = query_all_delegations d"
  "query_cw20_balance (token_querier a b d) x y = Inr a"
  "query_cw20_allowance (token_querier a (Some n) d) x y z = Inr n"
  by (simp_all add: token_querier_def)

lemma unstake_test:
  assumes "mock_laws m"
  shows "hub_test_execute_unstake m"
  by (simp add: hub_test_execute_unstake_def burnt_def instantiated_eval [OF assms]
      configured_eval [OF assms] token_chain hub_tests_eval unstake_eval may_load_def
      mockD [OF assms] shown_numbers cong: eval_cong)

lemma withdraw_tests:
  assumes "mock_laws m"
  shows "hub_test_execute_withdraw_unstaked m" "hub_test_execute_withdraw_unstaked_for_batches m"
    "hub_test_execute_process_withdraw_requests m"
  by (simp_all add: hub_test_execute_withdraw_unstaked_def hub_test_execute_process_withdraw_requests_def
      hub_test_execute_withdraw_unstaked_for_batches_def instantiated_eval [OF assms] hub_tests_eval
      withdraw_eval read_unstake_history_def may_load_def mockD [OF assms] cong: eval_cong)

lemma undelegations_test:
  assumes "mock_laws m"
  shows "hub_test_execute_process_undelegations m"
  by (simp add: hub_test_execute_process_undelegations_def instantiated_eval [OF assms] hub_tests_eval
      unstake_eval mockD [OF assms] shown_numbers cong: eval_cong)

end
