(* ===== verification/Unit_Tests_Others.thy ===== *)
theory Unit_Tests_Others
  imports Unit_Tests
begin

text \<open>
  The unit tests of the validators registry and of the reward dispatcher, over the same mocks, and
  the theorem that collects the unit tests of the contracts: the model meets every one of them.
\<close>

section \<open>The validators registry\<close>

text \<open>Of a \<open>FullDelegation\<close> and of a \<open>Validator\<close> of the staking module the contracts read the
  amount and the address.\<close>

definition registry_of :: "mocks \<Rightarrow> validator list \<Rightarrow> deps \<Rightarrow> (registry_storage \<Rightarrow> bool) \<Rightarrow> bool" where
  "registry_of m validators d k =
     (let msg = \<lparr>vim_validators = validators, vim_hub_contract = made m ''hub_contract''\<rparr> in
      unwrapped (registry_instantiate d (message_info (made m ''owner'') []) msg empty_registry_storage)
        (\<lambda>(_, s). k s))"

definition two_delegations :: "mocks \<Rightarrow> deps" where
  "two_delegations m =
     (let hub_contract = made m ''hub_contract''; denom = ''denom'';
          validator1 = made_valoper m ''validator1''; validator2 = made_valoper m ''validator2'' in
      with_staking [validator1, validator2]
        [full_delegation hub_contract validator1 (coin 100 denom),
         full_delegation hub_contract validator2 (coin 200 denom)] (mock_dependencies m))"

definition registry_test_instantiate :: "mocks \<Rightarrow> bool" where
  "registry_test_instantiate m =
     registry_of m [ValidatorEntry (made_valoper m ''validator1''),
       ValidatorEntry (made_valoper m ''validator2'')] (two_delegations m) (\<lambda>_. True)"

definition registry_test_add_validator :: "mocks \<Rightarrow> bool" where
  "registry_test_add_validator m =
     (let hub_contract = made m ''hub_contract''; denom = ''denom'';
          info = message_info (made m ''owner'') [] in
      registry_of m [] (mock_dependencies m) (\<lambda>s.
      let validator1 = made_valoper m ''validator1'';
          d = with_staking [validator1] [full_delegation hub_contract validator1 (coin 100 denom)]
            (mock_dependencies m);
          validator = ValidatorEntry validator1 in
      unwrapped (add_validator d info validator s) (\<lambda>(response, s).
      attributes response = [(''action'', ''add_validator''), (''validator'', validator1)]
      \<and> fails_with (add_validator d (message_info (made m ''new_owner'') []) validator s) Unauthorized
      \<and> unwrapped (query_validators d s) (\<lambda>result.
          result = [\<lparr>total_delegated = 100, vr_address = validator1\<rparr>]))))"

definition registry_test_remove_validator :: "mocks \<Rightarrow> bool" where
  "registry_test_remove_validator m =
     (let e = mock_env m; denom = ''denom''; info = message_info (made m ''owner'') [] in
      registry_of m [] (mock_dependencies m) (\<lambda>s.
      let validator1 = made_valoper m ''validator1'';
          d = with_staking [validator1]
            [full_delegation (contract_address e) validator1 (coin 100 denom)] (mock_dependencies m) in
      unwrapped (add_validator d info (ValidatorEntry validator1) s) (\<lambda>(_, s).
      unwrapped (remove_validator d info validator1 s) (\<lambda>(response, s).
      attributes response = [(''action'', ''remove_validator''), (''validator'', validator1)]
      \<and> unwrapped (query_validators d s) (\<lambda>result. result = [])
      \<and> unwrapped (query_exclude_list s) (\<lambda>result. result = [validator1])
      \<and> fails_with (remove_validator d (message_info (made m ''new_owner'') []) validator1 s)
          Unauthorized))))"

definition registry_test_process_redelegations :: "mocks \<Rightarrow> bool" where
  "registry_test_process_redelegations m =
     (let hub_contract = made m ''hub_contract''; denom = ''denom'';
          validator1 = made_valoper m ''validator1''; validator2 = made_valoper m ''validator2'';
          info = message_info (made m ''owner'') []; d = two_delegations m in
      registry_of m [ValidatorEntry validator1, ValidatorEntry validator2] d (\<lambda>s.
      unwrapped (remove_validator d info validator1 s) (\<lambda>(response, s).
      attributes response = [(''action'', ''remove_validator''), (''validator'', validator1)]
      \<and> unwrapped (process_redelegations d s) (\<lambda>(response, s).
        attributes response = [(''action'', ''process_redelegation'')]
        \<and> (let redelegate_proxy_msg = RedelegateProxy validator1 [(validator2, coin 100 denom)] in
           messages response = [WasmExecute hub_contract (HubPayload redelegate_proxy_msg) []])))))"

definition registry_test_update_config :: "mocks \<Rightarrow> bool" where
  "registry_test_update_config m =
     (let d = mock_dependencies m; info = message_info (made m ''owner'') [];
          new_owner = made m ''new_owner''; new_hub_contract = made m ''new_hub_contract'' in
      registry_of m [] d (\<lambda>s.
      unwrapped (update_registry_config d info (Some new_owner) (Some new_hub_contract) s) (\<lambda>(response, s).
      attributes response = [(''owner'', new_owner), (''hub'', new_hub_contract)]
      \<and> unwrapped (registry_query d RegistryConfig s) (\<lambda>result.
          result = ARegistryConfig \<lparr>vc_owner = new_owner, vc_hub_contract = new_hub_contract\<rparr>)
      \<and> fails_with (update_registry_config d (message_info (made m ''wrong_owner'') []) None None s)
          Unauthorized)))"

lemma convert_with_staking:
  "convert_addr_by_prefix (with_staking vs ds d) a p = convert_addr_by_prefix d a p"
  "set_contract_version (with_staking vs ds d) = set_contract_version d"
  by (simp_all add: convert_addr_by_prefix_def with_staking_def)

lemmas registry_tests_eval = registry_of_def two_delegations_def registry_instantiate_def
  register_initial_def fetch_validator_info_def to_checked_address_def from_err_def query_std_def
  add_validator_def remove_validator_def load_registry_config_def query_validators_def
  query_exclude_list_def active_delegations_def delegations_by_validator_def update_registry_config_def
  empty_registry_storage_def remove_def load_def coin_def full_delegation_def message_info_def
  unauthorized_def response_new_def chains convert_with_staking

lemma registry_tests:
  assumes "mock_laws m"
  shows "registry_test_instantiate m" "registry_test_add_validator m"
    "registry_test_remove_validator m" "registry_test_update_config m"
  by (simp_all add: registry_test_instantiate_def registry_test_add_validator_def
      registry_test_remove_validator_def registry_test_update_config_def registry_tests_eval
      mockD [OF assms] eval_simps)

text \<open>The registry keeps the validators in the order of their addresses, and which of the two
  comes first is not known.\<close>

lemma redelegations_test:
  assumes "mock_laws m"
  shows "registry_test_process_redelegations m"
  by (cases "made_valoper m ''validator1'' < made_valoper m ''validator2''")
    (simp_all add: registry_test_process_redelegations_def registry_tests_eval process_redelegations_def
      redelegate_from_def redelegations_to_def split_eval fold_simps mockD [OF assms] cong: eval_cong)

section \<open>The reward dispatcher\<close>

definition dispatcher_of :: "mocks \<Rightarrow> string \<Rightarrow> decimal \<Rightarrow> (dispatcher_storage \<Rightarrow> bool) \<Rightarrow> bool" where
  "dispatcher_of m owner fee_rate k =
     (let msg = \<lparr>rim_hub_contract = made m ''hub_contract'', rim_reward_denom = ''denom'',
            rim_fee_addr = made m ''fee_addr'', rim_fee_rate = fee_rate\<rparr> in
      unwrapped (dispatcher_instantiate (mock_dependencies m) (message_info (made m owner) []) msg
        empty_dispatcher_storage) (\<lambda>(_, s). k s))"

text \<open>\<open>Decimal::percent(..)\<close>\<close>

definition percent :: "nat \<Rightarrow> decimal" where
  "percent x = Decimal (of_nat (x * 10 ^ 16))"

definition dispatcher_test_instantiate :: "mocks \<Rightarrow> bool" where
  "dispatcher_test_instantiate m =
     dispatcher_of m ''sender'' (percent 10) (\<lambda>s.
       fails_with (dispatcher_instantiate (mock_dependencies m) (message_info (made m ''sender'') [])
         \<lparr>rim_hub_contract = made m ''hub_contract'', rim_reward_denom = ''denom'',
          rim_fee_addr = made m ''fee_addr'', rim_fee_rate = percent 40\<rparr> s) InvalidFeeRate)"

definition dispatcher_test_execute_update_config :: "mocks \<Rightarrow> bool" where
  "dispatcher_test_execute_update_config m =
     (let d = mock_dependencies m; owner = made m ''owner''; hub_contract = made m ''hub_contract'';
          denom = ''denom''; fee_addr = made m ''fee_addr''; fee_rate = percent 10;
          info = message_info owner [] in
      dispatcher_of m ''owner'' fee_rate (\<lambda>s.
      unwrapped (update_rewards_config d info None None None None s) (\<lambda>(_, s).
      unwrapped (query_rewards_config s) (\<lambda>config.
        rc_owner config = owner \<and> rc_hub_contract config = hub_contract
        \<and> rc_reward_denom config = denom \<and> rc_fee_addr config = fee_addr
        \<and> rc_fee_rate config = fee_rate)
      \<and> (let new_owner = made m ''new_owner''; new_hub_contract = made m ''new_hub_contract'';
             new_fee_addr = made m ''new_fee_addr''; new_fee_rate = percent 20 in
         unwrapped (update_rewards_config d info (Some new_owner) (Some new_hub_contract)
           (Some new_fee_addr) (Some new_fee_rate) s) (\<lambda>(_, s).
         unwrapped (query_rewards_config s) (\<lambda>config.
           rc_owner config = new_owner \<and> rc_hub_contract config = new_hub_contract
           \<and> rc_reward_denom config = denom \<and> rc_fee_addr config = new_fee_addr
           \<and> rc_fee_rate config = new_fee_rate)
         \<and> fails_with (update_rewards_config d info None None None None s) Unauthorized
         \<and> fails_with (update_rewards_config d (message_info new_owner []) None None None
             (Some (percent 40)) s) InvalidFeeRate)))))"

text \<open>The closures of \<open>update_wasm\<close> with the hub's parameters, and the balance of the bank.\<close>

definition hub_parameters_querier :: "parameters \<Rightarrow> deps \<Rightarrow> deps" where
  "hub_parameters_querier params d = d\<lparr>query_hub_parameters := (\<lambda>_. Inr params)\<rparr>"

definition with_balance :: "addr \<Rightarrow> uint128 \<Rightarrow> string \<Rightarrow> deps \<Rightarrow> deps" where
  "with_balance a amount denom d = d\<lparr>query_balance := (\<lambda>b denom'.
     if b = a \<and> denom' = denom then Inr (coin amount denom) else query_balance d b denom')\<rparr>"

definition parameters_default :: parameters where
  "parameters_default = \<lparr>epoch_length = 0, staking_coin_denom = '''', unstaking_period = 0, paused = False\<rparr>"

definition dispatcher_test_execute_dispatch_rewards :: "mocks \<Rightarrow> bool" where
  "dispatcher_test_execute_dispatch_rewards m =
     (let d = mock_dependencies m; e = mock_env m; owner = made m ''owner''; denom = ''denom'';
          hub_contract = made m ''hub_contract''; fee_addr = made m ''fee_addr'' in
      dispatcher_of m ''owner'' (percent 10) (\<lambda>s.
      let d = with_balance (contract_address e) 1000 denom
            (hub_parameters_querier parameters_default d);
          info = message_info hub_contract [] in
      unwrapped (execute_dispatch_rewards d e info s) (\<lambda>(response, s).
      messages response = [BankSend fee_addr [coin 100 denom],
        WasmExecute hub_contract (HubPayload StakeRewards) [coin 900 denom]]
      \<and> attributes response =
          [(''action'', ''claim_rewards''), (''reward_amt'', ''900denom''), (''fee'', ''100denom'')]
      \<and> (let d = hub_parameters_querier \<lparr>epoch_length = 100, staking_coin_denom = ''denom'',
                 unstaking_period = 100, paused = True\<rparr> d in
         fails_with (execute_dispatch_rewards d e info s) HubPaused)
      \<and> (let d = hub_parameters_querier parameters_default d in
         fails_with (execute_dispatch_rewards d e (message_info owner []) s) Unauthorized))))"

lemma dispatcher_chain:
  "addr_validate (with_balance a n denom d) = addr_validate d"
  "decimal_from_ratio (with_balance a n denom d) = decimal_from_ratio d"
  "decimal_mul (with_balance a n denom d) = decimal_mul d"
  "decimal_to_uint_ceil (with_balance a n denom d) = decimal_to_uint_ceil d"
  "coin_to_string (with_balance a n denom d) = coin_to_string d"
  "query_hub_parameters (with_balance a n denom d) = query_hub_parameters d"
  "query_balance (with_balance a n denom d) a denom = Inr (coin n denom)"
  "decimal_from_ratio (hub_parameters_querier p d) = decimal_from_ratio d"
  "decimal_mul (hub_parameters_querier p d) = decimal_mul d"
  "decimal_to_uint_ceil (hub_parameters_querier p d) = decimal_to_uint_ceil d"
  "coin_to_string (hub_parameters_querier p d) = coin_to_string d"
  "query_hub_parameters (hub_parameters_querier p d) a = Inr p"
  by (simp_all add: with_balance_def hub_parameters_querier_def)

lemmas dispatcher_tests_eval = dispatcher_of_def dispatcher_instantiate_def update_rewards_config_def
  is_authorized_owner_def query_rewards_config_def checked_or_def to_checked_address_def from_err_def
  query_std_def load_def percent_def MAX_FEE_RATE_def less_decimal_def empty_dispatcher_storage_def
  message_info_def response_new_def unauthorized_def

lemma fee_laws:
  assumes "mock_laws m"
  shows "decimal_mul (mock_dependencies m) a b =
      (let p = unat (atomics a) * unat (atomics b) div 10 ^ 18 in
       if p < 2 ^ 128 then Inr (Decimal (of_nat p)) else Inl ArithmeticOverflow)"
    "decimal_to_uint_ceil (mock_dependencies m) a
      = Inr (of_nat ((unat (atomics a) + (10 ^ 18 - 1)) div 10 ^ 18))"
  using assms by (simp_all add: mock_laws_def Let_def decimal_mul_law_def decimal_ceil_law_def)

lemma dispatcher_tests:
  assumes "mock_laws m"
  shows "dispatcher_test_instantiate m" "dispatcher_test_execute_update_config m"
  by (simp_all add: dispatcher_test_instantiate_def dispatcher_test_execute_update_config_def
      dispatcher_tests_eval mockD [OF assms])

lemma dispatch_test:
  assumes "mock_laws m"
  shows "dispatcher_test_execute_dispatch_rewards m"
  by (simp add: dispatcher_test_execute_dispatch_rewards_def dispatcher_tests_eval
      execute_dispatch_rewards_def is_paused_def parameters_default_def compute_fee_def or_panic_def
      checked_sub_or_overflow_def dispatcher_chain coin_def ratio_value [OF assms] fee_laws [OF assms]
      shown_numbers mockD [OF assms] eval_simps cong: eval_cong)

section \<open>All of them\<close>

definition hub_unit_tests :: "mocks \<Rightarrow> bool list" where
  "hub_unit_tests m =
     [test_decimal_multiplication m, test_decimal_division m, test_get_pending_delegation_amount m,
      test_update_pending_delegation_amount m, test_get_unstake_requests_success m,
      test_get_unstake_requests_skip_missing_history m, test_get_unstake_requests_with_limit m,
      test_get_unstake_requests_with_start_from m, hub_test_execute_update_config m,
      hub_test_execute_update_params m, hub_test_instantiate m, hub_test_execute_slashing m,
      hub_test_execute_redelegate_proxy m, hub_test_receive_cw20 m,
      hub_test_execute_update_global_index m, hub_test_execute_stake m, hub_test_execute_unstake m,
      hub_test_execute_withdraw_unstaked m, hub_test_execute_withdraw_unstaked_for_batches m,
      hub_test_execute_process_undelegations m, hub_test_execute_process_withdraw_requests m]"

definition registry_unit_tests :: "mocks \<Rightarrow> bool list" where
  "registry_unit_tests m =
     [registry_test_instantiate m, registry_test_add_validator m, registry_test_remove_validator m,
      registry_test_process_redelegations m, registry_test_update_config m]"

definition dispatcher_unit_tests :: "mocks \<Rightarrow> bool list" where
  "dispatcher_unit_tests m =
     [dispatcher_test_instantiate m, dispatcher_test_execute_update_config m,
      dispatcher_test_execute_dispatch_rewards m]"

text \<open>
  C10: The model of the code passes the repository's own unit tests: the test of the signed
  difference in \<open>lst_common\<close>, the twenty-one tests of the staking hub, the five of the validators
  registry and the three of the reward dispatcher, each translated with all its calls, the storage
  that they hand on and every \<open>unwrap\<close>, \<open>unwrap_err\<close> and assertion, hold for all mocks that obey the
  documented laws.
\<close>

theorem unit_tests_pass:
  assumes "mock_laws m"
  shows "test_from_subtraction
    \<and> list_all id (hub_unit_tests m @ registry_unit_tests m @ dispatcher_unit_tests m)"
  by (simp add: hub_unit_tests_def registry_unit_tests_def dispatcher_unit_tests_def
      math_tests [OF assms] subtraction_test state_tests query_tests [OF assms]
      config_tests [OF assms] contract_tests [OF assms] slashing_test [OF assms]
      receive_test [OF assms] stake_test [OF assms] unstake_test [OF assms] withdraw_tests [OF assms]
      undelegations_test [OF assms] registry_tests [OF assms] redelegations_test [OF assms]
      dispatcher_tests [OF assms] dispatch_test [OF assms])

text \<open>Mocks on which the tests run.\<close>

definition sample_mock_deps :: deps where
  "sample_mock_deps = sample_deps\<lparr>
     decimal_to_string := (\<lambda>a. if a = decimal_zero then ''0'' else ''1''),
     bech32_decode := (\<lambda>a. Some ('''', a)), bech32_encode := (\<lambda>_ a. Some a),
     query_balance := (\<lambda>_ denom. Inr \<lparr>coin_denom = denom, coin_amount = 0\<rparr>),
     query_all_delegations := (\<lambda>_. Inr [])\<rparr>"

definition sample_mocks :: mocks where
  "sample_mocks = \<lparr>made = (\<lambda>n. ''cosmwasm1'' @ n), made_valoper = (\<lambda>n. ''bbnvaloper1'' @ n),
     mock_dependencies = sample_mock_deps,
     mock_env = \<lparr>block_height = 12345, block_time = 1571797419,
       contract_address = ''cosmwasm1cosmos2contract''\<rparr>,
     unstake_json = ''unstake''\<rparr>"

lemma sample_mock_laws: "mock_laws sample_mocks"
  using sample_laws
  by (simp add: mock_laws_def sample_mocks_def sample_mock_deps_def sample_deps_def inj_def
      convert_addr_by_prefix_def expect_def decimal_ratio_law_def decimal_mul_law_def
      decimal_ceil_law_def decimal_zero_def decimal_one_def)

theorem unit_tests_pass_witness:
  "test_from_subtraction \<and> list_all id (hub_unit_tests sample_mocks
     @ registry_unit_tests sample_mocks @ dispatcher_unit_tests sample_mocks)"
  by (rule unit_tests_pass [OF sample_mock_laws])

end
