(* ===== verification/Spec2Isabelle.thy ===== *)
theory Spec2Isabelle
  imports Failures Test_Contracts Hub_Unbonding Hub_Book Unit_Tests_Others
begin

text \<open>
  The liquid staking contracts for Babylon: a model of the five crates under \<open>src/\<close> in
  Isabelle/HOL, with the theorems that make them correct.

  \<^bold>\<open>The program\<close>

  Users give coins to the \<^emph>\<open>staking hub\<close> (\<open>contracts/lst_staking_hub\<close>). The hub delegates them to
  the validators of the \<^emph>\<open>validators registry\<close> (\<open>contracts/lst_validators_registry\<close>) and tells the
  \<^emph>\<open>token\<close> (\<open>contracts/lst_token\<close>, a cw20 token) to mint liquid tokens at the current exchange
  rate. Staking rewards go to the \<^emph>\<open>reward dispatcher\<close> (\<open>contracts/lst_reward_dispatcher\<close>), which
  keeps a fee and sends the rest back to the hub to be staked without minting, so the rate rises.
  To leave, a user sends tokens back: they join the current batch, the batch is undelegated when
  its epoch has passed, and the coins are paid out after the unstaking period. The types, errors,
  messages and the splitting of amounts over validators are in \<open>packages/lst_common\<close>.

  The contracts meet through messages and queries: the hub asks the registry for the validators,
  the token for its supply and the chain for delegations and balances; it sends mints and burns
  to the token and delegations to the chain. The token sends the hub \<open>CheckSlashing\<close> after each
  burn, the registry sends \<open>RedelegateProxy\<close>, the dispatcher \<open>StakeRewards\<close>.

  \<^bold>\<open>How code is translated\<close>

  \<^item> A handler is a function from the outside world, the environment, the sender and the storage to
    an \<open>outcome\<close>: the response with the new storage, an error (\<open>Err\<close>, one constructor per variant
    of \<open>errors.rs\<close>) or a panic. \<open>and_then\<close> is \<open>?\<close>. A failing message leaves no storage behind, as
    the chain rolls the transaction back.
  \<^item> \<open>Uint128\<close>, \<open>u64\<close>, \<open>u128\<close>, \<open>Uint256\<close> are words of that width. The release profile has
    \<open>overflow-checks = true\<close>, so \<open>uadd\<close>, \<open>usub\<close>, \<open>umul\<close> and the like panic where the
    result does not fit, as the operators do; checked operations return the error of the code.
  \<^item> \<open>Item\<close> is an optional value, \<open>Map\<close> an association list in key order (theory \<open>Storage\<close>), because
    \<open>range\<close> walks the keys in ascending order and the code depends on it.
  \<^item> Attributes and events of a response are kept where the code builds them. Messages are data;
    protobuf and JSON payloads are kept as the values they encode.
  \<^item> What is not code of the repository is the record \<open>deps\<close> (address validation, the arithmetic of
    \<open>Decimal\<close>, bech32, cw2, the queries) and, for the token, the record \<open>cw20_base\<close>. Both are
    arguments. A theorem that needs their documented behaviour names it as a hypothesis:
    \<open>decimal_ratio_law\<close>, \<open>decimal_mul_law\<close>, \<open>decimal_ceil_law\<close>, \<open>cw20_laws\<close>,
    \<open>cw20_version_law\<close>, \<open>migration_name_law\<close>; of the library's responses \<open>message_law\<close> (no
    messages, but for the notification of a send) and \<open>send_law\<close> (what it says); \<open>width_law\<close> (the
    supply is a 128-bit amount); \<open>mock_laws\<close> (what the mocks of the unit tests do). \<open>Sample_World\<close>,
    \<open>Token\<close>, \<open>System_Properties\<close> and \<open>Unit_Tests_Others\<close> have instances that obey them, on which the
    witnesses are evaluated.

  \<^bold>\<open>The theories\<close>

  \<^item> \<open>Prelude\<close>: outcomes, checked machine integers, sums, reachable states (the locale
    \<open>invariant_of\<close>). \<open>Storage\<close>: items and ordered maps (the locale \<open>kv_store\<close>).
  \<^item> \<open>Common_Types\<close>: the types, errors and messages of \<open>lst_common\<close> and the record \<open>deps\<close>.
  \<^item> \<open>Delegation\<close>: \<open>delegation.rs\<close>. Both functions compute the greedy filling of capacities, split
    the amount exactly, end, and balance the validators (the locale \<open>splitter\<close>).
  \<^item> \<open>Hub_Math\<close>: \<open>math.rs\<close> and \<open>signed_integer.rs\<close>. Exact floors, and the loss of a round trip.
  \<^item> \<open>Hub_State\<close>: \<open>state.rs\<close>, \<open>constants.rs\<close> and the state of \<open>hub.rs\<close>. The record of what was
    staked and unstaked in the running epoch of the chain refines a ledger of all updates.
  \<^item> \<open>Hub_Slashing\<close>: the slashing check of \<open>contract.rs\<close> and the rate that follows from it.
  \<^item> \<open>Hub_Config\<close>: \<open>config.rs\<close>. \<open>Hub_Stake\<close>: \<open>stake.rs\<close>. \<open>Hub_Unstake\<close>: \<open>unstake.rs\<close>.
    \<open>Hub_Query\<close>: \<open>query.rs\<close>. \<open>Hub_Contract\<close>: the entry points of \<open>contract.rs\<close>. What every handler
    does on its successful runs, and the errors that matter.
  \<^item> \<open>Hub_Invariant\<close>: the hub as a transition system, the well-formedness of its queue (batches,
    histories and wait list agree) and its solvency, each kept by every handler.
  \<^item> \<open>Hub_Safety\<close>: what follows for reachable states, access control, and that a solvent hub pays.
  \<^item> \<open>Hub_Claims\<close>: entries of the wait list and histories over all messages: nobody loses a claim.
  \<^item> \<open>Hub_Book\<close>: the abstract specification of unstaking, a book of claims over natural numbers with
    four operations, and the refinement: every message of the hub is a sequence of these on the book
    that its storage stands for (\<open>book_of\<close>, \<open>ops_of\<close>).
  \<^item> \<open>Hub_Funds\<close>: the hub with its coins on the chain, which messages pay out, stakes queue for
    the end of the chain's epoch, and completed undelegations bring back. The coins always cover
    what is queued and what is owed for released batches, and matured claims are paid when their
    coins are back. \<open>Hub_Unbonding\<close>: they are, when the chain returns undelegated coins in full and
    within the unstaking period, because closing a batch undelegates what the batch is worth.
  \<^item> \<open>Hub_Messages\<close>: what the hub tells the token. \<open>Hub_Backing\<close>: with these messages carried out, the
    tokens are backed by the stake, and the rate falls by slashing only.
  \<^item> \<open>Registry\<close>, \<open>Dispatcher\<close>, \<open>Token\<close>: the other contracts, each with its invariant.
  \<^item> \<open>Whole_System\<close>: the four contracts together. A transaction is one call and everything its
    messages cause (see below). The system is a transition system over the transactions of all
    senders and all answers of the outside world; its invariant joins those of the contracts with
    the backing of the tokens. \<open>System_Properties\<close>: what follows for every reachable state, the
    projection of the deployment to each contract, and stakes and unstakes as whole
    transactions; a sample deployment from its instantiation to an unstake.
  \<^item> \<open>Failures\<close>: which panics each handler, and a transaction, can end in.
  \<^item> \<open>Epoching\<close>: the simulation of the chain in \<open>lst_common\<close> (\<open>babylon.rs\<close>, \<open>testing.rs\<close>): wrapped
    messages are queued and run at the end of an epoch. The messages of a stake reach the staking
    module in order and in full. \<open>Test_Contracts\<close>: how the simulation deploys the contracts (the trait
    \<open>TestingContract\<close> and the four \<open>testing.rs\<close>), and that their default messages connect them.
  \<^item> \<open>Unit_Tests\<close>, \<open>Unit_Tests_Others\<close>: the unit tests of the repository as conditions over the model
    and the record \<open>mocks\<close>, and that the model meets all of them. A call that fails leaves the
    storage of the model as it was; the tests never look at a storage after a failure that wrote.
  \<^item> \<open>Sample_World\<close>: a concrete world for the witnesses.
  \<^item> This theory: single messages between two contracts: rewards from the dispatcher to the hub,
    redelegations from the registry to the hub, and the slashing check that a burn causes.

  The records \<open>hub_storage\<close>, \<open>registry_storage\<close>, \<open>dispatcher_storage\<close>, \<open>token_storage\<close> have one field
  per item or map of the \<open>state.rs\<close> of the contract, and the version record of cw2.
  Definitions have the names of the Rust functions, with a prefix where several contracts share one.

  \<^bold>\<open>Transactions\<close>

  \<open>call\<close> is one call of one contract: its handler on its storage, where the queries to the other
  contracts are answered from their storages (\<open>asked\<close>). \<open>exec\<close> is a call with the messages of its
  response, executed in order and each with everything it causes before the next; a failure
  anywhere is a failure of the whole, so no storage changes. The chain and other contracts accept
  every message and do nothing in the same transaction; their later calls are transactions of their
  own, by any sender. Answers of the outside world are given by a function from the number of the
  call, so they may differ from call to call. \<open>exec\<close> has a bound on the depth of calls; a depth of 4
  is enough for every payload (\<open>depth\<close>, \<open>transactions_end\<close>), the longest chain being a send of tokens
  to the hub, its hook, the burn, and the slashing check. Messages to the registry have no wasm
  payload type, because no contract sends one; \<open>exec_registry\<close> runs them. A deployment
  (\<open>sys_initial\<close>) is: the contracts instantiated, the token with the hub as its hub, and the owner's
  update that names the token in the hub's configuration.

  \<^bold>\<open>Loops and bounds\<close>

  Loops over lists are recursions on the list. \<open>unprocessed_loop\<close> (\<open>get_unprocessed_histories\<close>)
  raises a 64-bit batch number in each round, whose overflow panics, and so ends by a measure.
  The \<open>while\<close> of \<open>calculate_undelegations\<close> is a \<open>partial_function\<close>, so a loop that runs for ever
  would have no value; it is proved to have one for every input (\<open>undelegations_terminate\<close>). So is
  the loop over the queue of the epoching module, which ends when the staking module leaves the
  queue alone (\<open>keeper_local\<close>, \<open>epoch_loop_runs\<close>). Fuel is used only for the depth of calls in a
  transaction (\<open>exec\<close>) and, in the abstract book, for \<open>release\<close>, where the number of the open batch
  is enough because every released batch has a smaller one. No theorem bounds the number of validators, users or batches. Steps of the
  transition systems range over every answer of the outside world, every block and every sender.

  \<^bold>\<open>What modelling showed\<close>

  The hub is solvent as long as no message repeats a batch identifier (\<open>hub_reachable_solvent\<close>).
  \<open>WithdrawUnstakedForBatches\<close> does not remove repetitions and pays each of them
  (\<open>repeated_batch_paid_again\<close>); the hub is insolvent afterwards unless the excess fits into the
  surplus of the unclaimed balance, at the cost of other users (\<open>repeated_claims_cost_others\<close>).
  A batch worth less than one coin cannot be closed (\<open>dust_batch_cannot_close\<close>); a staking epoch of
  no blocks can be instantiated and then blocks all stakes (\<open>zero_staking_epoch_blocks_stakes\<close>); a
  validator added by its account address is stored under that address
  (\<open>added_account_address_unseen\<close>); the last validator can be removed
  (\<open>last_validator_removable\<close>); the token refuses its migration (\<open>token_cannot_migrate\<close>).

  \<^bold>\<open>Not modelled\<close>

  The bytes of JSON and protobuf, error texts, gas, and the JSON schema generators
  (\<open>src/bin/schema.rs\<close>). The chain and the libraries (cosmwasm, cw2, cw20-base, bech32) are
  parameters. Replies: no contract asks for one, so a message that fails fails the transaction.
  The balances of the bank: transfers of coins are messages to the chain, and the balance of a
  contract is an answer of the chain, but in \<open>Hub_Funds\<close>, which keeps the coins of the hub. Foreign
  contracts that call back within one transaction. Of the tests, those of \<open>address.rs\<close> (constants
  of bech32) and \<open>babylon_msg.rs\<close> (protobuf bytes), and the integration tests
  (\<open>tests/integration_test.rs\<close>), which run on the staking module of the test library.
\<close>

section \<open>What the dispatcher and the registry tell the hub\<close>

lemma dispatch_InrD:
  assumes "execute_dispatch_rewards d e info s = Inr (r, s')"
  obtains c rewards fee left where "d_config s = Some c" "info_sender info = rc_hub_contract c"
    "query_balance d (contract_address e) (rc_reward_denom c) = Inr rewards"
    "compute_fee d (coin_amount rewards) (rc_fee_rate c) = Inr fee"
    "unat (coin_amount rewards) = unat fee + unat left"
    "messages r = (if fee = 0 then [] else [BankSend (rc_fee_addr c)
        [\<lparr>coin_denom = rc_reward_denom c, coin_amount = fee\<rparr>]])
      @ (if left = 0 then [] else [WasmExecute (rc_hub_contract c) (HubPayload StakeRewards)
        [rewards\<lparr>coin_amount := left\<rparr>]])"
  using assms unfolding execute_dispatch_rewards_def Let_def
proof (elim outcome_elims, goal_cases)
  case (1 c hub_paused rewards fee left)
  show ?case
    by (rule 1(1) [of c rewards fee left])
      (use 1(2-) in \<open>auto simp: query_rewards_config_def outcome_simps checked_sub_or_overflow_Inr
        response_new_def\<close>)
qed

lemma redelegate_proxy_InrD:
  assumes "execute_redelegate_proxy e info src reds s = Inr (r, s')"
  shows "s' = s" and "messages r = map (\<lambda>(dst, c).
      AnyMsg ''/babylon.epoching.v1.MsgWrappedBeginRedelegate'' (MsgWrappedBeginRedelegate
        (Some (MsgBeginRedelegate (contract_address e) src dst
          (Some (ProtoCoin (coin_denom c) (to_string (coin_amount c)))))))) reds"
  using assms
  by (auto simp: execute_redelegate_proxy_def outcome_simps response_new_def Let_def
      prepare_wrapped_begin_redelegate_msg_def to_any_def split: if_splits)

lemma moving_mem: "(a, c) \<in> set (moving m excl) \<Longrightarrow> m a = Some c \<and> coin_amount c \<noteq> 0 \<and> a \<in> fst ` set excl"
  by (induction excl) (auto split: option.splits if_splits)

lemma process_redelegations_message:
  assumes "process_redelegations d s = Inr (r, s')" and "r_config s = Some config"
    and "query_all_delegations d (vc_hub_contract config) = Inr ds" and "m \<in> set (messages r)"
  obtains a c reds where "m = WasmExecute (vc_hub_contract config) (HubPayload (RedelegateProxy a reds)) []"
    "delegations_by_validator ds a = Some c" "coin_amount c \<noteq> 0" "a \<in> fst ` set (r_exclude s)"
    "(\<Sum>(_, c') \<leftarrow> reds. unat (coin_amount c')) = unat (coin_amount c)"
    "\<forall>(dst, c') \<in> set reds. dst \<in> (\<lambda>(_, v). validator_address v) ` set (r_registry s)
      \<and> coin_amount c' \<noteq> 0 \<and> coin_denom c' = coin_denom c"
proof -
  let ?m = "delegations_by_validator ds"
  let ?active = "active_delegations ?m (r_registry s)"
  have "r_exclude s \<noteq> []"
    using assms(1,4) by (auto simp: process_redelegations_def response_new_def)
  from process_redelegations_InrD [OF assms(1) this] assms(2,3)
  have loop: "for_each (redelegate_from (vc_hub_contract config) ?m ?active) (r_exclude s) []
      = Inr (messages r)"
    by (metis option.inject sum.inject(2))
  note loop = redelegate_loop [OF loop]
  from loop assms(4) obtain a c where mem: "(a, c) \<in> set (moving ?m (r_exclude s))"
    and m: "m = WasmExecute (vc_hub_contract config) (HubPayload (RedelegateProxy a
      (redelegations_to (coin_denom c) ?active (split_of ?active (coin_amount c))))) []"
    by auto
  from loop mem have "calculate_delegations (coin_amount c) ?active
      = Inr (split_of ?active (coin_amount c))" by blast
  note total = delegations.split_length [OF this] delegations.split_total [OF this]
  show ?thesis
    by (rule that [OF m])
      (use moving_mem [OF mem] total in \<open>auto simp: redelegations_to_total active_addresses [of ?m, symmetric]
         dest: redelegations_to_mem\<close>)
qed

section \<open>Moving tokens between the supply and the open batch\<close>

lemma uadd_cong: "unat a + unat b = unat c + unat d \<Longrightarrow> uadd a b = uadd (c :: 'n::len word) d"
  by (simp add: uadd_def word_unat_eq_iff unat_word_ariths)

lemma update_lst_exchange_rate_move:
  assumes "unat issued + unat requested = unat issued' + unat requested'"
  shows "update_lst_exchange_rate (d\<lparr>query_token_supply := q\<rparr>) st issued requested
    = update_lst_exchange_rate d st issued' requested'"
proof -
  have same: "decimal_from_ratio (d\<lparr>query_token_supply := q\<rparr>) = decimal_from_ratio d" by simp
  show ?thesis unfolding update_lst_exchange_rate_def uadd_cong [OF assms] same ..
qed

section \<open>Properties\<close>

text \<open>
  C27: Rewards from the dispatcher to the stake. When the dispatcher dispatches and the hub then
  handles the message it sent, the hub's staked amount rises by, and its delegations amount to,
  exactly the rewards without the fee, and no token is minted: the value accrues to the holders.
\<close>

theorem reward_flow:
  assumes "dispatcher_execute dd ed info_d DispatchRewards sd = Inr (rd, sd')"
    and "d_config sd = Some c"
    and "query_balance dd (contract_address ed) (rc_reward_denom c) = Inr rewards"
    and "WasmExecute hub (HubPayload m) funds \<in> set (messages rd)"
    and "hub_execute d e \<lparr>info_sender = contract_address ed, info_funds = funds\<rparr> m s = Inr (r, s')"
  shows "\<exists>fee st0 st st'. compute_fee dd (coin_amount rewards) (rc_fee_rate c) = Inr fee
    \<and> s_state s = Some st0 \<and> query_actual_state d e s st0 = Inr st \<and> s_state s' = Some st'
    \<and> unat fee + delegates (messages r) = unat (coin_amount rewards)
    \<and> unat fee + unat (total_staked_amount st')
        = unat (total_staked_amount st) + unat (coin_amount rewards)
    \<and> to_token (messages r) = []"
proof -
  have "execute_dispatch_rewards dd ed info_d sd = Inr (rd, sd')"
    using assms(1) by (simp add: dispatcher_execute_def)
  then obtain fee left where fee: "compute_fee dd (coin_amount rewards) (rc_fee_rate c) = Inr fee"
    and sum: "unat (coin_amount rewards) = unat fee + unat left"
    and sent: "m = StakeRewards" "funds = [rewards\<lparr>coin_amount := left\<rparr>]"
    using assms(2-4) by (auto elim!: dispatch_InrD split: if_splits)
  have run: "execute_stake d e \<lparr>info_sender = contract_address ed, info_funds = funds\<rparr> StakeRewardsType s
      = Inr (r, s')"
    using assms(5) sent(1) by (auto simp: hub_execute_def outcome_simps split: if_splits)
  have silent: "to_token (messages r) = []"
    using stake_to_token [OF run] by simp
  from run obtain payment st0 st st' where "funds = [payment]" "s_state s = Some st0"
    "query_actual_state d e s st0 = Inr st" "s_state s' = Some st'"
    "delegates (messages r) = unat (coin_amount payment)"
    "unat (total_staked_amount st') = unat (total_staked_amount st) + unat (coin_amount payment)"
    by (rule execute_stake_InrD) (auto dest!: update_lst_exchange_rate_InrD)
  with fee sum sent(2) silent show ?thesis by auto
qed

text \<open>
  C28: Redelegation from the registry to the chain. Every message that the registry's processing
  sends goes to the hub without coins, and when the hub handles it, its messages to the chain are
  exactly redelegations of its own delegation from one excluded validator to registered ones, of
  positive amounts in the delegation's denomination that sum to exactly what was delegated to the
  excluded validator; the hub's own state does not change.
\<close>

theorem redelegation_flow:
  assumes "process_redelegations dr sr = Inr (rr, sr')" and "r_config sr = Some config"
    and "query_all_delegations dr (vc_hub_contract config) = Inr ds"
    and "WasmExecute hub (HubPayload m) funds \<in> set (messages rr)"
    and "hub_execute d e \<lparr>info_sender = registry, info_funds = funds\<rparr> m s = Inr (r, s')"
  shows "hub = vc_hub_contract config \<and> funds = [] \<and> s' = s
    \<and> (\<exists>src c. \<exists>reds :: (string \<times> coin) list. src \<in> fst ` set (r_exclude sr)
      \<and> delegations_by_validator ds src = Some c \<and> coin_amount c \<noteq> 0
      \<and> messages r = map (\<lambda>(dst, c').
          AnyMsg ''/babylon.epoching.v1.MsgWrappedBeginRedelegate'' (MsgWrappedBeginRedelegate
            (Some (MsgBeginRedelegate (contract_address e) src dst
              (Some (ProtoCoin (coin_denom c') (to_string (coin_amount c')))))))) reds
      \<and> (\<forall>(dst, c') \<in> set reds. dst \<in> (\<lambda>(_, v). validator_address v) ` set (r_registry sr)
          \<and> coin_amount c' \<noteq> 0 \<and> coin_denom c' = coin_denom c)
      \<and> (\<Sum>(_, c') \<leftarrow> reds. unat (coin_amount c')) = unat (coin_amount c))"
proof -
  obtain src c reds where sent: "m = RedelegateProxy src reds" "hub = vc_hub_contract config" "funds = []"
    and c: "delegations_by_validator ds src = Some c" "coin_amount c \<noteq> 0" "src \<in> fst ` set (r_exclude sr)"
      "(\<Sum>(_, c') \<leftarrow> reds. unat (coin_amount c')) = unat (coin_amount c)"
      "\<forall>(dst, c') \<in> set reds. dst \<in> (\<lambda>(_, v). validator_address v) ` set (r_registry sr)
        \<and> coin_amount c' \<noteq> 0 \<and> coin_denom c' = coin_denom c"
    by (rule process_redelegations_message [OF assms(1-4)], rule that) auto
  have "execute_redelegate_proxy e \<lparr>info_sender = registry, info_funds = funds\<rparr> src reds s = Inr (r, s')"
    using assms(5) sent(1) by (auto simp: hub_execute_def outcome_simps split: if_splits)
  note hub = redelegate_proxy_InrD [OF this]
  show ?thesis
    by (intro conjI exI [of _ src] exI [of _ c] exI [of _ reds]) (rule sent hub c)+
qed

text \<open>
  C17: Unstaking, the burn it causes and the slashing check the burn causes do not disturb the
  exchange rate. After an unstake that leaves the batch open, the token burns the amount, so the
  supply falls by what the batch has grown, and the hub's check on that supply succeeds and finds
  exactly the state that the unstake stored. This holds when the hub has no delegations or no
  more is waiting to be undelegated than the chain still holds in delegations; otherwise the
  check after the burn can fail on an underflow.
\<close>

theorem burn_after_unstake_keeps_rate:
  assumes "execute_unstake d e amount sender flow s = Inr (r, s')"
    and "s_state s = Some st0" and "s_parameters s = Some params"
    and "unat (block_time e) - unat (last_unbonded_time st0) \<le> unat (epoch_length params)"
    and "query_total_lst_token_issued d s = Inr issued" and "unat amount \<le> unat issued"
    and "query_all_delegations d (contract_address e) = Inr dels"
    and "get_pending_delegation_amount e s = Inr (ps, pu)"
    and "dels = [] \<or> unat pu \<le> bonded (staking_coin_denom params) dels"
  shows "\<exists>r'. execute_slashing (d\<lparr>query_token_supply := \<lambda>_. Inr (issued - amount)\<rparr>) e s' = Inr (r', s')"
proof -
  let ?d = "d\<lparr>query_token_supply := \<lambda>_. Inr (issued - amount)\<rparr>"
  obtain batch batch1 s1 msgs evs batch2 where batch: "s_current_batch s = Some batch"
    and request: "update_unstake_batch_wait_list d batch sender amount s = Inr (batch1, s1)"
    and check: "check_for_unstake_batch_epoch_completion d e batch1 s1 = Inr (msgs, evs, batch2, s')"
    by (rule execute_unstake_InrD [OF assms(1)])
  obtain a requested v where batch1: "batch1 = batch\<lparr>requested_lst_token_amount := requested\<rparr>"
      "unat requested = unat (requested_lst_token_amount batch) + unat amount"
    and s1: "s1 = s\<lparr>s_unstake_wait_list := save (a, cb_id batch) v (s_unstake_wait_list s)\<rparr>"
    using request by (rule update_unstake_batch_wait_list_InrD)
  have cong1: "query_actual_state d e s1 st = query_actual_state d e s st" for st
    unfolding s1 by (rule query_actual_state_cong) simp_all
  obtain st where st: "query_actual_state d e s st0 = Inr st"
    and s': "s' = s1\<lparr>s_state := Some st, s_current_batch := Some batch1\<rparr>"
    using check
  proof (cases rule: epoch_completion_cases)
    case (waiting params' st0' st)
    with that [of st] assms(2) cong1 show ?thesis by (simp add: s1)
  next
    case (closed params' st0' st st' s2)
    obtain total rate where "st = st0'\<lparr>total_staked_amount := total, lst_exchange_rate := rate\<rparr>"
      using closed(3) by (rule query_actual_state_frame)
    with closed(1,2,5) assms(2-4) show ?thesis by (simp add: s1)
  qed
  have pending: "get_pending_delegation_amount e s' = Inr (ps, pu)"
    using assms(8) by (simp add: get_pending_delegation_amount_def load_pending_delegation_def s' s1)
  have "query_actual_state ?d e s' st = Inr st"
  proof (cases "dels = [] \<or> unat (total_staked_amount st0) + unat pu = unat ps")
    case True
    then have "st = st0"
      using query_actual_state_nothing [OF st assms(7,8) True, of d s] st by simp
    with query_actual_state_nothing [OF st assms(7,8) True, of ?d s'] show ?thesis
      using pending assms(8) by (simp add: s' s1)
  next
    case False
    from st obtain total where total: "unat ps \<le> unat (total_staked_amount st0)"
        "unat (total_staked_amount st0) - unat ps + unat pu < 2 ^ 128"
        "bonded (staking_coin_denom params) dels < 2 ^ 128"
        "unat total = min (unat (total_staked_amount st0))
           (bonded (staking_coin_denom params) dels + unat ps - unat pu)"
      and rate: "update_lst_exchange_rate d (st0\<lparr>total_staked_amount := total\<rparr>) issued
           (requested_lst_token_amount batch) = Inr st"
      by (cases rule: query_actual_state_cases) (use assms batch False in auto)
    have st_total: "total_staked_amount st = total"
      using update_lst_exchange_rate_InrD [OF rate] by auto
    have "unat (issued - amount) + unat requested = unat issued + unat (requested_lst_token_amount batch)"
      using assms(6) batch1(2) by (simp add: unat_sub_exact word_le_nat_alt)
    note move = update_lst_exchange_rate_move [OF this]
    have rate': "update_lst_exchange_rate ?d st (issued - amount) requested = Inr st"
      unfolding move by (rule update_lst_exchange_rate_again [OF rate])
    have "query_total_lst_token_issued ?d s' = Inr (issued - amount)"
      using assms(5) by (auto simp: query_total_lst_token_issued_def outcome_simps load_config_def s' s1
          query_std_def from_err_def ok_or_def)
    with pending have "query_actual_state ?d e s' st =
        (if unat (total_staked_amount st) + unat pu = unat ps then Inr st
         else update_lst_exchange_rate ?d st (issued - amount) (requested_lst_token_amount batch1))"
      using assms(3,7,9) False total
      by (intro query_actual_state_no_slash) (auto simp: st_total s' s1)
    then show ?thesis
      using rate' by (simp add: batch1(1))
  qed
  then show ?thesis
    by (simp add: execute_slashing_def load_state_def s' check_slashing_def update_state_def)
qed

section \<open>Witnesses\<close>

text \<open>The dispatcher's own address is the one the hub knows.\<close>

definition at_dispatcher :: env where
  "at_dispatcher = now\<lparr>contract_address := sample_dispatcher\<rparr>"

lemma reward_flow_witness:
  "\<exists>rd r s' (fee :: uint128). dispatcher_execute sample_deps at_dispatcher (by_user sample_hub_addr []) DispatchRewards
      sample_dispatcher_storage = Inr (rd, sample_dispatcher_storage)
    \<and> hub_execute sample_deps now (by_user sample_dispatcher [bbn 112]) StakeRewards sample_hub = Inr (r, s')
    \<and> unat fee + delegates (messages r) = 150"
proof -
  obtain rd where d: "dispatcher_execute sample_deps at_dispatcher (by_user sample_hub_addr []) DispatchRewards
      sample_dispatcher_storage = Inr (rd, sample_dispatcher_storage)"
    and sent: "WasmExecute sample_hub_addr (HubPayload StakeRewards) [bbn 112] \<in> set (messages rd)"
    by (simp add: dispatcher_execute_def execute_dispatch_rewards_def query_rewards_config_def
        is_paused_def compute_fee_def at_dispatcher_def sample_dispatcher_storage_def
        sample_rewards_config_def storage_eval sample_defs eval_simps checked_sub_or_overflow_def
        cong: eval_cong)
  obtain r s' where h: "hub_execute sample_deps now \<lparr>info_sender = contract_address at_dispatcher,
      info_funds = [bbn 112]\<rparr> StakeRewards sample_hub = Inr (r, s')"
    by (simp add: hub_execute_def stake_eval slashing_eval storage_eval sample_defs split_eval
        at_dispatcher_def cong: eval_cong)
  have items: "d_config sample_dispatcher_storage = Some sample_rewards_config"
    "query_balance sample_deps (contract_address at_dispatcher) (rc_reward_denom sample_rewards_config)
      = Inr (bbn 150)"
    by (simp_all add: sample_dispatcher_storage_def sample_deps_def)
  have "\<exists>fee :: uint128. unat fee + delegates (messages r) = 150"
    using reward_flow [OF d items sent h] by (auto simp: bbn_def)
  moreover have "hub_execute sample_deps now (by_user sample_dispatcher [bbn 112]) StakeRewards sample_hub
      = Inr (r, s')"
    using h by (simp add: by_user_def at_dispatcher_def)
  ultimately show ?thesis using d by blast
qed

lemma redelegation_flow_witness:
  "\<exists>rr. \<exists>reds :: (string \<times> coin) list. \<exists>r. process_redelegations sample_chain sample_registered = Inr (rr, sample_registered)
    \<and> hub_execute sample_deps now (by_user sample_registry []) (RedelegateProxy ''val1'' [(''val2'', bbn 500)])
        sample_hub = Inr (r, sample_hub)
    \<and> messages r = map (\<lambda>(dst, c).
        AnyMsg ''/babylon.epoching.v1.MsgWrappedBeginRedelegate'' (MsgWrappedBeginRedelegate
          (Some (MsgBeginRedelegate sample_hub_addr ''val1'' dst
            (Some (ProtoCoin (coin_denom c) (to_string (coin_amount c)))))))) reds
    \<and> (\<Sum>(_, c) \<leftarrow> reds. unat (coin_amount c)) = 500"
proof -
  obtain rr sr' where run: "process_redelegations sample_chain sample_registered = Inr (rr, sr')"
    and sr': "sr' = sample_registered"
    and sent: "WasmExecute sample_hub_addr (HubPayload (RedelegateProxy ''val1'' [(''val2'', bbn 500)])) []
      \<in> set (messages rr)"
    by (simp add: registry_eval storage_eval sample_defs split_eval cong: eval_cong)
  have items: "r_config sample_registered = Some sample_registry_config"
    "query_all_delegations sample_chain (vc_hub_contract sample_registry_config)
      = Inr [\<lparr>del_validator = ''val1'', del_amount = bbn 500\<rparr>,
             \<lparr>del_validator = ''val2'', del_amount = bbn 400\<rparr>]"
    by (simp_all add: registry_eval sample_deps_def)
  obtain r s' where h: "hub_execute sample_deps now \<lparr>info_sender = sample_registry, info_funds = []\<rparr>
      (RedelegateProxy ''val1'' [(''val2'', bbn 500)]) sample_hub = Inr (r, s')"
    by (simp add: hub_execute_def execute_redelegate_proxy_def storage_eval sample_defs eval_simps)
  let ?ds = "[\<lparr>del_validator = ''val1'', del_amount = bbn 500\<rparr>,
      \<lparr>del_validator = ''val2'', del_amount = bbn 400\<rparr>]"
  obtain src c and reds :: "(string \<times> coin) list" where only: "src \<in> fst ` set (r_exclude sample_registered)"
    and c: "delegations_by_validator ?ds src = Some c"
      "(\<Sum>(_, c') \<leftarrow> reds. unat (coin_amount c')) = unat (coin_amount c)" and same: "s' = sample_hub"
    and msgs: "messages r = map (\<lambda>(dst, c').
        AnyMsg ''/babylon.epoching.v1.MsgWrappedBeginRedelegate'' (MsgWrappedBeginRedelegate
          (Some (MsgBeginRedelegate (contract_address now) src dst
            (Some (ProtoCoin (coin_denom c') (to_string (coin_amount c')))))))) reds"
    using redelegation_flow [OF run items sent h] by blast
  have src: "src = ''val1''" using only by (simp add: registry_eval)
  then have amount: "unat (coin_amount c) = 500" using c(1) by (auto simp: registry_eval bbn_def)
  have at: "contract_address now = sample_hub_addr" by (simp add: now_def)
  show ?thesis
    by (rule exI [of _ rr], rule exI [of _ reds], rule exI [of _ r], intro conjI)
      (rule run [unfolded sr'] h [unfolded same, folded by_user_def] msgs [unfolded src at]
        c(2) [unfolded amount])+
qed

text \<open>A block early enough for the open batch to stay open.\<close>

definition early :: env where
  "early = now\<lparr>block_time := 1500\<rparr>"

lemma burn_after_unstake_keeps_rate_witness:
  "\<exists>r s' r'. execute_unstake sample_deps early 20 alice BurnFromFlow sample_hub = Inr (r, s')
    \<and> execute_slashing (sample_deps\<lparr>query_token_supply := \<lambda>_. Inr 880\<rparr>) early s' = Inr (r', s')"
proof -
  obtain r s' where run: "execute_unstake sample_deps early 20 alice BurnFromFlow sample_hub = Inr (r, s')"
    by (simp add: unstake_eval stake_eval slashing_eval storage_eval sample_defs split_eval early_def
        cong: eval_cong)
  have items: "s_state sample_hub = Some sample_state" "s_parameters sample_hub = Some sample_params"
    "unat (block_time early) - unat (last_unbonded_time sample_state) \<le> unat (epoch_length sample_params)"
    by (simp_all add: early_def sample_state_def sample_params_def)
  have chain: "query_total_lst_token_issued sample_deps sample_hub = Inr 900"
    "unat (20 :: uint128) \<le> unat (900 :: uint128)"
    "query_all_delegations sample_deps (contract_address early) =
      Inr [\<lparr>del_validator = ''val1'', del_amount = bbn 500\<rparr>, \<lparr>del_validator = ''val2'', del_amount = bbn 400\<rparr>]"
    "get_pending_delegation_amount early sample_hub = Inr (0, 0)"
    by (simp_all add: query_total_lst_token_issued_def get_pending_delegation_amount_def early_def
        storage_eval sample_defs eval_simps cong: eval_cong)
  from burn_after_unstake_keeps_rate [OF run items chain] run show ?thesis
    by (auto simp: sample_state_def)
qed

end
